(* ===== verification/SSO_Prelude.thy ===== *)
theory SSO_Prelude
  imports Complex_Main "HOL-Library.Word"
begin

text \<open>
  Shared material of the development: the machine-integer types of the C sources, the
  population count used by the Golay decoder and the sync search, bit-level and list
  lemmas, and three interfaces that the components instantiate on their own operations:
  \<^item> \<open>codec\<close>: an encoder and a decoder where decoding undoes a successful encoding, and
    \<open>codec_chain\<close>, which stacks two of them the way the link layers are stacked;
  \<^item> \<open>preserved\<close>: a step function and an invariant it keeps, with the lemma that every
    run keeps it;
  \<^item> \<open>xor_linear\<close>: a map on words that commutes with exclusive or.
\<close>

unbundle bit_operations_syntax

named_theorems codec_simps \<open>equations that evaluate encoders and decoders\<close>

type_synonym u8 = "8 word"
type_synonym u16 = "16 word"
type_synonym u32 = "32 word"
type_synonym u64 = "64 word"

section \<open>Population count\<close>

text \<open>The compiler builtin \<^verbatim>\<open>__builtin_popcount\<close>: the number of one bits.\<close>

definition popcount :: "'a::len word \<Rightarrow> nat" where
  "popcount w = length (filter (bit w) [0..<LENGTH('a)])"

lemma popcount_card: "popcount (w :: 'a::len word) = card {n. n < LENGTH('a) \<and> bit w n}"
proof -
  have "length (filter (bit w) [0..<LENGTH('a)]) = card (set (filter (bit w) [0..<LENGTH('a)]))"
    by (rule distinct_card [symmetric]) simp
  also have "set (filter (bit w) [0..<LENGTH('a)]) = {n. n < LENGTH('a) \<and> bit w n}"
    by auto
  finally show ?thesis by (simp add: popcount_def)
qed

lemma popcount_bits: "popcount (w :: 'a::len word) = card {n. bit w n}"
  unfolding popcount_card by (rule arg_cong [where f = card]) (auto dest: bit_imp_le_length)

lemma popcount_0 [simp]: "popcount 0 = 0"
  by (simp add: popcount_def)

lemma popcount_eq_0_iff [simp]: "popcount (w :: 'a::len word) = 0 \<longleftrightarrow> w = 0"
  by (auto simp: popcount_card intro!: bit_word_eqI)

lemma popcount_le: "popcount (w :: 'a::len word) \<le> LENGTH('a)"
  unfolding popcount_def using length_filter_le [of "bit w" "[0..<LENGTH('a)]"] by simp

lemma card_symm_diff:
  assumes "finite A" and "finite B"
  shows "card ((A - B) \<union> (B - A)) + 2 * card (A \<inter> B) = card A + card B"
proof -
  have "card ((A - B) \<union> (B - A)) = card (A - B) + card (B - A)"
    using assms by (intro card_Un_disjoint) auto
  moreover have "card A = card (A - B) + card (A \<inter> B)"
    using assms by (subst card_Un_disjoint [symmetric]) (auto intro!: arg_cong [where f = card])
  moreover have "card B = card (B - A) + card (A \<inter> B)"
    using assms by (subst card_Un_disjoint [symmetric]) (auto intro!: arg_cong [where f = card])
  ultimately show ?thesis by simp
qed

lemma popcount_xor:
  "popcount (v XOR w) + 2 * popcount (v AND w) = popcount v + popcount (w :: 'a::len word)"
proof -
  let ?A = "{n. n < LENGTH('a) \<and> bit v n}" and ?B = "{n. n < LENGTH('a) \<and> bit w n}"
  have "{n. n < LENGTH('a) \<and> bit (v XOR w) n} = (?A - ?B) \<union> (?B - ?A)"
    and "{n. n < LENGTH('a) \<and> bit (v AND w) n} = ?A \<inter> ?B"
    by (auto simp: bit_simps)
  then show ?thesis
    using card_symm_diff [of ?A ?B] by (simp add: popcount_card)
qed

lemma popcount_xor_triangle: "popcount (v XOR w) \<le> popcount v + popcount (w :: 'a::len word)"
  using popcount_xor [of v w] by simp

lemma popcount_dist_triangle:
  "popcount (u XOR w) \<le> popcount (u XOR v) + popcount (v XOR w :: 'a::len word)"
proof -
  have "u XOR w = (u XOR v) XOR (v XOR w)"
    by (auto simp: bit_eq_iff bit_simps)
  then show ?thesis by (metis popcount_xor_triangle)
qed

lemma parity_popcount_xor:
  "popcount (v XOR w) mod 2 = (popcount v + popcount (w :: 'a::len word)) mod 2"
  using popcount_xor [of v w] by presburger

lemma xor_left_cancel [simp]: "v XOR (v XOR w) = (w :: 'a::len word)"
  by (simp add: bit_eq_iff bit_simps)

lemma xor_right_cancel [simp]: "(w XOR v) XOR v = (w :: 'a::len word)"
  by (auto simp: bit_eq_iff bit_simps)

lemma unat_small_iff_bits: "unat (w :: 'a::len word) < 2 ^ k \<longleftrightarrow> (\<forall>n. bit w n \<longrightarrow> n < k)"
proof -
  have "unat w < 2 ^ k \<longleftrightarrow> take_bit k (unat w) = unat w"
    by (simp add: take_bit_nat_eq_self_iff)
  also have "\<dots> \<longleftrightarrow> take_bit k w = w"
    by (simp add: unsigned_take_bit_eq [symmetric] word_unat_eq_iff)
  also have "\<dots> \<longleftrightarrow> (\<forall>n. bit w n \<longrightarrow> n < k)"
    by (auto simp: bit_eq_iff bit_take_bit_iff dest: bit_imp_le_length)
  finally show ?thesis .
qed

section \<open>Interfaces\<close>

locale xor_linear =
  fixes f :: "'a::len word \<Rightarrow> 'b::len word"
  assumes map_xor: "f (x XOR y) = f x XOR f y"
begin

lemma map_zero: "f 0 = 0"
  using map_xor [of 0 0] by simp

lemma map_dist: "popcount (f x XOR f y) = popcount (f (x XOR y))"
  by (simp add: map_xor)

end

text \<open>A linear map with a trivial kernel is injective.\<close>

locale xor_injective = xor_linear f for f :: "'a::len word \<Rightarrow> 'b::len word" +
  assumes kernel: "f x = 0 \<Longrightarrow> x = 0"
begin

lemma map_eq_iff: "f x = f y \<longleftrightarrow> x = y"
proof
  assume "f x = f y"
  then have "f (x XOR y) = 0" by (simp add: map_xor)
  then have "x XOR y = 0" by (rule kernel)
  then have "(x XOR y) XOR y = y" by simp
  then show "x = y" by (simp add: xor.assoc)
qed simp

end

locale codec =
  fixes enc :: "'a \<Rightarrow> 'b option" and dec :: "'b \<Rightarrow> 'a option"
  assumes dec_enc: "enc x = Some y \<Longrightarrow> dec y = Some x"
begin

lemma enc_inj: "enc x = Some y \<Longrightarrow> enc x' = Some y \<Longrightarrow> x = x'"
  by (metis dec_enc option.inject)

lemma dec_surj: "enc x \<noteq> None \<Longrightarrow> \<exists>y. dec y = Some x"
  using dec_enc by auto

end

locale codec_chain =
  inner: codec encA decA + outer: codec encB decB
  for encA :: "'a \<Rightarrow> 'b option" and decA and encB :: "'b \<Rightarrow> 'c option" and decB
begin

sublocale chain: codec "\<lambda>x. Option.bind (encA x) encB" "\<lambda>z. Option.bind (decB z) decA"
proof
  fix x z
  assume "Option.bind (encA x) encB = Some z"
  then obtain y where "encA x = Some y" and "encB y = Some z"
    by (auto simp: bind_eq_Some_conv)
  then show "Option.bind (decB z) decA = Some x"
    by (simp add: inner.dec_enc outer.dec_enc)
qed

end

locale preserved =
  fixes step :: "'s \<Rightarrow> 'e \<Rightarrow> 's" and good :: "'s \<Rightarrow> bool"
  assumes step_good: "good s \<Longrightarrow> good (step s e)"
begin

lemma run_good: "good s \<Longrightarrow> good (foldl step s es)"
  by (induction es arbitrary: s) (auto simp: step_good)

end

section \<open>Bytes of a big-endian word\<close>

lemma mask_numerals:
  "(3 :: 'a::len word) = mask 2" "(31 :: 'a word) = mask 5" "(63 :: 'a word) = mask 6"
  "(255 :: 'a word) = mask 8" "(4095 :: 'a word) = mask 12"
  by (simp_all add: mask_eq_exp_minus_1)

lemma bit_u8_high: "8 \<le> n \<Longrightarrow> \<not> bit (x :: u8) n"
  by (auto dest: bit_imp_le_length)

lemma xor_cancel_iff: "x XOR v = y XOR v \<longleftrightarrow> x = (y :: 'a::len word)"
  by (metis xor_right_cancel)

lemma xor_zero_iff: "x XOR y = 0 \<longleftrightarrow> x = (y :: 'a::len word)"
  using xor_cancel_iff [of x y y] by simp

lemma be32_join:
  "push_bit 24 (ucast (ucast (drop_bit 24 h AND 0xFF) :: u8)) OR push_bit 16 (ucast (ucast (drop_bit 16 h AND 0xFF) :: u8)) OR
   push_bit 8 (ucast (ucast (drop_bit 8 h AND 0xFF) :: u8)) OR ucast (ucast (h AND 0xFF) :: u8) = (h :: u32)"
  unfolding mask_numerals
proof (rule bit_word_eqI)
  fix n assume "n < LENGTH(32)"
  then consider "n < 8" | "8 \<le> n \<and> n < 16" | "16 \<le> n \<and> n < 24" | "24 \<le> n \<and> n < 32" by fastforce
  then show "bit (push_bit 24 (ucast (ucast (drop_bit 24 h AND mask 8) :: u8)) OR
      push_bit 16 (ucast (ucast (drop_bit 16 h AND mask 8) :: u8)) OR
      push_bit 8 (ucast (ucast (drop_bit 8 h AND mask 8) :: u8)) OR ucast (ucast (h AND mask 8) :: u8) :: u32) n = bit h n"
    by cases (auto simp: bit_simps)
qed

section \<open>Lists as C buffers\<close>

text \<open>
  \<open>write_at buf i xs\<close> is \<^verbatim>\<open>memcpy(buf + i, xs, n)\<close> inside a buffer that has room.
\<close>

definition write_at :: "'a list \<Rightarrow> nat \<Rightarrow> 'a list \<Rightarrow> 'a list" where
  "write_at buf i xs = take i buf @ xs @ drop (i + length xs) buf"

lemma length_write_at [simp]:
  "i + length xs \<le> length buf \<Longrightarrow> length (write_at buf i xs) = length buf"
  by (simp add: write_at_def)

lemma nth_write_at:
  assumes "i + length xs \<le> length buf" and "k < length buf"
  shows "write_at buf i xs ! k = (if i \<le> k \<and> k < i + length xs then xs ! (k - i) else buf ! k)"
  using assms by (auto simp: write_at_def nth_append min_def)

lemma list4_cases: "length xs = 4 \<Longrightarrow> \<exists>a b c d. xs = [a, b, c, d]"
  by (auto simp: numeral_eq_Suc length_Suc_conv)

end
