(* ===== verification/Golay24.thy ===== *)
theory Golay24
  imports SSO_Prelude
begin

text \<open>
  \<^verbatim>\<open>src/src/proto/golay24.c\<close>: the extended Golay (24,12) code that protects the
  length field of an AX100 frame. The encoder is the loop over the twelve generator rows;
  the decoder is the brute-force search over the 4096 codewords with its early exit. The
  theory shows that the encoder is linear, that two codewords differ in at least eight
  bits, and from it that the decoder corrects every pattern of up to three bit errors and
  reports every pattern of four as uncorrectable.
\<close>

section \<open>Encoder and decoder\<close>

definition GOLAY24_GEN :: "u32 list" where
  "GOLAY24_GEN =
    [0x8008ED, 0x4001DB, 0x2003B5, 0x100769,
     0x080ED1, 0x040DA3, 0x020B47, 0x01068F,
     0x008D1D, 0x004A3B, 0x002477, 0x001FFE]"

definition golay24_parity :: "u32 \<Rightarrow> u32" where
  "golay24_parity x = of_nat (popcount x mod 2)"

text \<open>One pass of the encoder loop: shift the parity word and insert the next bit.\<close>

definition golay24_row :: "u32 \<Rightarrow> u32 \<Rightarrow> u32 \<Rightarrow> u32" where
  "golay24_row r s g = push_bit 1 s OR golay24_parity (g AND r)"

definition golay24_encode :: "u16 \<Rightarrow> u32" where
  "golay24_encode data12 =
     (let r = ucast (data12 AND 0x0FFF) :: u32;
          s = foldl (golay24_row r) 0 GOLAY24_GEN
      in push_bit 12 (s AND 0x0FFF) OR r)"

text \<open>
  The search of the decoder: \<open>best_dist\<close> and \<open>best_data\<close> over the candidates, leaving
  the loop at distance zero.
\<close>

fun golay24_search :: "u32 \<Rightarrow> u16 list \<Rightarrow> nat \<Rightarrow> u16 \<Rightarrow> nat \<times> u16" where
  "golay24_search rx [] best_dist best_data = (best_dist, best_data)"
| "golay24_search rx (d # ds) best_dist best_data =
     (let dist = popcount (golay24_encode d XOR rx)
      in if dist < best_dist
         then (if dist = 0 then (dist, d) else golay24_search rx ds dist d)
         else golay24_search rx ds best_dist best_data)"

text \<open>
  \<open>Inl n\<close> is the return value -1 with \<open>n\<close> in \<^verbatim>\<open>*out_errors_corrected\<close>; \<open>Inr (d, n)\<close> is
  the return value 0 with the data and the number of corrected bits.
\<close>

definition golay24_decode :: "u32 \<Rightarrow> nat + u16 \<times> nat" where
  "golay24_decode word24 =
     (let rx = word24 AND 0x00FFFFFF;
          (best_dist, best_data) = golay24_search rx (map of_nat [0..<4096]) 25 0
      in if best_dist > 3 then Inl best_dist else Inr (best_data, best_dist))"

section \<open>Linearity\<close>

lemma golay24_parity_odd: "golay24_parity x = (if odd (popcount x) then 1 else 0)"
  by (simp add: golay24_parity_def mod_2_eq_odd)

lemma bit_golay24_parity: "bit (golay24_parity x) n \<longleftrightarrow> n = 0 \<and> odd (popcount x)"
  by (auto simp: golay24_parity_odd bit_1_iff)

lemma bit_golay24_row:
  "bit (golay24_row r s g) n \<longleftrightarrow>
     (if n = 0 then odd (popcount (g AND r)) else n < 32 \<and> bit s (n - 1))"
  unfolding golay24_row_def bit_or_iff bit_push_bit_iff bit_golay24_parity
  by (auto dest: bit_imp_le_length)

lemma mask_0x0FFF: "(0x0FFF :: 'a::len word) = mask 12"
  by (simp add: mask_eq_exp_minus_1)

lemma odd_popcount_xor:
  "odd (popcount (v XOR w)) \<longleftrightarrow> odd (popcount v) \<noteq> odd (popcount (w :: 'a::len word))"
  using parity_popcount_xor [of v w] by presburger

lemma golay24_row_xor:
  "golay24_row (q XOR r) (s XOR t) g = golay24_row q s g XOR golay24_row r t g"
proof -
  have g: "g AND (q XOR r) = (g AND q) XOR (g AND r)"
    by (rule bit_word_eqI) (auto simp: bit_simps)
  show ?thesis
    by (rule bit_word_eqI) (auto simp: bit_xor_iff bit_golay24_row g odd_popcount_xor)
qed

lemma golay24_rows_xor:
  "foldl (golay24_row (q XOR r)) (s XOR t) gs =
     foldl (golay24_row q) s gs XOR foldl (golay24_row r) t gs"
  by (induction gs arbitrary: s t) (simp_all add: golay24_row_xor)

text \<open>Data and parity occupy the two halves of the word: a codeword read bit by bit.\<close>

lemma bit_golay24_encode:
  "bit (golay24_encode d) n \<longleftrightarrow>
     (if n < 12 then bit d n
      else n < 24 \<and> bit (foldl (golay24_row (ucast (d AND 0x0FFF))) 0 GOLAY24_GEN) (n - 12))"
  unfolding golay24_encode_def Let_def mask_0x0FFF
  by (auto simp: bit_simps)

lemma golay24_encode_xor: "golay24_encode (a XOR b) = golay24_encode a XOR golay24_encode b"
proof -
  let ?r = "\<lambda>d :: u16. ucast (d AND 0x0FFF) :: u32"
  have "?r (a XOR b) = ?r a XOR ?r b"
    by (rule bit_word_eqI) (auto simp: bit_simps)
  then have "foldl (golay24_row (?r (a XOR b))) 0 GOLAY24_GEN =
      foldl (golay24_row (?r a)) 0 GOLAY24_GEN XOR foldl (golay24_row (?r b)) 0 GOLAY24_GEN"
    using golay24_rows_xor [of "?r a" "?r b" 0 0] by simp
  then show ?thesis
    by (intro bit_word_eqI) (auto simp: bit_xor_iff bit_golay24_encode)
qed

interpretation golay: xor_linear golay24_encode
  by unfold_locales (rule golay24_encode_xor)

section \<open>Minimum distance\<close>

text \<open>
  Bit counts of integer numerals, for the exhaustive check of the 4096 codewords by the
  simplifier: a binary tree that adds or leaves out one basis codeword per level.
\<close>

fun ones_num :: "num \<Rightarrow> nat" where
  "ones_num Num.One = 1"
| "ones_num (Num.Bit0 n) = ones_num n"
| "ones_num (Num.Bit1 n) = Suc (ones_num n)"

definition ones :: "int \<Rightarrow> nat" where
  "ones k = card {n. bit k n}"

lemma bits_Bit0: "{n. bit (numeral (Num.Bit0 m) :: int) n} = Suc ` {n. bit (numeral m :: int) n}"
proof (rule set_eqI)
  fix n
  show "n \<in> {n. bit (numeral (Num.Bit0 m) :: int) n} \<longleftrightarrow> n \<in> Suc ` {n. bit (numeral m :: int) n}"
    by (cases n) (auto simp: bit_Suc)
qed

lemma bits_Bit1:
  "{n. bit (numeral (Num.Bit1 m) :: int) n} = insert 0 (Suc ` {n. bit (numeral m :: int) n})"
proof (rule set_eqI)
  fix n
  show "n \<in> {n. bit (numeral (Num.Bit1 m) :: int) n} \<longleftrightarrow>
      n \<in> insert 0 (Suc ` {n. bit (numeral m :: int) n})"
    by (cases n) (auto simp: bit_Suc)
qed

lemma ones_numeral [simp]: "ones (numeral m) = ones_num m"
proof -
  have "finite {n. bit (numeral m :: int) n} \<and> card {n. bit (numeral m :: int) n} = ones_num m"
  proof (induction m)
    case One
    have "{n. bit (1 :: int) n} = {0}" by (auto simp: bit_1_iff)
    then show ?case by simp
  next
    case (Bit0 m)
    then show ?case unfolding bits_Bit0 by (simp add: card_image)
  next
    case (Bit1 m)
    then show ?case unfolding bits_Bit1 by (simp add: card_image)
  qed
  then show ?thesis by (simp add: ones_def)
qed

lemma ones_0 [simp]: "ones 0 = 0"
  by (simp add: ones_def)

lemma ones_1 [simp]: "ones 1 = 1"
  using ones_numeral [of Num.One] by simp

lemma popcount_ones: "popcount (w :: 'a::len word) = ones (uint w)"
  unfolding popcount_card ones_def
  by (rule arg_cong [where f = card]) (auto simp: bit_uint_iff dest: bit_imp_le_length)

fun span_ok :: "(int \<Rightarrow> bool) \<Rightarrow> int list \<Rightarrow> int \<Rightarrow> bool" where
  "span_ok P [] acc = P acc"
| "span_ok P (c # cs) acc = (span_ok P cs acc \<and> span_ok P cs (acc XOR c))"

fun xor_comb :: "bool list \<Rightarrow> 'a::len word list \<Rightarrow> 'a word" where
  "xor_comb (b # bs) (c # cs) = (if b then c else 0) XOR xor_comb bs cs"
| "xor_comb _ _ = 0"

lemma span_ok_xor_comb:
  "span_ok P (map uint cs) (uint a) \<Longrightarrow> length bs = length cs \<Longrightarrow> P (uint (a XOR xor_comb bs cs))"
proof (induction cs arbitrary: bs a)
  case Nil
  then show ?case by simp
next
  case (Cons c cs)
  from Cons.prems obtain b bs' where bs: "bs = b # bs'" and len: "length bs' = length cs"
    by (cases bs) auto
  have "span_ok P (map uint cs) (uint (a XOR (if b then c else 0)))"
    using Cons.prems by (auto simp: uint_xor)
  from Cons.IH [OF this len] show ?case by (simp add: bs xor.assoc)
qed

lemma golay24_encode_xor_comb:
  "golay24_encode (xor_comb bs cs) = xor_comb bs (map golay24_encode cs)"
  by (induction bs cs rule: xor_comb.induct)
     (simp_all add: golay24_encode_xor golay.map_zero)

lemma bit_xor_comb_powers:
  "bit (xor_comb bs (map (\<lambda>j. 2 ^ j :: 'a::len word) [m..<m + length bs])) n \<longleftrightarrow>
     m \<le> n \<and> n < m + length bs \<and> n < LENGTH('a) \<and> bs ! (n - m)"
proof (induction bs arbitrary: m)
  case Nil
  then show ?case by simp
next
  case (Cons b bs)
  have "[m..<m + length (b # bs)] = m # [Suc m..<Suc m + length bs]"
    by (simp add: upt_rec)
  then show ?case
    using Cons.IH [of "Suc m"]
    by (auto simp: bit_xor_iff bit_exp_iff nth_Cons' Suc_diff_le)
qed

definition golay24_basis :: "u32 list" where
  "golay24_basis = map (\<lambda>j. golay24_encode (2 ^ j)) [0..<12]"

lemma golay24_encode_basis:
  "golay24_encode d = xor_comb (map (bit d) [0..<12]) golay24_basis"
proof -
  let ?bs = "map (bit d) [0..<12]"
  let ?low = "xor_comb ?bs (map (\<lambda>j. 2 ^ j) [0..<12]) :: u16"
  have "bit ?low n \<longleftrightarrow> n < 12 \<and> bit d n" for n
    using bit_xor_comb_powers [of ?bs 0 n, where ?'a = 16] by auto
  then have low: "?low = d AND 0x0FFF"
    by (intro bit_word_eqI) (auto simp: mask_0x0FFF bit_simps)
  have "golay24_encode d = golay24_encode (d AND 0x0FFF)"
    by (rule bit_word_eqI) (auto simp: bit_golay24_encode bit_and_iff mask_0x0FFF bit_mask_iff)
  then have "golay24_encode d = golay24_encode ?low" by (simp add: low)
  then show ?thesis
    by (simp add: golay24_encode_xor_comb golay24_basis_def comp_def del: upt_rec_numeral)
qed

lemma golay24_basis_values:
  "map uint golay24_basis =
    [16769025, 4681730, 10727428, 13750280, 6877200, 11825184,
     14299200, 15536256, 7770368, 3887616, 1946624, 9361408]"
  by (simp add: golay24_basis_def golay24_encode_def Let_def GOLAY24_GEN_def golay24_row_def
      golay24_parity_def popcount_ones upt_rec)

definition heavy :: "int \<Rightarrow> bool" where
  "heavy k \<longleftrightarrow> k = 0 \<or> 8 \<le> ones k"

lemma golay24_span_heavy: "span_ok heavy (map uint golay24_basis) 0"
  unfolding golay24_basis_values by (simp add: heavy_def)

lemma golay24_weight: "golay24_encode d = 0 \<or> 8 \<le> popcount (golay24_encode d)"
proof -
  have "span_ok heavy (map uint golay24_basis) (uint (0 :: u32))"
    using golay24_span_heavy by simp
  then have "heavy (uint (0 XOR xor_comb (map (bit d) [0..<12]) golay24_basis))"
    by (rule span_ok_xor_comb) (simp add: golay24_basis_def)
  then have "heavy (uint (golay24_encode d))"
    unfolding golay24_encode_basis [of d] by simp
  then show ?thesis
    by (auto simp: heavy_def popcount_ones uint_0_iff)
qed

section \<open>Decoding\<close>

definition golay24_dist :: "u32 \<Rightarrow> u16 \<Rightarrow> nat" where
  "golay24_dist rx d = popcount (golay24_encode d XOR rx)"

text \<open>The search returns the least distance, and a candidate that attains it.\<close>

lemma golay24_search_best:
  assumes "golay24_search rx ds bd b = (bd', b')"
  shows "bd' \<le> bd" and "\<forall>d \<in> set ds. bd' \<le> golay24_dist rx d"
    and "(bd', b') = (bd, b) \<or> (b' \<in> set ds \<and> golay24_dist rx b' = bd')"
proof -
  have "bd' \<le> bd \<and> (\<forall>d \<in> set ds. bd' \<le> golay24_dist rx d) \<and>
      ((bd', b') = (bd, b) \<or> (b' \<in> set ds \<and> golay24_dist rx b' = bd'))"
    using assms
  proof (induction ds arbitrary: bd b)
    case Nil
    then show ?case by simp
  next
    case (Cons d ds)
    show ?case
    proof (cases "golay24_dist rx d < bd")
      case True
      show ?thesis
      proof (cases "golay24_dist rx d = 0")
        case zero: True
        with True Cons.prems show ?thesis by (auto simp: golay24_dist_def)
      next
        case False
        with True Cons.prems have "golay24_search rx ds (golay24_dist rx d) d = (bd', b')"
          by (simp add: golay24_dist_def Let_def)
        from Cons.IH [OF this] True show ?thesis by auto
      qed
    next
      case False
      with Cons.prems have "golay24_search rx ds bd b = (bd', b')"
        by (simp add: golay24_dist_def Let_def)
      from Cons.IH [OF this] False show ?thesis by auto
    qed
  qed
  then show "bd' \<le> bd" and "\<forall>d \<in> set ds. bd' \<le> golay24_dist rx d"
    and "(bd', b') = (bd, b) \<or> (b' \<in> set ds \<and> golay24_dist rx b' = bd')"
    by blast+
qed

lemma data12_bits: "(d :: u16) < 4096 \<longleftrightarrow> (\<forall>n. bit d n \<longrightarrow> n < 12)"
  using unat_small_iff_bits [of d 12] by (simp add: word_less_nat_alt)

lemma word24_bits: "(w :: u32) < 0x1000000 \<longleftrightarrow> (\<forall>n. bit w n \<longrightarrow> n < 24)"
  using unat_small_iff_bits [of w 24] by (simp add: word_less_nat_alt)

lemma golay24_encode_eq_0:
  assumes "golay24_encode d = 0" and "d < 4096"
  shows "d = 0"
proof (rule bit_word_eqI)
  fix n
  show "bit d n = bit (0 :: u16) n"
    using bit_golay24_encode [of d n] assms(1) assms(2) by (auto simp: data12_bits)
qed

lemma golay24_distinct:
  assumes "d < 4096" and "d' < 4096" and "d \<noteq> d'"
  shows "8 \<le> popcount (golay24_encode d XOR golay24_encode d')"
proof -
  have "d XOR d' < 4096"
    using assms by (auto simp: data12_bits bit_xor_iff)
  moreover have "d XOR d' \<noteq> 0"
    using assms(3) by (metis xor_left_cancel xor.right_neutral)
  ultimately have "golay24_encode (d XOR d') \<noteq> 0"
    using golay24_encode_eq_0 by blast
  then show ?thesis
    using golay24_weight [of "d XOR d'"] by (simp add: golay24_encode_xor)
qed


lemma golay24_encode_lt: "golay24_encode d < 0x1000000"
  by (simp add: word24_bits bit_golay24_encode)

lemma mem_data12: "d \<in> set (map of_nat [0..<4096]) \<longleftrightarrow> (d :: u16) < 4096"
proof
  assume "d < 4096"
  then have "unat d < 4096" by (simp add: word_less_nat_alt)
  then show "d \<in> set (map of_nat [0..<4096])"
    by (auto intro!: image_eqI [of _ _ "unat d"])
qed (auto simp: word_less_nat_alt unat_of_nat)

lemma golay24_dist_apart:
  assumes "d < 4096" and "d' < 4096" and "d \<noteq> d'"
  shows "8 \<le> golay24_dist rx d + golay24_dist rx d'"
proof -
  have "8 \<le> popcount (golay24_encode d XOR golay24_encode d')"
    using assms by (rule golay24_distinct)
  also have "\<dots> \<le> golay24_dist rx d + golay24_dist rx d'"
    using popcount_dist_triangle [of "golay24_encode d" "golay24_encode d'" rx]
    by (simp add: golay24_dist_def xor.commute)
  finally show ?thesis .
qed

lemma golay24_received:
  assumes "d < 4096" and "e < 0x1000000"
  shows "(golay24_encode d XOR e) AND 0x00FFFFFF = golay24_encode d XOR e"
    and "golay24_dist (golay24_encode d XOR e) d = popcount e"
proof -
  have m: "(0x00FFFFFF :: u32) = mask 24" by (simp add: mask_eq_exp_minus_1)
  have "bit (golay24_encode d XOR e) n \<Longrightarrow> n < 24" for n
    using assms(2) golay24_encode_lt [of d] by (auto simp: word24_bits bit_xor_iff)
  then show "(golay24_encode d XOR e) AND 0x00FFFFFF = golay24_encode d XOR e"
    unfolding m by (intro bit_word_eqI) (auto simp: bit_and_iff bit_mask_iff)
qed (simp add: golay24_dist_def)

lemma golay24_corrects:
  assumes "d < 4096" and "e < 0x1000000" and "popcount e \<le> 3"
  shows "golay24_decode (golay24_encode d XOR e) = Inr (d, popcount e)"
proof -
  let ?rx = "golay24_encode d XOR e"
  obtain bd b where s: "golay24_search ?rx (map of_nat [0..<4096]) 25 0 = (bd, b)"
    by fastforce
  note dist = golay24_received(2) [OF assms(1,2)]
  have le: "bd \<le> popcount e"
    using golay24_search_best(2) [OF s] assms(1) dist mem_data12 [of d] by force
  then have b: "b < 4096" "golay24_dist ?rx b = bd"
    using golay24_search_best(3) [OF s] assms(3) mem_data12 [of b] by auto
  have "b = d"
    using golay24_dist_apart [OF assms(1) b(1), of ?rx] b(2) le dist assms(3) by force
  with b(2) dist have "bd = popcount e" by simp
  with \<open>b = d\<close> s assms(3) show ?thesis
    unfolding golay24_decode_def golay24_received(1) [OF assms(1,2)] by (simp add: Let_def)
qed

lemma golay24_detects_four:
  assumes "d < 4096" and "e < 0x1000000" and "popcount e = 4"
  shows "golay24_decode (golay24_encode d XOR e) = Inl 4"
proof -
  let ?rx = "golay24_encode d XOR e"
  obtain bd b where s: "golay24_search ?rx (map of_nat [0..<4096]) 25 0 = (bd, b)"
    by fastforce
  note dist = golay24_received(2) [OF assms(1,2)]
  have le: "bd \<le> 4"
    using golay24_search_best(2) [OF s] assms(1,3) dist mem_data12 [of d] by force
  then have b: "b < 4096" "golay24_dist ?rx b = bd"
    using golay24_search_best(3) [OF s] mem_data12 [of b] by auto
  have "4 \<le> bd"
    using golay24_dist_apart [OF assms(1) b(1), of ?rx] b(2) dist assms(3) by (cases "b = d") auto
  with le have "bd = 4" by simp
  with s show ?thesis
    unfolding golay24_decode_def golay24_received(1) [OF assms(1,2)] by (simp add: Let_def)
qed

text \<open>
  C24: For every 12-bit value and every 24-bit error pattern, decoding the corrupted code
  word returns the value and the number of flipped bits when at most three bits are
  flipped, and reports an uncorrectable word at distance four when exactly four are: a
  four-bit error is never mistaken for another value.
\<close>

theorem golay24_guarantee:
  assumes "d < 4096" and "e < 0x1000000"
  shows "(popcount e \<le> 3 \<longrightarrow> golay24_decode (golay24_encode d XOR e) = Inr (d, popcount e)) \<and>
    (popcount e = 4 \<longrightarrow> golay24_decode (golay24_encode d XOR e) = Inl 4)"
  using golay24_corrects [OF assms] golay24_detects_four [OF assms] by blast

theorem golay24_guarantee_witness:
  "golay24_decode (golay24_encode 215 XOR 0x801001) = Inr (215, 3) \<and>
   golay24_decode (golay24_encode 215 XOR 0x801003) = Inl 4"
proof -
  have p: "popcount (0x801001 :: u32) = 3" "popcount (0x801003 :: u32) = 4" by code_simp+
  show ?thesis
    using golay24_guarantee [of 215 "0x801001"] golay24_guarantee [of 215 "0x801003"] by (simp add: p)
qed

end
