(* ===== verification/Reed_Solomon.thy ===== *)
theory Reed_Solomon
  imports SSO_Prelude "HOL-Library.Signed_Division"
begin

text \<open>
  \<^verbatim>\<open>src/src/proto/rs.c\<close>: the CCSDS Reed-Solomon (255,223) code of the AX100 link, with
  its log and antilog tables, the systematic encoder, the complete decoder (syndromes,
  Berlekamp-Massey, Chien search, Forney) and the shortened variants that pad with zeros.
  Field elements are bytes, logarithms are integers as in the source; the table entry 255
  is the logarithm of zero. The theory shows that the tables are the powers of the
  generator of GF(256) under multiplication by \<open>\<alpha>\<close>, that every root of the generator
  polynomial annihilates an encoded block, and hence that decoding an encoded block
  returns it with no correction; and, for every input, which bytes the decoder may change.
\<close>

section \<open>Tables\<close>

definition ALPHA_TO :: "u8 list" where
  "ALPHA_TO =
    [0x01, 0x02, 0x04, 0x08, 0x10, 0x20, 0x40, 0x80, 0x87, 0x89, 0x95, 0xad, 0xdd, 0x3d, 0x7a, 0xf4,
     0x6f, 0xde, 0x3b, 0x76, 0xec, 0x5f, 0xbe, 0xfb, 0x71, 0xe2, 0x43, 0x86, 0x8b, 0x91, 0xa5, 0xcd,
     0x1d, 0x3a, 0x74, 0xe8, 0x57, 0xae, 0xdb, 0x31, 0x62, 0xc4, 0x0f, 0x1e, 0x3c, 0x78, 0xf0, 0x67,
     0xce, 0x1b, 0x36, 0x6c, 0xd8, 0x37, 0x6e, 0xdc, 0x3f, 0x7e, 0xfc, 0x7f, 0xfe, 0x7b, 0xf6, 0x6b,
     0xd6, 0x2b, 0x56, 0xac, 0xdf, 0x39, 0x72, 0xe4, 0x4f, 0x9e, 0xbb, 0xf1, 0x65, 0xca, 0x13, 0x26,
     0x4c, 0x98, 0xb7, 0xe9, 0x55, 0xaa, 0xd3, 0x21, 0x42, 0x84, 0x8f, 0x99, 0xb5, 0xed, 0x5d, 0xba,
     0xf3, 0x61, 0xc2, 0x03, 0x06, 0x0c, 0x18, 0x30, 0x60, 0xc0, 0x07, 0x0e, 0x1c, 0x38, 0x70, 0xe0,
     0x47, 0x8e, 0x9b, 0xb1, 0xe5, 0x4d, 0x9a, 0xb3, 0xe1, 0x45, 0x8a, 0x93, 0xa1, 0xc5, 0x0d, 0x1a,
     0x34, 0x68, 0xd0, 0x27, 0x4e, 0x9c, 0xbf, 0xf9, 0x75, 0xea, 0x53, 0xa6, 0xcb, 0x11, 0x22, 0x44,
     0x88, 0x97, 0xa9, 0xd5, 0x2d, 0x5a, 0xb4, 0xef, 0x59, 0xb2, 0xe3, 0x41, 0x82, 0x83, 0x81, 0x85,
     0x8d, 0x9d, 0xbd, 0xfd, 0x7d, 0xfa, 0x73, 0xe6, 0x4b, 0x96, 0xab, 0xd1, 0x25, 0x4a, 0x94, 0xaf,
     0xd9, 0x35, 0x6a, 0xd4, 0x2f, 0x5e, 0xbc, 0xff, 0x79, 0xf2, 0x63, 0xc6, 0x0b, 0x16, 0x2c, 0x58,
     0xb0, 0xe7, 0x49, 0x92, 0xa3, 0xc1, 0x05, 0x0a, 0x14, 0x28, 0x50, 0xa0, 0xc7, 0x09, 0x12, 0x24,
     0x48, 0x90, 0xa7, 0xc9, 0x15, 0x2a, 0x54, 0xa8, 0xd7, 0x29, 0x52, 0xa4, 0xcf, 0x19, 0x32, 0x64,
     0xc8, 0x17, 0x2e, 0x5c, 0xb8, 0xf7, 0x69, 0xd2, 0x23, 0x46, 0x8c, 0x9f, 0xb9, 0xf5, 0x6d, 0xda,
     0x33, 0x66, 0xcc, 0x1f, 0x3e, 0x7c, 0xf8, 0x77, 0xee, 0x5b, 0xb6, 0xeb, 0x51, 0xa2, 0xc3, 0x00]"

definition INDEX_OF :: "int list" where
  "INDEX_OF =
    [0xff, 0x00, 0x01, 0x63, 0x02, 0xc6, 0x64, 0x6a, 0x03, 0xcd, 0xc7, 0xbc, 0x65, 0x7e, 0x6b, 0x2a,
     0x04, 0x8d, 0xce, 0x4e, 0xc8, 0xd4, 0xbd, 0xe1, 0x66, 0xdd, 0x7f, 0x31, 0x6c, 0x20, 0x2b, 0xf3,
     0x05, 0x57, 0x8e, 0xe8, 0xcf, 0xac, 0x4f, 0x83, 0xc9, 0xd9, 0xd5, 0x41, 0xbe, 0x94, 0xe2, 0xb4,
     0x67, 0x27, 0xde, 0xf0, 0x80, 0xb1, 0x32, 0x35, 0x6d, 0x45, 0x21, 0x12, 0x2c, 0x0d, 0xf4, 0x38,
     0x06, 0x9b, 0x58, 0x1a, 0x8f, 0x79, 0xe9, 0x70, 0xd0, 0xc2, 0xad, 0xa8, 0x50, 0x75, 0x84, 0x48,
     0xca, 0xfc, 0xda, 0x8a, 0xd6, 0x54, 0x42, 0x24, 0xbf, 0x98, 0x95, 0xf9, 0xe3, 0x5e, 0xb5, 0x15,
     0x68, 0x61, 0x28, 0xba, 0xdf, 0x4c, 0xf1, 0x2f, 0x81, 0xe6, 0xb2, 0x3f, 0x33, 0xee, 0x36, 0x10,
     0x6e, 0x18, 0x46, 0xa6, 0x22, 0x88, 0x13, 0xf7, 0x2d, 0xb8, 0x0e, 0x3d, 0xf5, 0xa4, 0x39, 0x3b,
     0x07, 0x9e, 0x9c, 0x9d, 0x59, 0x9f, 0x1b, 0x08, 0x90, 0x09, 0x7a, 0x1c, 0xea, 0xa0, 0x71, 0x5a,
     0xd1, 0x1d, 0xc3, 0x7b, 0xae, 0x0a, 0xa9, 0x91, 0x51, 0x5b, 0x76, 0x72, 0x85, 0xa1, 0x49, 0xeb,
     0xcb, 0x7c, 0xfd, 0xc4, 0xdb, 0x1e, 0x8b, 0xd2, 0xd7, 0x92, 0x55, 0xaa, 0x43, 0x0b, 0x25, 0xaf,
     0xc0, 0x73, 0x99, 0x77, 0x96, 0x5c, 0xfa, 0x52, 0xe4, 0xec, 0x5f, 0x4a, 0xb6, 0xa2, 0x16, 0x86,
     0x69, 0xc5, 0x62, 0xfe, 0x29, 0x7d, 0xbb, 0xcc, 0xe0, 0xd3, 0x4d, 0x8c, 0xf2, 0x1f, 0x30, 0xdc,
     0x82, 0xab, 0xe7, 0x56, 0xb3, 0x93, 0x40, 0xd8, 0x34, 0xb0, 0xef, 0x26, 0x37, 0x0c, 0x11, 0x44,
     0x6f, 0x78, 0x19, 0x9a, 0x47, 0x74, 0xa7, 0xc1, 0x23, 0x53, 0x89, 0xfb, 0x14, 0x5d, 0xf8, 0x97,
     0x2e, 0x4b, 0xb9, 0x60, 0x0f, 0xed, 0x3e, 0xe5, 0xf6, 0x87, 0xa5, 0x17, 0x3a, 0xa3, 0x3c, 0xb7]"

definition GEN_POLY :: "int list" where
  "GEN_POLY =
    [0x00, 0xf9, 0x3b, 0x42, 0x04, 0x2b, 0x7e, 0xfb, 0x61, 0x1e, 0x03, 0xd5, 0x32, 0x42, 0xaa, 0x05,
     0x18, 0x05, 0xaa, 0x42, 0x32, 0xd5, 0x03, 0x1e, 0x61, 0xfb, 0x7e, 0x2b, 0x04, 0x42, 0x3b, 0xf9,
     0x00]"

abbreviation (input) "NN \<equiv> 255 :: nat"
abbreviation (input) "KK \<equiv> 223 :: nat"
abbreviation (input) "NROOTS \<equiv> 32 :: nat"
abbreviation (input) "FCR \<equiv> 112 :: int"
abbreviation (input) "PRIM \<equiv> 11 :: int"
abbreviation (input) "IPRIM \<equiv> 116 :: int"
abbreviation (input) "A0 \<equiv> 255 :: int"

text \<open>Table reads: \<open>ALPHA_TO[i]\<close> at a logarithm and \<open>INDEX_OF[x]\<close> at a byte.\<close>

definition alpha_to :: "int \<Rightarrow> u8" where
  "alpha_to i = ALPHA_TO ! nat i"

definition index_of :: "u8 \<Rightarrow> int" where
  "index_of x = INDEX_OF ! unat x"

definition modnn :: "int \<Rightarrow> int" where
  "modnn x = (let r = x smod 255 in if r < 0 then r + 255 else r)"

section \<open>Encoder\<close>

text \<open>
  One data byte through the feedback shift register: the feedback term is added to bytes
  1 to 31, the register moves one place and the last byte is filled in.
\<close>

definition rs_encode_step :: "u8 list \<Rightarrow> u8 \<Rightarrow> u8 list" where
  "rs_encode_step parity d =
     (let feedback = index_of (d XOR parity ! 0);
          fed = (if feedback \<noteq> A0
                 then parity ! 0 # map (\<lambda>j. parity ! j XOR
                        alpha_to (modnn (feedback + GEN_POLY ! (NROOTS - j)))) [1..<NROOTS]
                 else parity);
          shifted = tl fed
      in shifted @ [if feedback \<noteq> A0 then alpha_to (modnn (feedback + GEN_POLY ! 0)) else 0])"

definition rs_encode :: "u8 list \<Rightarrow> u8 list" where
  "rs_encode data_in = data_in @ foldl rs_encode_step (replicate NROOTS 0) data_in"

section \<open>Decoder\<close>

definition rs_syndrome_step :: "u8 list \<Rightarrow> u8 \<Rightarrow> u8 list" where
  "rs_syndrome_step syn b =
     map (\<lambda>i. if syn ! i = 0 then b
              else b XOR alpha_to (modnn (index_of (syn ! i) + (FCR + int i) * PRIM))) [0..<NROOTS]"

definition rs_syndromes :: "u8 list \<Rightarrow> u8 list" where
  "rs_syndromes block = foldl rs_syndrome_step (replicate NROOTS (block ! 0)) (tl block)"

text \<open>
  Berlekamp-Massey: one round at step \<open>r\<close> on the locator \<open>lambda\<close> (field elements), the
  auxiliary polynomial \<open>b\<close> (logarithms) and the length \<open>el\<close>; \<open>s\<close> holds the logarithms of
  the syndromes.
\<close>

definition rs_discrepancy :: "int list \<Rightarrow> u8 list \<Rightarrow> nat \<Rightarrow> u8" where
  "rs_discrepancy s lambda r =
     foldl (\<lambda>acc i. if lambda ! i \<noteq> 0 \<and> s ! (r - i - 1) \<noteq> A0
                    then acc XOR alpha_to (modnn (index_of (lambda ! i) + s ! (r - i - 1)))
                    else acc) 0 [0..<r]"

definition rs_bm_step ::
  "int list \<Rightarrow> u8 list \<times> int list \<times> nat \<Rightarrow> nat \<Rightarrow> u8 list \<times> int list \<times> nat" where
  "rs_bm_step s st r =
     (case st of (lambda, b, el) \<Rightarrow>
        let discrepancy = index_of (rs_discrepancy s lambda r) in
        if discrepancy = A0 then (lambda, A0 # butlast b, el)
        else
          let t = lambda ! 0 # map (\<lambda>i. if b ! i \<noteq> A0
                    then lambda ! (i + 1) XOR alpha_to (modnn (discrepancy + b ! i))
                    else lambda ! (i + 1)) [0..<NROOTS]
          in if 2 * el \<le> r - 1
             then (t, map (\<lambda>i. if lambda ! i = 0 then A0
                     else modnn (index_of (lambda ! i) - discrepancy + int NN)) [0..<NROOTS]
                     @ [b ! NROOTS], r - el)
             else (t, A0 # butlast b, el))"

definition rs_bm_init :: "u8 list \<times> int list \<times> nat" where
  "rs_bm_init = (let lambda = 1 # replicate NROOTS 0 in (lambda, map index_of lambda, 0))"

definition rs_berlekamp_massey :: "int list \<Rightarrow> u8 list" where
  "rs_berlekamp_massey s = fst (foldl (rs_bm_step s) rs_bm_init [1..<NROOTS + 1])"

text \<open>The degree of a polynomial in logarithm form: the last index that is not the log of zero.\<close>

definition rs_degree :: "int list \<Rightarrow> nat" where
  "rs_degree lidx = foldl (\<lambda>d i. if lidx ! i \<noteq> A0 then i else d) 0 [0..<length lidx]"

text \<open>
  Chien search: one evaluation point steps every register \<open>reg[j]\<close>, \<open>1 \<le> j \<le> deg\<close>, and
  sums; the loop stops at the last point or when as many roots as the degree are found.
\<close>

definition rs_chien_regs :: "nat \<Rightarrow> int list \<Rightarrow> int list" where
  "rs_chien_regs deg reg =
     map (\<lambda>j. if 1 \<le> j \<and> j \<le> deg \<and> reg ! j \<noteq> A0 then modnn (reg ! j + int j) else reg ! j)
       [0..<length reg]"

definition rs_chien_sum :: "nat \<Rightarrow> int list \<Rightarrow> u8" where
  "rs_chien_sum deg reg =
     foldl (\<lambda>q j. if reg ! j \<noteq> A0 then q XOR alpha_to (reg ! j) else q) 1 (rev [1..<deg + 1])"

fun rs_chien :: "nat \<Rightarrow> nat list \<Rightarrow> int \<Rightarrow> int list \<Rightarrow> (nat \<times> nat) list \<Rightarrow> (nat \<times> nat) list" where
  "rs_chien deg [] k reg found = found"
| "rs_chien deg (ii # iis) k reg found =
     (let reg' = rs_chien_regs deg reg;
          q = rs_chien_sum deg reg'
      in if q \<noteq> 0 then rs_chien deg iis (modnn (k + IPRIM)) reg' found
         else let found' = found @ [(ii, nat k)]
              in if length found' = deg then found'
                 else rs_chien deg iis (modnn (k + IPRIM)) reg' found')"

text \<open>The evaluator polynomial in logarithm form, entries 0 to 31.\<close>

definition rs_omega_coeff :: "int list \<Rightarrow> int list \<Rightarrow> nat \<Rightarrow> nat \<Rightarrow> u8" where
  "rs_omega_coeff s lidx deg_lambda i =
     foldl (\<lambda>tmp j. if s ! (i - j) \<noteq> A0 \<and> lidx ! j \<noteq> A0
                    then tmp XOR alpha_to (modnn (s ! (i - j) + lidx ! j)) else tmp)
       0 (rev [0..<min deg_lambda i + 1])"

definition rs_omega :: "int list \<Rightarrow> int list \<Rightarrow> nat \<Rightarrow> int list" where
  "rs_omega s lidx deg_lambda =
     map (\<lambda>i. index_of (rs_omega_coeff s lidx deg_lambda i)) [0..<NROOTS]"

text \<open>Forney: the numerator, the denominator and the correction at one root.\<close>

definition rs_forney_num1 :: "int list \<Rightarrow> nat \<Rightarrow> nat \<Rightarrow> u8" where
  "rs_forney_num1 omega deg_omega rt =
     foldl (\<lambda>acc i. if omega ! i \<noteq> A0 then acc XOR alpha_to (modnn (omega ! i + int (i * rt)))
                    else acc) 0 (rev [0..<deg_omega + 1])"

definition rs_forney_den :: "int list \<Rightarrow> nat \<Rightarrow> nat \<Rightarrow> u8" where
  "rs_forney_den lidx deg_lambda rt =
     foldl (\<lambda>acc i. if lidx ! (i + 1) \<noteq> A0
                    then acc XOR alpha_to (modnn (lidx ! (i + 1) + int (i * rt))) else acc)
       0 (rev (filter even [0..<min deg_lambda (NROOTS - 1) + 1]))"

fun rs_forney ::
  "int list \<Rightarrow> nat \<Rightarrow> int list \<Rightarrow> nat \<Rightarrow> (nat \<times> nat) list \<Rightarrow> u8 list \<Rightarrow> u8 list \<times> bool" where
  "rs_forney omega deg_omega lidx deg_lambda [] block = (block, True)"
| "rs_forney omega deg_omega lidx deg_lambda ((rt, loc) # rest) block =
     (let num1 = rs_forney_num1 omega deg_omega rt;
          num2 = alpha_to (modnn (int rt * (FCR - 1) + int NN));
          den = rs_forney_den lidx deg_lambda rt
      in if den = 0 then (block, False)
         else rs_forney omega deg_omega lidx deg_lambda rest
           (if num1 \<noteq> 0
            then block[loc := block ! loc XOR
                   alpha_to (modnn (index_of num1 + index_of num2 + int NN - index_of den))]
            else block))"

text \<open>
  The block after the call and, on success, the corrected positions in the order the Chien
  search found them (the return value is their number); \<open>None\<close> is the return value -1.
\<close>

definition rs_decode :: "u8 list \<Rightarrow> u8 list \<times> nat list option" where
  "rs_decode block =
     (let syn = rs_syndromes block;
          syn_error = foldl (OR) 0 syn;
          s = map index_of syn
      in if syn_error = 0 then (block, Some [])
         else
           let lidx = map index_of (rs_berlekamp_massey s);
               deg_lambda = rs_degree lidx;
               found = rs_chien deg_lambda [1..<NN + 1] (IPRIM - 1) lidx []
           in if deg_lambda \<noteq> length found then (block, None)
              else
                let omega = rs_omega s lidx deg_lambda;
                    deg_omega = rs_degree omega;
                    (block', ok) = rs_forney omega deg_omega lidx deg_lambda (rev found) block
                in (block', if ok then Some (map snd found) else None))"

section \<open>Shortened codewords\<close>

definition rs_pycsp_encode :: "u8 list \<Rightarrow> nat \<Rightarrow> u8 list option" where
  "rs_pycsp_encode inp out_cap =
     (if length inp > KK then None
      else if out_cap < length inp + NROOTS then None
      else let padding = KK - length inp
           in Some (drop padding (rs_encode (replicate padding 0 @ inp))))"

text \<open>
  The decoded data and the corrected positions, relative to the start of the input: a
  correction that fell into the padding is a negative offset.
\<close>

definition rs_pycsp_decode :: "u8 list \<Rightarrow> nat \<Rightarrow> (u8 list \<times> int list) option" where
  "rs_pycsp_decode inp out_cap =
     (if length inp \<le> NROOTS \<or> length inp > NN then None
      else let data_len = length inp - NROOTS
           in if out_cap < data_len then None
              else let padding = NN - length inp
                   in case rs_decode (replicate padding 0 @ inp) of
                        (buf, None) \<Rightarrow> None
                      | (buf, Some locs) \<Rightarrow>
                          Some (take data_len (drop padding buf), map (\<lambda>l. int l - int padding) locs))"

section \<open>The tables are the powers of \<alpha>\<close>

text \<open>Multiplication by \<open>\<alpha>\<close> in GF(256) with \<open>x^8 + x^7 + x^2 + x + 1\<close>, and by a power of it.\<close>

definition rs_mulx :: "u8 \<Rightarrow> u8" where
  "rs_mulx x = push_bit 1 x XOR (if bit x 7 then 0x87 else 0)"

definition rs_mulpow :: "nat \<Rightarrow> u8 \<Rightarrow> u8" where
  "rs_mulpow k = rs_mulx ^^ k"

lemma rs_mulx_xor: "rs_mulx (x XOR y) = rs_mulx x XOR rs_mulx y"
  by (rule bit_word_eqI) (auto simp: rs_mulx_def bit_simps)

lemma rs_mulpow_xor: "rs_mulpow k (x XOR y) = rs_mulpow k x XOR rs_mulpow k y"
  by (induction k) (simp_all add: rs_mulpow_def rs_mulx_xor)

lemma rs_mulpow_add: "rs_mulpow (j + k) x = rs_mulpow j (rs_mulpow k x)"
  by (simp add: rs_mulpow_def funpow_add)

lemma rs_mulpow_0 [simp]: "rs_mulpow 0 x = x"
  by (simp add: rs_mulpow_def)

interpretation mulpow: xor_linear "rs_mulpow k" for k
  by unfold_locales (rule rs_mulpow_xor)

lemma alpha_table_step: "map rs_mulx (take 254 ALPHA_TO) = take 254 (tl ALPHA_TO)"
  by code_simp

lemma alpha_table_ends: "hd ALPHA_TO = 1" "rs_mulx (ALPHA_TO ! 254) = 1" "length ALPHA_TO = 256" "ALPHA_TO ! 255 = 0"
  by code_simp+

lemma index_table: "map (\<lambda>i. ALPHA_TO ! nat i) (tl INDEX_OF) = map of_nat [1..<256]"
  by code_simp

lemma index_table_range: "list_all (\<lambda>i. 0 \<le> i \<and> i < 255) (tl INDEX_OF)"
  by code_simp

lemma index_table_ends: "hd INDEX_OF = 255" "length INDEX_OF = 256"
  by code_simp+

lemma gen_table_roots:
  "rs_syndromes (map alpha_to (rev (take 32 GEN_POLY))) = map (\<lambda>i. alpha_to (modnn (32 * ((112 + int i) * 11)))) [0..<32]"
  by code_simp

lemma alpha_nth: "i < 255 \<Longrightarrow> ALPHA_TO ! i = rs_mulpow i 1"
proof (induction i)
  case 0
  then show ?case using alpha_table_ends(1,3) by (metis hd_conv_nth list.size(3) rs_mulpow_0 zero_neq_numeral)
next
  case (Suc i)
  then have i: "i < 254" by simp
  have "ALPHA_TO ! Suc i = take 254 (tl ALPHA_TO) ! i"
    using i alpha_table_ends(3) by (simp add: nth_tl)
  also have "\<dots> = rs_mulx (ALPHA_TO ! i)"
    unfolding alpha_table_step [symmetric] using i alpha_table_ends(3) by simp
  finally show ?case using Suc by (simp add: rs_mulpow_def)
qed

lemma rs_mulpow_255 [simp]: "rs_mulpow 255 1 = 1"
  using alpha_nth [of 254] alpha_table_ends(2) rs_mulpow_add [of 1 254 1]
  by (simp add: rs_mulpow_def)

lemma rs_mulpow_mod: "rs_mulpow (k mod 255) 1 = rs_mulpow k 1"
proof -
  have period: "rs_mulpow (255 * n) 1 = 1" for n
    by (induction n) (simp_all add: rs_mulpow_add)
  have "rs_mulpow k 1 = rs_mulpow (k mod 255 + 255 * (k div 255)) 1" by simp
  also have "\<dots> = rs_mulpow (k mod 255) 1" by (simp only: rs_mulpow_add period)
  finally show ?thesis by simp
qed

lemma modnn_nonneg: "0 \<le> x \<Longrightarrow> modnn x = x mod 255"
  by (auto simp: modnn_def signed_modulo_int_def sgn_if Let_def not_less)

lemma modnn_range [simp]: "0 \<le> modnn x" "modnn x < 255"
proof -
  have "- 255 < x smod 255 \<and> x smod 255 < 255"
    using smod_int_compares [of x 255] by (cases "0 \<le> x") auto
  then show "0 \<le> modnn x" "modnn x < 255" by (auto simp: modnn_def Let_def)
qed

lemma alpha_to_modnn: "alpha_to (modnn (int k)) = rs_mulpow k 1"
proof -
  have "nat (int k mod 255) = k mod 255" by (simp add: nat_mod_distrib)
  then show ?thesis
    using alpha_nth [of "k mod 255"] by (simp add: alpha_to_def modnn_nonneg rs_mulpow_mod)
qed

lemma index_of_0 [simp]: "index_of 0 = 255"
  using index_table_ends by (metis hd_conv_nth index_of_def list.size(3) unat_0 zero_neq_numeral)

lemma index_of_nz:
  assumes "x \<noteq> 0"
  shows "0 \<le> index_of x" "index_of x < 255" "alpha_to (index_of x) = x"
proof -
  obtain n where n: "unat x = Suc n" using assms by (metis not0_implies_Suc unat_eq_zero)
  have n': "n < 255" using n unsigned_less [of x, where ?'a = nat] by simp
  have tl: "tl INDEX_OF ! n = index_of x" "n < length (tl INDEX_OF)"
    using n n' index_table_ends by (simp_all add: nth_tl index_of_def)
  show "0 \<le> index_of x" "index_of x < 255"
    using index_table_range tl by (auto simp: list_all_length)
  have "alpha_to (index_of x) = map (\<lambda>i. ALPHA_TO ! nat i) (tl INDEX_OF) ! n"
    using tl by (simp add: alpha_to_def)
  also have "\<dots> = of_nat (Suc n)" unfolding index_table using n' by simp
  also have "\<dots> = x" unfolding n [symmetric] by simp
  finally show "alpha_to (index_of x) = x" .
qed

lemma index_of_eq_A0 [simp]: "index_of x = 255 \<longleftrightarrow> x = 0"
  using index_of_nz(2) [of x] by (cases "x = 0") auto

lemma rs_mulpow_zero [simp]: "rs_mulpow k 0 = 0"
  by (rule mulpow.map_zero)

text \<open>A table product is a repeated multiplication by \<open>\<alpha>\<close>.\<close>

lemma alpha_to_index_add:
  assumes "x \<noteq> 0"
  shows "alpha_to (modnn (index_of x + int k)) = rs_mulpow k x"
proof -
  define i where "i = nat (index_of x)"
  have i: "index_of x = int i" "i < 255" using index_of_nz [OF assms] by (auto simp: i_def)
  have x: "x = rs_mulpow i 1"
    using index_of_nz(3) [OF assms] alpha_nth [OF i(2)] by (simp add: alpha_to_def i)
  have "alpha_to (modnn (index_of x + int k)) = rs_mulpow (k + i) 1"
    using alpha_to_modnn [of "k + i"] by (simp add: i add.commute)
  then show ?thesis by (simp add: rs_mulpow_add x)
qed

lemma rs_mulpow_commute: "rs_mulpow j (rs_mulpow k x) = rs_mulpow k (rs_mulpow j x)"
  by (metis add.commute rs_mulpow_add)

text \<open>Horner evaluation of a block at \<open>\<alpha>\<^bsup>k\<^esup>\<close>, its first byte the highest coefficient.\<close>

definition rs_eval :: "nat \<Rightarrow> u8 list \<Rightarrow> u8" where
  "rs_eval k block = foldl (\<lambda>s b. rs_mulpow k s XOR b) 0 block"

lemma rs_eval_Nil [simp]: "rs_eval k [] = 0"
  by (simp add: rs_eval_def)

lemma rs_eval_snoc: "rs_eval k (xs @ [b]) = rs_mulpow k (rs_eval k xs) XOR b"
  by (simp add: rs_eval_def)

lemma rs_eval_append:
  "rs_eval k (xs @ ys) = rs_mulpow (length ys * k) (rs_eval k xs) XOR rs_eval k ys"
proof (induction ys rule: rev_induct)
  case (snoc b ys)
  then show ?case
    by (simp add: rs_eval_snoc rs_mulpow_xor rs_mulpow_add xor.assoc flip: append_assoc)
qed simp

lemma rs_eval_xor:
  "length xs = length ys \<Longrightarrow> rs_eval k (map2 (XOR) xs ys) = rs_eval k xs XOR rs_eval k ys"
proof (induction xs ys rule: rev_induct2)
  case (4 x xs y ys)
  then show ?case by (simp add: rs_eval_snoc rs_mulpow_xor ac_simps)
qed auto

lemma rs_eval_mulpow: "rs_eval k (map (rs_mulpow i) xs) = rs_mulpow i (rs_eval k xs)"
  by (induction xs rule: rev_induct) (simp_all add: rs_eval_snoc rs_mulpow_xor rs_mulpow_commute)

abbreviation rs_root :: "nat \<Rightarrow> nat" where
  "rs_root i \<equiv> (112 + i) * 11"

lemma rs_syndrome_step_nth:
  "i < 32 \<Longrightarrow> rs_syndrome_step syn b ! i = rs_mulpow (rs_root i) (syn ! i) XOR b"
  using alpha_to_index_add [of "syn ! i" "rs_root i"]
  by (simp add: rs_syndrome_step_def xor.commute algebra_simps)

lemma rs_syndromes_nth:
  assumes "block \<noteq> []" "i < 32"
  shows "rs_syndromes block ! i = rs_eval (rs_root i) block"
proof -
  have *: "foldl rs_syndrome_step syn xs ! i = foldl (\<lambda>s b. rs_mulpow (rs_root i) s XOR b) (syn ! i) xs"
    for syn xs
    using assms(2) by (induction xs arbitrary: syn) (simp_all add: rs_syndrome_step_nth)
  show ?thesis using assms by (cases block) (simp_all add: rs_syndromes_def rs_eval_def *)
qed

lemma length_rs_syndromes [simp]: "length (rs_syndromes block) = 32"
proof -
  have "length syn = 32 \<Longrightarrow> length (foldl rs_syndrome_step syn xs) = 32" for syn xs
    by (induction xs arbitrary: syn) (simp_all add: rs_syndrome_step_def)
  then show ?thesis by (simp add: rs_syndromes_def)
qed

section \<open>Encoded blocks are annihilated by every root of the generator\<close>

lemma GEN_POLY_range: "list_all (\<lambda>g. 0 \<le> g) GEN_POLY" "length GEN_POLY = 33" "GEN_POLY ! 32 = 0"
  by (simp_all add: GEN_POLY_def)

lemma gen_nonneg: "m \<le> 32 \<Longrightarrow> GEN_POLY ! m = int (nat (GEN_POLY ! m))"
  using GEN_POLY_range(1,2) by (auto simp: list_all_length)

text \<open>The new register in closed form.\<close>

lemma rs_encode_step_eq:
  assumes "length p = 32"
  shows "rs_encode_step p d = map2 (XOR) (tl p @ [0])
           (map (\<lambda>j. rs_mulpow (nat (GEN_POLY ! (31 - j))) (d XOR p ! 0)) [0..<32])"
proof (rule nth_equalityI)
  show "length (rs_encode_step p d) = length (map2 (XOR) (tl p @ [0])
           (map (\<lambda>j. rs_mulpow (nat (GEN_POLY ! (31 - j))) (d XOR p ! 0)) [0..<32]))"
    using assms by (simp add: rs_encode_step_def Let_def)
next
  fix j assume "j < length (rs_encode_step p d)"
  then have j: "j < 32" using assms by (simp add: rs_encode_step_def Let_def split: if_splits)
  have prod: "f \<noteq> 0 \<Longrightarrow> m \<le> 32 \<Longrightarrow> alpha_to (modnn (index_of f + GEN_POLY ! m)) = rs_mulpow (nat (GEN_POLY ! m)) f"
    for f m using alpha_to_index_add [of f "nat (GEN_POLY ! m)"] gen_nonneg [of m] by simp
  show "rs_encode_step p d ! j = map2 (XOR) (tl p @ [0])
           (map (\<lambda>j. rs_mulpow (nat (GEN_POLY ! (31 - j))) (d XOR p ! 0)) [0..<32]) ! j"
    using assms j
    by (cases "d XOR p ! 0 = 0"; cases "j < 31")
       (auto simp: rs_encode_step_def Let_def nth_append nth_tl prod)
qed

lemma length_rs_encode_step: "length p = 32 \<Longrightarrow> length (rs_encode_step p d) = 32"
  by (simp add: rs_encode_step_eq)

text \<open>Every root of the generator: its lower coefficients sum to the leading one.\<close>

lemma rs_eval_gen:
  assumes "i < 32"
  shows "rs_eval (rs_root i) (map (\<lambda>j. rs_mulpow (nat (GEN_POLY ! (31 - j))) f) [0..<32])
       = rs_mulpow (32 * rs_root i) f"
proof -
  let ?k = "rs_root i"
  let ?g = "map (\<lambda>j. rs_mulpow (nat (GEN_POLY ! (31 - j))) 1) [0..<32]"
  have alpha: "m < 32 \<Longrightarrow> alpha_to (GEN_POLY ! m) = rs_mulpow (nat (GEN_POLY ! m)) 1" for m
  proof -
    assume "m < 32"
    then have "GEN_POLY ! m \<in> set GEN_POLY" by (simp add: GEN_POLY_range)
    then have "0 \<le> GEN_POLY ! m \<and> GEN_POLY ! m < 255" by (auto simp: GEN_POLY_def)
    then show ?thesis using alpha_nth [of "nat (GEN_POLY ! m)"]
      by (simp add: alpha_to_def nat_less_iff)
  qed
  have g: "map alpha_to (rev (take 32 GEN_POLY)) = ?g"
    by (rule nth_equalityI) (simp_all add: GEN_POLY_range rev_nth alpha)
  have "rs_eval ?k ?g = rs_syndromes ?g ! i"
    using assms by (subst rs_syndromes_nth) auto
  also have "\<dots> = rs_mulpow (32 * ?k) 1"
    using gen_table_roots alpha_to_modnn [of "32 * ?k"] assms by (simp add: g algebra_simps)
  finally have one: "rs_eval ?k ?g = rs_mulpow (32 * ?k) 1" .
  show ?thesis
  proof (cases "f = 0")
    case True
    have "rs_eval ?k (map (\<lambda>j. 0) xs) = 0" for xs :: "nat list"
      by (induction xs rule: rev_induct) (simp_all add: rs_eval_snoc)
    then show ?thesis by (simp add: True)
  next
    case False
    define n where "n = nat (index_of f)"
    have f: "f = rs_mulpow n 1"
      using index_of_nz [OF False] alpha_nth [of n] by (simp add: n_def alpha_to_def)
    have "map (\<lambda>j. rs_mulpow (nat (GEN_POLY ! (31 - j))) f) [0..<32] = map (rs_mulpow n) ?g"
      by (simp add: f rs_mulpow_commute)
    then show ?thesis using one by (simp only: rs_eval_mulpow) (simp add: f rs_mulpow_commute)
  qed
qed

lemma rs_eval_step:
  assumes "length p = 32" "i < 32"
  shows "rs_eval (rs_root i) (rs_encode_step p d)
       = rs_mulpow (rs_root i) (rs_eval (rs_root i) p) XOR rs_mulpow (32 * rs_root i) d"
proof -
  let ?k = "rs_root i"
  obtain p0 ps where p: "p = p0 # ps" "length ps = 31" using assms by (cases p) auto
  have "rs_eval ?k p = rs_mulpow (31 * ?k) p0 XOR rs_eval ?k ps"
    using rs_eval_append [of ?k "[p0]" ps] by (simp add: p rs_eval_def)
  then have "rs_mulpow ?k (rs_eval ?k p) = rs_mulpow (32 * ?k) p0 XOR rs_mulpow ?k (rs_eval ?k ps)"
    using rs_mulpow_add [of ?k "31 * ?k"] by (simp add: rs_mulpow_xor)
  then show ?thesis
    using assms rs_eval_gen [OF assms(2), of "d XOR p0"]
    by (simp add: rs_encode_step_eq rs_eval_xor rs_eval_snoc p rs_mulpow_xor ac_simps)
qed

lemma rs_parity_eval:
  assumes "i < 32"
  shows "length (foldl rs_encode_step (replicate 32 0) ds) = 32 \<and>
    rs_eval (rs_root i) (foldl rs_encode_step (replicate 32 0) ds)
      = rs_mulpow (32 * rs_root i) (rs_eval (rs_root i) ds)"
proof (induction ds rule: rev_induct)
  case Nil
  have "rs_eval k (replicate n 0) = 0" for k n
    by (induction n) (simp_all add: rs_eval_snoc replicate_append_same [symmetric])
  then show ?case by simp
next
  case (snoc d ds)
  then show ?case
    using rs_eval_step [OF _ assms, of "foldl rs_encode_step (replicate 32 0) ds" d]
    by (simp add: length_rs_encode_step rs_eval_snoc rs_mulpow_xor rs_mulpow_commute)
qed

lemma length_rs_encode: "length (rs_encode ds) = length ds + 32"
  using rs_parity_eval [of 0 ds] by (simp add: rs_encode_def)

lemma rs_encode_syndromes: "rs_syndromes (rs_encode ds) = replicate 32 0"
proof (rule nth_equalityI)
  fix i assume "i < length (rs_syndromes (rs_encode ds))"
  then have i: "i < 32" by simp
  have "rs_encode ds \<noteq> []" using length_rs_encode [of ds] by auto
  then show "rs_syndromes (rs_encode ds) ! i = replicate 32 0 ! i"
    using i rs_parity_eval [OF i, of ds]
    by (simp add: rs_syndromes_nth rs_encode_def rs_eval_append)
qed simp

lemma rs_decode_clean:
  assumes "rs_syndromes block = replicate 32 0"
  shows "rs_decode block = (block, Some [])"
proof -
  have "foldl (OR) 0 (replicate n (0::u8)) = 0" for n by (induction n) simp_all
  then show ?thesis by (simp only: rs_decode_def Let_def assms if_True simp_thms)
qed

text \<open>
  C25: Decoding an encoded block, for data of any content and length, reports no error and
  leaves the block unchanged: the 32 syndromes the decoder computes with its tables are all
  zero on the output of the shift-register encoder.
\<close>

theorem rs_decode_encode: "rs_decode (rs_encode ds) = (rs_encode ds, Some [])"
  by (rule rs_decode_clean [OF rs_encode_syndromes])

section \<open>Shortened codewords round trip\<close>

lemma rs_pycsp_encode_Some:
  "length inp \<le> 223 \<Longrightarrow> length inp + 32 \<le> out_cap \<Longrightarrow>
   rs_pycsp_encode inp out_cap = Some (drop (223 - length inp) (rs_encode (replicate (223 - length inp) 0 @ inp)))"
  by (simp add: rs_pycsp_encode_def Let_def)

lemma rs_pycsp_encode_length:
  "rs_pycsp_encode inp out_cap = Some cw \<Longrightarrow> length cw = length inp + 32 \<and> take (length inp) cw = inp"
  using length_rs_encode [of "replicate (223 - length inp) 0 @ inp"]
  by (auto simp: rs_pycsp_encode_def Let_def rs_encode_def split: if_splits)

lemma rs_pycsp_roundtrip:
  assumes "0 < length inp" "length inp \<le> 223" "length inp + 32 \<le> cap" "length inp \<le> cap'"
  shows "\<exists>cw. rs_pycsp_encode inp cap = Some cw \<and> length cw = length inp + 32 \<and> take (length inp) cw = inp \<and>
    rs_pycsp_decode cw cap' = Some (inp, [])"
proof -
  let ?pad = "replicate (223 - length inp) (0 :: u8)"
  let ?cw = "drop (223 - length inp) (rs_encode (?pad @ inp))"
  have enc: "rs_pycsp_encode inp cap = Some ?cw" using assms by (simp add: rs_pycsp_encode_Some)
  have len: "length ?cw = length inp + 32 \<and> take (length inp) ?cw = inp"
    using rs_pycsp_encode_length [OF enc] .
  have "?pad @ ?cw = rs_encode (?pad @ inp)" by (simp add: rs_encode_def)
  then have "rs_pycsp_decode ?cw cap' = Some (inp, [])"
    using assms len rs_decode_clean [OF rs_encode_syndromes, of "?pad @ inp"]
    by (simp add: rs_pycsp_decode_def Let_def)
  then show ?thesis using enc len by blast
qed

section \<open>What the decoder may change\<close>

lemma rs_degree_bound: "rs_degree lidx \<le> length lidx - 1"
proof -
  have "foldl (\<lambda>d i. if lidx ! i \<noteq> A0 then i else d) 0 [0..<n] \<le> n - 1" for n
    by (induction n) auto
  then show ?thesis by (simp add: rs_degree_def)
qed

lemma length_rs_berlekamp_massey: "length (rs_berlekamp_massey s) = 33"
proof -
  have step: "length (fst st) = 33 \<Longrightarrow> length (fst (rs_bm_step s st r)) = 33" for st r
    by (auto simp: rs_bm_step_def Let_def split: prod.splits)
  have "length (fst st) = 33 \<Longrightarrow> length (fst (foldl (rs_bm_step s) st rs)) = 33" for st rs
    by (induction rs arbitrary: st) (simp_all add: step)
  then show ?thesis by (simp add: rs_berlekamp_massey_def rs_bm_init_def)
qed

text \<open>
  The Chien search pairs the evaluation point \<open>ii\<close> with the position \<open>116 * ii - 1\<close> modulo
  255, and the search points are visited once each.
\<close>

definition rs_chien_loc :: "nat \<Rightarrow> int" where
  "rs_chien_loc ii = (116 * int ii - 1) mod 255"

lemma rs_chien_loc_Suc: "modnn (rs_chien_loc ii + 116) = rs_chien_loc (Suc ii)"
  by (simp add: rs_chien_loc_def modnn_nonneg mod_simps algebra_simps)

lemma rs_chien_loc_inj:
  assumes "rs_chien_loc i = rs_chien_loc j" "i \<in> {1..255}" "j \<in> {1..255}"
  shows "i = j"
proof -
  have "255 dvd 116 * (int i - int j)"
    using assms(1) by (simp add: rs_chien_loc_def mod_eq_dvd_iff algebra_simps)
  moreover have "coprime (255 :: int) 116" by (simp add: coprime_iff_gcd_eq_1 gcd_non_0_int)
  ultimately have "255 dvd (int i - int j)" using coprime_dvd_mult_right_iff by blast
  then obtain k where k: "int i - int j = 255 * k" by (auto simp: dvd_def)
  have "k < 1" "- 1 < k" using k assms(2,3) by simp_all
  then show ?thesis using k by simp
qed

lemma rs_chien_points:
  assumes "rs_chien deg [a..<b] (rs_chien_loc a) reg found = out" "a \<le> b"
    "sorted_wrt (<) (map fst found)" "\<forall>(i, l) \<in> set found. i < a \<and> 1 \<le> i \<and> l = nat (rs_chien_loc i)"
    "length found < deg \<or> (deg = 0 \<and> found = [])" "1 \<le> a"
  shows "sorted_wrt (<) (map fst out) \<and> (\<forall>(i, l) \<in> set out. i < b \<and> 1 \<le> i \<and> l = nat (rs_chien_loc i)) \<and>
    (deg > 0 \<longrightarrow> length out \<le> deg)"
  using assms
proof (induction "b - a" arbitrary: a reg found)
  case 0
  then show ?case by auto
next
  case (Suc n)
  then have ab: "a < b" by simp
  have ex: "[a..<b] = a # [Suc a..<b]" using ab by (simp add: upt_conv_Cons)
  let ?reg = "rs_chien_regs deg reg" and ?f = "found @ [(a, nat (rs_chien_loc a))]"
  have chien0: "rs_chien_sum 0 r = 1" for r by (simp add: rs_chien_sum_def)
  consider (no) "rs_chien_sum deg ?reg \<noteq> 0" | (stop) "rs_chien_sum deg ?reg = 0" "length ?f = deg"
    | (more) "rs_chien_sum deg ?reg = 0" "length ?f \<noteq> deg" by blast
  then show ?case
  proof cases
    case no
    then have "rs_chien deg [Suc a..<b] (rs_chien_loc (Suc a)) ?reg found = out"
      using Suc.prems(1) by (simp add: ex Let_def rs_chien_loc_Suc)
    then show ?thesis using Suc ab by (intro Suc.hyps(1) [of "Suc a" ?reg found]) auto
  next
    case stop
    then have "out = ?f" using Suc.prems(1) by (simp add: ex Let_def)
    then show ?thesis using Suc.prems ab stop by (fastforce simp: sorted_wrt_append)
  next
    case more
    then have "deg \<noteq> 0" using chien0 by (cases deg) auto
    moreover have "rs_chien deg [Suc a..<b] (rs_chien_loc (Suc a)) ?reg ?f = out"
      using Suc.prems(1) more by (simp add: ex Let_def rs_chien_loc_Suc)
    ultimately show ?thesis using Suc ab more
      by (intro Suc.hyps(1) [of "Suc a" ?reg ?f]) (fastforce simp: sorted_wrt_append)+
  qed
qed

lemma rs_forney_frame:
  "rs_forney om dg lidx dl fs block = (block', ok) \<Longrightarrow>
   length block' = length block \<and> (\<forall>i. i \<notin> snd ` set fs \<longrightarrow> block' ! i = block ! i)"
  by (induction om dg lidx dl fs block arbitrary: block' rule: rs_forney.induct)
     (auto simp: Let_def nth_list_update split: if_splits)

lemma rs_chien_locs:
  assumes "rs_chien deg [1..<256] 115 reg [] = found"
  shows "distinct (map snd found)" "\<forall>l \<in> set (map snd found). l < 255"
proof -
  have loc1: "rs_chien_loc (Suc 0) = 115" by (simp add: rs_chien_loc_def)
  have *: "sorted_wrt (<) (map fst found)" "\<forall>(i, l) \<in> set found. i < 256 \<and> 1 \<le> i \<and> l = nat (rs_chien_loc i)"
    using rs_chien_points [of deg 1 256 reg "[]" found] assms by (auto simp: loc1)
  have r: "0 \<le> rs_chien_loc i" "rs_chien_loc i < 255" for i by (simp_all add: rs_chien_loc_def)
  have "inj_on (\<lambda>i. nat (rs_chien_loc i)) (set (map fst found))"
    using *(2) r by (auto intro!: inj_onI rs_chien_loc_inj dest!: eq_nat_nat_iff [THEN iffD1, rotated 2])
  moreover have "map snd found = map (\<lambda>i. nat (rs_chien_loc i)) (map fst found)"
    using *(2) by auto
  moreover have "distinct (map fst found)" using *(1) by (simp add: strict_sorted_iff)
  ultimately show "distinct (map snd found)" by (metis distinct_map)
  show "\<forall>l \<in> set (map snd found). l < 255" using *(2) r by (auto simp: nat_less_iff)
qed

text \<open>
  C26: When the decoder reports success, it reports at most 32 positions, all of them
  inside the 255-byte block and no position twice (so the fixed arrays of the C code are
  never overrun), and every byte outside the reported positions is left as received.
\<close>

theorem rs_decode_frame:
  assumes "rs_decode block = (block', Some locs)"
  shows "length locs \<le> 32 \<and> distinct locs \<and> (\<forall>l \<in> set locs. l < 255) \<and>
    length block' = length block \<and> (\<forall>i. i \<notin> set locs \<longrightarrow> block' ! i = block ! i)"
proof (cases "foldl (OR) 0 (rs_syndromes block) = 0")
  case True
  then show ?thesis using assms by (simp add: rs_decode_def)
next
  case False
  let ?s = "map index_of (rs_syndromes block)"
  let ?lidx = "map index_of (rs_berlekamp_massey ?s)"
  let ?found = "rs_chien (rs_degree ?lidx) [1..<256] 115 ?lidx []"
  let ?om = "rs_omega ?s ?lidx (rs_degree ?lidx)"
  have deg: "rs_degree ?lidx \<le> 32"
    using rs_degree_bound [of ?lidx] by (simp add: length_rs_berlekamp_massey)
  have "rs_degree ?lidx = length ?found" "locs = map snd ?found"
    "rs_forney ?om (rs_degree ?om) ?lidx (rs_degree ?lidx) (rev ?found) block = (block', True)"
    using assms False by (simp_all add: rs_decode_def Let_def split: if_splits prod.splits)
  then show ?thesis
    using deg rs_chien_locs [OF refl, of "rs_degree ?lidx" ?lidx]
      rs_forney_frame [of ?om "rs_degree ?om" ?lidx "rs_degree ?lidx" "rev ?found" block block' True]
    by auto
qed

text \<open>A block of zeros with one corrupted byte is repaired at that byte.\<close>

lemma rs_decode_one_error:
  "rs_decode ((replicate 255 0) [254 := 5]) = (replicate 255 0, Some [254])"
  by code_simp

theorem rs_decode_frame_witness:
  "rs_decode ((replicate 255 0) [254 := 5]) = (replicate 255 0, Some [254]) \<and>
   length [254 :: nat] \<le> 32 \<and> distinct [254 :: nat] \<and>
   replicate 255 0 ! 7 = ((replicate 255 0) [254 := 5 :: u8]) ! 7"
  using rs_decode_frame [OF rs_decode_one_error] rs_decode_one_error by simp

end
