(* ===== verification/CSP.thy ===== *)
theory CSP
  imports SSO_Prelude
begin

text \<open>
  \<^verbatim>\<open>src/src/proto/csp.c\<close> and \<^verbatim>\<open>csp.h\<close>: the CSP v1 header, its 4-byte big-endian packing in
  front of a payload, and the CRC-32C trailer check value. The theory shows that a packet
  that encodes parses back to the same header and payload, which headers are refused, and
  that the CRC changes whenever up to four consecutive bytes of the data change.
\<close>

section \<open>Header and packet\<close>

record csp_v1_header =
  prio :: u8
  src :: u8
  dst :: u8
  dport :: u8
  sport :: u8
  flags :: u8

abbreviation (input) "CSP_PRIO_CRITICAL \<equiv> 0 :: u8"
abbreviation (input) "CSP_PRIO_HIGH \<equiv> 1 :: u8"
abbreviation (input) "CSP_PRIO_NORM \<equiv> 2 :: u8"
abbreviation (input) "CSP_PRIO_LOW \<equiv> 3 :: u8"
abbreviation (input) "CSP_FLAG_HMAC \<equiv> 0x08 :: u8"
abbreviation (input) "CSP_FLAG_XTEA \<equiv> 0x04 :: u8"
abbreviation (input) "CSP_FLAG_RDP \<equiv> 0x02 :: u8"
abbreviation (input) "CSP_FLAG_CRC \<equiv> 0x01 :: u8"

text \<open>The field widths the encoder insists on.\<close>

definition csp_v1_fits :: "csp_v1_header \<Rightarrow> bool" where
  "csp_v1_fits hdr \<longleftrightarrow> \<not> (prio hdr > 3 \<or> src hdr > 31 \<or> dst hdr > 31 \<or> dport hdr > 63 \<or> sport hdr > 63)"

definition csp_v1_word :: "csp_v1_header \<Rightarrow> u32" where
  "csp_v1_word hdr =
     push_bit 30 (ucast (prio hdr AND 0x03)) OR push_bit 25 (ucast (src hdr AND 0x1F)) OR
     push_bit 20 (ucast (dst hdr AND 0x1F)) OR push_bit 14 (ucast (dport hdr AND 0x3F)) OR
     push_bit 8 (ucast (sport hdr AND 0x3F)) OR ucast (flags hdr)"

text \<open>\<open>None\<close> is the return value -1; the written prefix of the buffer is the list.\<close>

definition csp_v1_encode :: "csp_v1_header \<Rightarrow> u8 list \<Rightarrow> nat \<Rightarrow> u8 list option" where
  "csp_v1_encode hdr payload out_buf_size =
     (if \<not> csp_v1_fits hdr then None
      else if out_buf_size < 4 + length payload then None
      else let h = csp_v1_word hdr in
        Some ([ucast (drop_bit 24 h AND 0xFF), ucast (drop_bit 16 h AND 0xFF),
               ucast (drop_bit 8 h AND 0xFF), ucast (h AND 0xFF)] @ payload))"

text \<open>The fields of a header word, and the header in the first four bytes of a packet.\<close>

definition csp_v1_fields :: "u32 \<Rightarrow> csp_v1_header" where
  "csp_v1_fields h =
     \<lparr>prio = ucast (drop_bit 30 h AND 0x03), src = ucast (drop_bit 25 h AND 0x1F),
      dst = ucast (drop_bit 20 h AND 0x1F), dport = ucast (drop_bit 14 h AND 0x3F),
      sport = ucast (drop_bit 8 h AND 0x3F), flags = ucast (h AND 0xFF)\<rparr>"

definition csp_v1_decode :: "u8 list \<Rightarrow> csp_v1_header" where
  "csp_v1_decode bytes =
     csp_v1_fields (push_bit 24 (ucast (bytes ! 0)) OR push_bit 16 (ucast (bytes ! 1)) OR
                    push_bit 8 (ucast (bytes ! 2)) OR ucast (bytes ! 3))"

section \<open>CRC-32C\<close>

definition csp_crc32c_bit :: "u32 \<Rightarrow> u32" where
  "csp_crc32c_bit crc = (let mask = - (crc AND 1) in drop_bit 1 crc XOR (0x82F63B78 AND mask))"

definition csp_crc32c_byte :: "u32 \<Rightarrow> u8 \<Rightarrow> u32" where
  "csp_crc32c_byte crc b = (csp_crc32c_bit ^^ 8) (crc XOR ucast b)"

definition csp_crc32c :: "u8 list \<Rightarrow> u32" where
  "csp_crc32c dat = foldl csp_crc32c_byte 0xFFFFFFFF dat XOR 0xFFFFFFFF"

section \<open>Round trip\<close>

lemma csp_v1_fields_word:
  assumes "csp_v1_fits hdr"
  shows "csp_v1_fields (csp_v1_word hdr) = hdr"
proof -
  have "unat (prio hdr) < 2 ^ 2" "unat (src hdr) < 2 ^ 5" "unat (dst hdr) < 2 ^ 5"
    "unat (dport hdr) < 2 ^ 6" "unat (sport hdr) < 2 ^ 6"
    using assms by (auto simp: csp_v1_fits_def word_less_nat_alt)
  then have f: "2 \<le> n \<Longrightarrow> \<not> bit (prio hdr) n" "5 \<le> n \<Longrightarrow> \<not> bit (src hdr) n"
    "5 \<le> n \<Longrightarrow> \<not> bit (dst hdr) n" "6 \<le> n \<Longrightarrow> \<not> bit (dport hdr) n" "6 \<le> n \<Longrightarrow> \<not> bit (sport hdr) n" for n
    unfolding unat_small_iff_bits by (auto simp flip: not_less)
  have f': "bit (prio hdr) n \<Longrightarrow> n < 2" "bit (src hdr) n \<Longrightarrow> n < 5" "bit (dst hdr) n \<Longrightarrow> n < 5"
    "bit (dport hdr) n \<Longrightarrow> n < 6" "bit (sport hdr) n \<Longrightarrow> n < 6" for n
    using f [of n] by (auto simp flip: not_less)
  note w = csp_v1_word_def mask_numerals
  have "ucast (drop_bit 30 (csp_v1_word hdr) AND 0x03) = take_bit 2 (prio hdr)"
    unfolding w by (rule bit_word_eqI) (auto simp: bit_simps f bit_u8_high)
  moreover have "ucast (drop_bit 25 (csp_v1_word hdr) AND 0x1F) = take_bit 5 (src hdr)"
    unfolding w by (rule bit_word_eqI) (auto simp: bit_simps f bit_u8_high)
  moreover have "ucast (drop_bit 20 (csp_v1_word hdr) AND 0x1F) = take_bit 5 (dst hdr)"
    unfolding w by (rule bit_word_eqI) (auto simp: bit_simps f bit_u8_high)
  moreover have "ucast (drop_bit 14 (csp_v1_word hdr) AND 0x3F) = take_bit 6 (dport hdr)"
    unfolding w by (rule bit_word_eqI) (auto simp: bit_simps f bit_u8_high)
  moreover have "ucast (drop_bit 8 (csp_v1_word hdr) AND 0x3F) = take_bit 6 (sport hdr)"
    unfolding w by (rule bit_word_eqI) (auto simp: bit_simps f bit_u8_high)
  moreover have "ucast (csp_v1_word hdr AND 0xFF) = flags hdr"
    unfolding w by (rule bit_word_eqI) (auto simp: bit_simps f bit_u8_high)
  moreover have "take_bit 2 (prio hdr) = prio hdr" "take_bit 5 (src hdr) = src hdr"
    "take_bit 5 (dst hdr) = dst hdr" "take_bit 6 (dport hdr) = dport hdr" "take_bit 6 (sport hdr) = sport hdr"
    by (auto intro!: bit_word_eqI simp: bit_simps dest: f')
  ultimately show ?thesis by (simp only: csp_v1_fields_def) simp
qed

lemma csp_v1_decode_Cons:
  "csp_v1_decode (a # b # c # d # rest) =
     csp_v1_fields (push_bit 24 (ucast a) OR push_bit 16 (ucast b) OR push_bit 8 (ucast c) OR ucast d)"
  by (simp add: csp_v1_decode_def)

lemma csp_v1_encode_Some:
  assumes "csp_v1_encode hdr payload n = Some pkt"
  shows "csp_v1_decode pkt = hdr" "drop 4 pkt = payload" "length pkt = 4 + length payload" "length pkt \<le> n"
proof -
  have fits: "csp_v1_fits hdr" "4 + length payload \<le> n"
    using assms by (auto simp: csp_v1_encode_def split: if_splits)
  let ?h = "csp_v1_word hdr"
  have pkt: "pkt = ucast (drop_bit 24 ?h AND 0xFF) # ucast (drop_bit 16 ?h AND 0xFF) #
      ucast (drop_bit 8 ?h AND 0xFF) # ucast (?h AND 0xFF) # payload"
    using assms by (simp add: csp_v1_encode_def Let_def split: if_splits)
  show "csp_v1_decode pkt = hdr"
    by (simp only: pkt csp_v1_decode_Cons be32_join csp_v1_fields_word [OF fits(1)])
  show "drop 4 pkt = payload" "length pkt = 4 + length payload" "length pkt \<le> n"
    using fits by (simp_all add: pkt)
qed

interpretation csp: codec "\<lambda>(hdr, payload). csp_v1_encode hdr payload n"
    "\<lambda>pkt. Some (csp_v1_decode pkt, drop 4 pkt)" for n
  by unfold_locales (auto dest: csp_v1_encode_Some)

text \<open>
  C27: Encoding succeeds exactly when every header field fits its width and the buffer has
  room, and then parsing the packet gives back the header and the payload; distinct
  packets therefore never have the same bytes.
\<close>

theorem csp_v1_roundtrip:
  "(csp_v1_encode hdr payload n = None \<longleftrightarrow> \<not> csp_v1_fits hdr \<or> n < 4 + length payload) \<and>
   (\<forall>pkt. csp_v1_encode hdr payload n = Some pkt \<longrightarrow>
      csp_v1_decode pkt = hdr \<and> drop 4 pkt = payload \<and> length pkt = 4 + length payload)"
proof
  show "csp_v1_encode hdr payload n = None \<longleftrightarrow> \<not> csp_v1_fits hdr \<or> n < 4 + length payload"
    by (auto simp: csp_v1_encode_def Let_def)
  show "\<forall>pkt. csp_v1_encode hdr payload n = Some pkt \<longrightarrow>
      csp_v1_decode pkt = hdr \<and> drop 4 pkt = payload \<and> length pkt = 4 + length payload"
    using csp.dec_enc [of n "(hdr, payload)"] csp_v1_encode_Some(3) by auto
qed

theorem csp_v1_roundtrip_witness:
  "csp_v1_decode [0x94, 0xA2, 0x9E, 0x08, 7] =
     \<lparr>prio = 2, src = 10, dst = 10, dport = 10, sport = 30, flags = 8\<rparr>"
proof -
  have "csp_v1_encode \<lparr>prio = 2, src = 10, dst = 10, dport = 10, sport = 30, flags = 8\<rparr> [7] 64
      = Some [0x94, 0xA2, 0x9E, 0x08, 7]"
    by code_simp
  then show ?thesis
    using csp_v1_roundtrip [of "\<lparr>prio = 2, src = 10, dst = 10, dport = 10, sport = 30, flags = 8\<rparr>" "[7]" 64]
    by simp
qed

section \<open>Error detection of the CRC\<close>

lemma csp_crc32c_bit_alt: "csp_crc32c_bit x = drop_bit 1 x XOR (if odd x then 0x82F63B78 else 0)"
  by (auto simp: csp_crc32c_bit_def Let_def and_one_eq odd_iff_mod_2_eq_one)

lemma csp_crc32c_bit_xor: "csp_crc32c_bit (x XOR y) = csp_crc32c_bit x XOR csp_crc32c_bit y"
  by (rule bit_word_eqI) (auto simp: csp_crc32c_bit_alt bit_simps even_xor_iff)

lemma csp_crc32c_bit_kernel: "csp_crc32c_bit x = 0 \<Longrightarrow> x = 0"
proof -
  assume *: "csp_crc32c_bit x = 0"
  have "\<not> bit (drop_bit 1 x) 31"
    by (auto simp: bit_simps dest: bit_imp_le_length)
  moreover have "bit (0x82F63B78 :: u32) 31" by simp
  ultimately have "odd x \<Longrightarrow> bit (csp_crc32c_bit x) 31"
    by (simp only: csp_crc32c_bit_alt if_True bit_xor_iff) simp
  then have "even x" using * by auto
  then have "drop_bit 1 x = 0" using * by (simp add: csp_crc32c_bit_alt)
  have "\<not> bit x n" for n
  proof (cases n)
    case (Suc m)
    have "bit (drop_bit 1 x) m = bit x n" by (simp add: Suc bit_drop_bit_eq)
    then show ?thesis using \<open>drop_bit 1 x = 0\<close> by (simp only:) simp
  qed (use \<open>even x\<close> in \<open>simp add: bit_0\<close>)
  then show "x = 0" by (intro bit_word_eqI) simp
qed

lemma csp_crc32c_bits_xor:
  "(csp_crc32c_bit ^^ n) (x XOR y) = (csp_crc32c_bit ^^ n) x XOR (csp_crc32c_bit ^^ n) y"
  by (induction n) (simp_all add: csp_crc32c_bit_xor)

lemma csp_crc32c_bits_kernel: "(csp_crc32c_bit ^^ n) x = 0 \<Longrightarrow> x = 0"
  by (induction n) (auto dest: csp_crc32c_bit_kernel)

interpretation crc: xor_injective "csp_crc32c_bit ^^ n" for n
  by unfold_locales (rule csp_crc32c_bits_xor, rule csp_crc32c_bits_kernel)

text \<open>As long as the low bits are clear the register only shifts.\<close>

lemma csp_crc32c_bits_shift:
  "(\<forall>k<n. \<not> bit y k) \<Longrightarrow> (csp_crc32c_bit ^^ n) y = drop_bit n y"
proof (induction n)
  case (Suc n)
  then have "even (drop_bit n y)" by (simp only: even_drop_bit_iff_not_bit) simp
  then show ?case using Suc by (simp add: csp_crc32c_bit_alt)
qed simp

text \<open>Two states that consume equally long data differ by a linear image of the differences.\<close>

fun crc_diff :: "u32 \<Rightarrow> u8 list \<Rightarrow> u32" where
  "crc_diff d [] = d"
| "crc_diff d (e # es) = crc_diff ((csp_crc32c_bit ^^ 8) (d XOR ucast e)) es"

lemma ucast_xor: "ucast (x XOR y) = (ucast x XOR ucast y :: u32)" for x y :: u8
  by (rule bit_word_eqI) (auto simp: bit_simps)

lemma foldl_crc_diff:
  "length xs = length ys \<Longrightarrow>
   foldl csp_crc32c_byte s xs XOR foldl csp_crc32c_byte t ys = crc_diff (s XOR t) (map2 (XOR) xs ys)"
proof (induction xs ys arbitrary: s t rule: list_induct2)
  case (Cons x xs y ys)
  then show ?case
    by (simp add: csp_crc32c_byte_def csp_crc32c_bits_xor ucast_xor ac_simps)
qed simp

lemma crc_diff_append: "crc_diff d (es @ fs) = crc_diff (crc_diff d es) fs"
  by (induction es arbitrary: d) simp_all

lemma crc_diff_zeros: "crc_diff d (replicate n 0) = (csp_crc32c_bit ^^ (8 * n)) d"
proof (induction n arbitrary: d)
  case (Suc n)
  then show ?case using funpow_add [of "8 * n" 8 csp_crc32c_bit] by (simp add: add.commute)
qed simp

text \<open>
  Four bytes consumed one by one act as one 32-bit word in the register, so a non-zero
  difference in them leaves a non-zero difference.
\<close>

lemma crc_diff_4:
  "crc_diff 0 [a, b, c, d] = (csp_crc32c_bit ^^ 32)
     (ucast a XOR push_bit 8 (ucast b) XOR push_bit 16 (ucast c) XOR push_bit 24 (ucast d))"
proof -
  have shift: "(csp_crc32c_bit ^^ n) (push_bit n (ucast x)) = ucast x" if "n \<le> 24" for n and x :: u8
  proof -
    have "(csp_crc32c_bit ^^ n) (push_bit n (ucast x)) = drop_bit n (push_bit n (ucast x))"
      by (rule csp_crc32c_bits_shift) (simp add: bit_simps)
    also have "\<dots> = ucast x"
      using that by (intro bit_word_eqI) (auto simp: bit_simps dest: bit_imp_le_length)
    finally show ?thesis .
  qed
  have join: "(csp_crc32c_bit ^^ 8) ((csp_crc32c_bit ^^ n) w) = (csp_crc32c_bit ^^ (n + 8)) w" for n w
    using funpow_add [of 8 n csp_crc32c_bit] by (simp add: add.commute)
  have s: "ucast b = (csp_crc32c_bit ^^ 8) (push_bit 8 (ucast b))"
    "ucast c = (csp_crc32c_bit ^^ 16) (push_bit 16 (ucast c))"
    "ucast d = (csp_crc32c_bit ^^ 24) (push_bit 24 (ucast d))"
    by (simp_all only: shift)
  have "crc_diff 0 [a, b, c, d] = (csp_crc32c_bit ^^ 8) ((csp_crc32c_bit ^^ 8)
     ((csp_crc32c_bit ^^ 8) ((csp_crc32c_bit ^^ 8) (ucast a) XOR ucast b) XOR ucast c) XOR ucast d)"
    by simp
  also have "\<dots> = (csp_crc32c_bit ^^ 32)
     (ucast a XOR push_bit 8 (ucast b) XOR push_bit 16 (ucast c) XOR push_bit 24 (ucast d))"
    by (subst s(1), subst s(2), subst s(3))
       (simp add: csp_crc32c_bits_xor join xor.assoc)
  finally show ?thesis .
qed

lemma crc_diff_4_eq_0:
  assumes "crc_diff 0 [a, b, c, d] = 0"
  shows "a = 0 \<and> b = 0 \<and> c = 0 \<and> d = 0"
proof -
  let ?w = "ucast a XOR push_bit 8 (ucast b) XOR push_bit 16 (ucast c) XOR push_bit 24 (ucast d) :: u32"
  have w: "?w = 0" using assms by (simp only: crc_diff_4 crc.kernel)
  have byte: "(\<And>n. n < 8 \<Longrightarrow> \<not> bit x n) \<Longrightarrow> x = 0" for x :: u8
    by (rule bit_word_eqI) simp
  have nb: "\<not> bit ?w n" for n by (simp only: w) simp
  have bits: "n < 8 \<Longrightarrow> bit ?w n = bit a n" "n < 8 \<Longrightarrow> bit ?w (8 + n) = bit b n"
    "n < 8 \<Longrightarrow> bit ?w (16 + n) = bit c n" "n < 8 \<Longrightarrow> bit ?w (24 + n) = bit d n" for n
    by (auto simp: bit_simps bit_u8_high)
  show ?thesis using nb bits by (metis byte)
qed

lemma crc_diff_cancel: "crc_diff 0 (es @ replicate n 0) = 0 \<Longrightarrow> crc_diff 0 es = 0"
  by (simp add: crc_diff_append crc_diff_zeros crc.kernel)

text \<open>
  C28: The CRC of a packet changes whenever up to four consecutive bytes of it are replaced
  by different bytes, wherever they stand: every burst that fits in 32 aligned bits is
  detected by the trailer check.
\<close>

theorem csp_crc32c_burst:
  assumes "length m = length m'" "length m \<le> 4" "m \<noteq> m'"
  shows "csp_crc32c (pre @ m @ post) \<noteq> csp_crc32c (pre @ m' @ post)"
proof
  assume eq: "csp_crc32c (pre @ m @ post) = csp_crc32c (pre @ m' @ post)"
  define s where "s = foldl csp_crc32c_byte 0xFFFFFFFF pre"
  define es where "es = map2 (XOR) m m'"
  have len: "length es \<le> 4" using assms by (simp add: es_def)
  have self: "map2 (XOR) post post = replicate (length post) 0"
    by (rule nth_equalityI) simp_all
  have "foldl csp_crc32c_byte s (m @ post) = foldl csp_crc32c_byte s (m' @ post)"
    using eq by (simp add: csp_crc32c_def s_def xor_cancel_iff) 
  then have "crc_diff 0 (es @ replicate (length post) 0) = 0"
    using foldl_crc_diff [of "m @ post" "m' @ post" s s] assms(1) self by (simp add: es_def)
  then have "crc_diff 0 es = 0" by (rule crc_diff_cancel)
  then have "crc_diff 0 (es @ replicate (4 - length es) 0) = 0"
    by (metis crc.map_zero crc_diff_append crc_diff_zeros)
  moreover obtain a b c d where abcd: "es @ replicate (4 - length es) 0 = [a, b, c, d]"
    using len list4_cases [of "es @ replicate (4 - length es) 0"] by auto
  ultimately have "set (es @ replicate (4 - length es) 0) \<subseteq> {0}"
    using crc_diff_4_eq_0 [of a b c d] by simp
  then have "\<forall>e \<in> set (map2 (XOR) m m'). e = 0" by (auto simp: es_def)
  with assms(1) have "m = m'"
    by (induction m m' rule: list_induct2) (auto simp: xor_zero_iff)
  then show False using assms(3) by simp
qed

theorem csp_crc32c_burst_witness:
  "csp_crc32c [1, 2, 3, 4, 5, 6] \<noteq> csp_crc32c [1, 9, 8, 7, 5, 6]"
  using csp_crc32c_burst [of "[2, 3, 4]" "[9, 8, 7]" "[1]" "[5, 6]"] by simp

end
