(* ===== verification/AX100.thy ===== *)
theory AX100
  imports Golay24 Reed_Solomon CSP
begin

text \<open>
  \<^verbatim>\<open>src/src/proto/ax100.c\<close>: the AX100 link frame. A packet gets an optional 4-byte HMAC
  trailer, an optional Reed-Solomon parity, the CCSDS scrambler, a Golay-protected length,
  the sync word and the fill bytes; the receiver undoes the stages and, when both
  Reed-Solomon and HMAC are on, searches every plausible length if the header is unusable.
  SHA-1 is OpenSSL's (\<^verbatim>\<open>EVP_Digest\<close>): a parameter \<open>sha1\<close> that returns the digest bytes or
  \<open>None\<close> when the library call fails. Byte ranges (pointer and length) are lists; the flag
  fields of the options are read as truth values, as the code reads them.
\<close>

section \<open>Options and tables\<close>

record ax100_opts =
  hmac_key :: "u8 list option"
  randomize :: bool
  reed_solomon :: bool
  len_field :: bool
  syncword :: bool
  prefill :: int
  tailfill :: int

definition CCSDS_SCRAMBLER_TABLE :: "u8 list" where
  "CCSDS_SCRAMBLER_TABLE =
    [0xFF, 0x48, 0x0E, 0xC0, 0x9A, 0x0D, 0x70, 0xBC, 0x8E, 0x2C, 0x93, 0xAD,
     0xA7, 0xB7, 0x46, 0xCE, 0x5A, 0x97, 0x7D, 0xCC, 0x32, 0xA2, 0xBF, 0x3E,
     0x0A, 0x10, 0xF1, 0x88, 0x94, 0xCD, 0xEA, 0xB1, 0xFE, 0x90, 0x1D, 0x81,
     0x34, 0x1A, 0xE1, 0x79, 0x1C, 0x59, 0x27, 0x5B, 0x4F, 0x6E, 0x8D, 0x9C,
     0xB5, 0x2E, 0xFB, 0x98, 0x65, 0x45, 0x7E, 0x7C, 0x14, 0x21, 0xE3, 0x11,
     0x29, 0x9B, 0xD5, 0x63, 0xFD, 0x20, 0x3B, 0x02, 0x68, 0x35, 0xC2, 0xF2,
     0x38, 0xB2, 0x4E, 0xB6, 0x9E, 0xDD, 0x1B, 0x39, 0x6A, 0x5D, 0xF7, 0x30,
     0xCA, 0x8A, 0xFC, 0xF8, 0x28, 0x43, 0xC6, 0x22, 0x53, 0x37, 0xAA, 0xC7,
     0xFA, 0x40, 0x76, 0x04, 0xD0, 0x6B, 0x85, 0xE4, 0x71, 0x64, 0x9D, 0x6D,
     0x3D, 0xBA, 0x36, 0x72, 0xD4, 0xBB, 0xEE, 0x61, 0x95, 0x15, 0xF9, 0xF0,
     0x50, 0x87, 0x8C, 0x44, 0xA6, 0x6F, 0x55, 0x8F, 0xF4, 0x80, 0xEC, 0x09,
     0xA0, 0xD7, 0x0B, 0xC8, 0xE2, 0xC9, 0x3A, 0xDA, 0x7B, 0x74, 0x6C, 0xE5,
     0xA9, 0x77, 0xDC, 0xC3, 0x2A, 0x2B, 0xF3, 0xE0, 0xA1, 0x0F, 0x18, 0x89,
     0x4C, 0xDE, 0xAB, 0x1F, 0xE9, 0x01, 0xD8, 0x13, 0x41, 0xAE, 0x17, 0x91,
     0xC5, 0x92, 0x75, 0xB4, 0xF6, 0xE8, 0xD9, 0xCB, 0x52, 0xEF, 0xB9, 0x86,
     0x54, 0x57, 0xE7, 0xC1, 0x42, 0x1E, 0x31, 0x12, 0x99, 0xBD, 0x56, 0x3F,
     0xD2, 0x03, 0xB0, 0x26, 0x83, 0x5C, 0x2F, 0x23, 0x8B, 0x24, 0xEB, 0x69,
     0xED, 0xD1, 0xB3, 0x96, 0xA5, 0xDF, 0x73, 0x0C, 0xA8, 0xAF, 0xCF, 0x82,
     0x84, 0x3C, 0x62, 0x25, 0x33, 0x7A, 0xAC, 0x7F, 0xA4, 0x07, 0x60, 0x4D,
     0x06, 0xB8, 0x5E, 0x47, 0x16, 0x49, 0xD6, 0xD3, 0xDB, 0xA3, 0x67, 0x2D,
     0x4B, 0xBE, 0xE6, 0x19, 0x51, 0x5F, 0x9F, 0x05, 0x08, 0x78, 0xC4, 0x4A,
     0x66, 0xF5, 0x58]"

definition AX100_ASM :: "u8 list" where
  "AX100_ASM = [0x93, 0x0B, 0x51, 0xDE]"

definition ax100_opts_defaults :: ax100_opts where
  "ax100_opts_defaults = \<lparr>hmac_key = None, randomize = True, reed_solomon = False,
     len_field = True, syncword = True, prefill = 32, tailfill = 1\<rparr>"

section \<open>HMAC trailer\<close>

type_synonym sha1_fun = "u8 list \<Rightarrow> u8 list option"

definition sha1_once :: "sha1_fun \<Rightarrow> u8 list \<Rightarrow> u8 list option" where
  "sha1_once sha1 dat = (case sha1 dat of None \<Rightarrow> None
     | Some md \<Rightarrow> if length md = 20 then Some md else None)"

definition sha1_two :: "sha1_fun \<Rightarrow> u8 list \<Rightarrow> u8 list \<Rightarrow> u8 list option" where
  "sha1_two sha1 a b = (case sha1 (a @ b) of None \<Rightarrow> None
     | Some md \<Rightarrow> if length md = 20 then Some md else None)"

definition ax100_hmac :: "sha1_fun \<Rightarrow> u8 list \<Rightarrow> u8 list \<Rightarrow> u8 list option" where
  "ax100_hmac sha1 key dat =
     (case sha1_once sha1 key of None \<Rightarrow> None
      | Some sha1_of_key \<Rightarrow>
          let rkey = take 16 sha1_of_key @ replicate 48 0;
              ipad = map (\<lambda>k. k XOR 0x36) rkey;
              opad = map (\<lambda>k. k XOR 0x5C) rkey
          in case sha1_two sha1 ipad dat of None \<Rightarrow> None
             | Some inner \<Rightarrow>
                 (case sha1_two sha1 opad inner of None \<Rightarrow> None
                  | Some outer \<Rightarrow> Some (take 4 outer)))"

section \<open>Framing\<close>

text \<open>The stages of \<^verbatim>\<open>ax100_frame\<close> in the order of the code.\<close>

definition ax100_size_ok :: "ax100_opts \<Rightarrow> nat \<Rightarrow> bool" where
  "ax100_size_ok opts packet_len =
     (let needed = packet_len + (if hmac_key opts \<noteq> None then 4 else 0)
      in if reed_solomon opts then \<not> needed > 223 \<and> \<not> needed + 32 > 4100
         else \<not> (needed > 4100 \<or> needed > 0x0FFF))"

definition ax100_add_hmac :: "sha1_fun \<Rightarrow> ax100_opts \<Rightarrow> u8 list \<Rightarrow> u8 list option" where
  "ax100_add_hmac sha1 opts inner =
     (case hmac_key opts of None \<Rightarrow> Some inner
      | Some key \<Rightarrow> map_option (\<lambda>mac. inner @ mac) (ax100_hmac sha1 key inner))"

definition ax100_add_rs :: "ax100_opts \<Rightarrow> u8 list \<Rightarrow> u8 list option" where
  "ax100_add_rs opts inner = (if reed_solomon opts then rs_pycsp_encode inner 255 else Some inner)"

definition ax100_scramble :: "ax100_opts \<Rightarrow> u8 list \<Rightarrow> u8 list" where
  "ax100_scramble opts inner =
     (if randomize opts
      then map (\<lambda>i. inner ! i XOR CCSDS_SCRAMBLER_TABLE ! (i mod 255)) [0..<length inner]
      else inner)"

definition ax100_len_header :: "nat \<Rightarrow> u8 list" where
  "ax100_len_header inner_len =
     (let g = golay24_encode (of_nat inner_len)
      in [ucast (drop_bit 16 g AND 0xFF), ucast (drop_bit 8 g AND 0xFF), ucast (g AND 0xFF)])"

definition ax100_wrap :: "ax100_opts \<Rightarrow> u8 list \<Rightarrow> nat \<Rightarrow> u8 list option" where
  "ax100_wrap opts inner out_buf_size =
     (let wrap_prefix = (if syncword opts then 4 else 0) + (if len_field opts then 3 else 0);
          total = nat (prefill opts) + wrap_prefix + length inner + nat (tailfill opts)
      in if total > out_buf_size then None
         else if len_field opts \<and> length inner > 0x0FFF then None
         else Some (replicate (nat (prefill opts)) 0xAA @
                    (if syncword opts then AX100_ASM else []) @
                    (if len_field opts then ax100_len_header (length inner) else []) @
                    inner @ replicate (nat (tailfill opts)) 0xAA))"

definition ax100_frame :: "sha1_fun \<Rightarrow> u8 list \<Rightarrow> ax100_opts \<Rightarrow> nat \<Rightarrow> u8 list option" where
  "ax100_frame sha1 packet opts out_buf_size =
     (if prefill opts < 0 \<or> tailfill opts < 0 then None
      else if \<not> ax100_size_ok opts (length packet) then None
      else case ax100_add_hmac sha1 opts packet of None \<Rightarrow> None
        | Some sealed \<Rightarrow>
            (case ax100_add_rs opts sealed of None \<Rightarrow> None
             | Some coded \<Rightarrow> ax100_wrap opts (ax100_scramble opts coded) out_buf_size))"

section \<open>Deframing\<close>

text \<open>
  One length hypothesis. The stages return the data with the Reed-Solomon diagnostics, and
  the packet with the HMAC diagnostic; the output parameters of \<^verbatim>\<open>ax100_try_length\<close> start at -1
  and keep that value where the code does not write them.
\<close>

definition ax100_strip_rs :: "ax100_opts \<Rightarrow> u8 list \<Rightarrow> (u8 list \<times> int \<times> int list) option" where
  "ax100_strip_rs opts inner =
     (if \<not> reed_solomon opts then Some (inner, -1, [])
      else if length inner \<le> 32 \<or> length inner > 255 then None
      else case rs_pycsp_decode inner 223 of None \<Rightarrow> None
        | Some (decoded, locs) \<Rightarrow> Some (decoded, int (length locs), locs))"

definition ax100_check_hmac :: "sha1_fun \<Rightarrow> ax100_opts \<Rightarrow> u8 list \<Rightarrow> u8 list option \<times> int" where
  "ax100_check_hmac sha1 opts inner =
     (case hmac_key opts of None \<Rightarrow> (Some inner, -1)
      | Some key \<Rightarrow>
          if length inner < 4 then (None, -1)
          else let n = length inner - 4
               in case ax100_hmac sha1 key (take n inner) of None \<Rightarrow> (None, -1)
                  | Some expected \<Rightarrow>
                      if expected = drop n inner then (Some (take n inner), 1) else (None, 0))"

record ax100_try =
  try_packet :: "u8 list option"
  try_hmac :: int
  try_rs :: int
  try_locs :: "int list"

definition ax100_try_length ::
  "sha1_fun \<Rightarrow> u8 list \<Rightarrow> nat \<Rightarrow> ax100_opts \<Rightarrow> nat \<Rightarrow> ax100_try" where
  "ax100_try_length sha1 scrambled on_wire_len opts out_packet_cap =
     (if on_wire_len > 4100 then \<lparr>try_packet = None, try_hmac = -1, try_rs = -1, try_locs = []\<rparr>
      else case ax100_strip_rs opts (ax100_scramble opts (take on_wire_len scrambled)) of
        None \<Rightarrow> \<lparr>try_packet = None, try_hmac = -1, try_rs = -1, try_locs = []\<rparr>
      | Some (inner, rs_errs, locs) \<Rightarrow>
          (case ax100_check_hmac sha1 opts inner of
             (None, hm) \<Rightarrow> \<lparr>try_packet = None, try_hmac = hm, try_rs = rs_errs, try_locs = locs\<rparr>
           | (Some packet, hm) \<Rightarrow>
               \<lparr>try_packet = (if length packet > out_packet_cap then None else Some packet),
                try_hmac = hm, try_rs = rs_errs, try_locs = locs\<rparr>))"

text \<open>The result of \<^verbatim>\<open>ax100_unframe\<close> with its optional outputs.\<close>

record ax100_result =
  out_packet :: "u8 list option"
  out_golay_errors :: nat
  out_hmac_ok :: int
  out_rs_errors :: int
  out_used_golay_len :: int

text \<open>The brute-force search over the remaining lengths, in increasing order.\<close>

fun ax100_search :: "sha1_fun \<Rightarrow> u8 list \<Rightarrow> ax100_opts \<Rightarrow> nat \<Rightarrow> nat option \<Rightarrow> nat list \<Rightarrow> ax100_try option" where
  "ax100_search sha1 scrambled opts cap tried [] = None"
| "ax100_search sha1 scrambled opts cap tried (L # Ls) =
     (if tried = Some L then ax100_search sha1 scrambled opts cap tried Ls
      else let r = ax100_try_length sha1 scrambled L opts cap
           in if try_packet r \<noteq> None then Some r
              else ax100_search sha1 scrambled opts cap tried Ls)"

text \<open>The three header bytes as a 24-bit word.\<close>

definition be24 :: "u8 \<Rightarrow> u8 \<Rightarrow> u8 \<Rightarrow> u32" where
  "be24 a b c = push_bit 16 (ucast a) OR push_bit 8 (ucast b) OR ucast c"

text \<open>
  Everything after the header: \<open>golay\<close> is the decoded length (\<open>None\<close> when the header was
  uncorrectable), \<open>scrambled\<close> the bytes that follow it.
\<close>

definition ax100_unframe_body ::
  "sha1_fun \<Rightarrow> u8 list \<Rightarrow> nat option \<Rightarrow> nat \<Rightarrow> ax100_opts \<Rightarrow> nat \<Rightarrow> ax100_result" where
  "ax100_unframe_body sha1 scrambled golay errs opts cap =
     (let avail = length scrambled;
          first = (case golay of
                     Some gl \<Rightarrow> if gl > 0 \<and> gl \<le> avail
                               then Some (ax100_try_length sha1 scrambled gl opts cap) else None
                   | None \<Rightarrow> None);
          hm = (case first of Some r \<Rightarrow> try_hmac r | None \<Rightarrow> -1);
          rs = (case first of Some r \<Rightarrow> try_rs r | None \<Rightarrow> -1);
          fail = \<lparr>out_packet = None, out_golay_errors = errs, out_hmac_ok = hm,
                  out_rs_errors = rs, out_used_golay_len = -1\<rparr>
      in case Option.bind first try_packet of
           Some p \<Rightarrow> \<lparr>out_packet = Some p, out_golay_errors = errs, out_hmac_ok = hm,
                      out_rs_errors = rs, out_used_golay_len = 1\<rparr>
         | None \<Rightarrow>
             if reed_solomon opts \<and> hmac_key opts \<noteq> None
             then case ax100_search sha1 scrambled opts cap golay [33..<min avail 255 + 1] of
                    Some r \<Rightarrow> \<lparr>out_packet = try_packet r, out_golay_errors = errs,
                               out_hmac_ok = try_hmac r, out_rs_errors = try_rs r,
                               out_used_golay_len = 0\<rparr>
                  | None \<Rightarrow> fail
             else fail)"

definition ax100_unframe :: "sha1_fun \<Rightarrow> u8 list \<Rightarrow> ax100_opts \<Rightarrow> nat \<Rightarrow> ax100_result" where
  "ax100_unframe sha1 bytes opts cap =
     (let reject = (\<lambda>errs. \<lparr>out_packet = None, out_golay_errors = errs, out_hmac_ok = -1,
                            out_rs_errors = -1, out_used_golay_len = -1\<rparr>)
      in if syncword opts \<and> (length bytes < 4 \<or> take 4 bytes \<noteq> AX100_ASM) then reject 0
         else
           let rest = (if syncword opts then drop 4 bytes else bytes)
           in if len_field opts
              then if length rest < 3 then reject 0
                   else case golay24_decode (be24 (rest ! 0) (rest ! 1) (rest ! 2)) of
                          Inr (decoded, errs) \<Rightarrow>
                            ax100_unframe_body sha1 (drop 3 rest) (Some (unat decoded)) errs opts cap
                        | Inl errs \<Rightarrow> ax100_unframe_body sha1 (drop 3 rest) None errs opts cap
              else ax100_unframe_body sha1 rest (Some (length rest)) 0 opts cap)"

section \<open>The stages are codecs\<close>

lemma length_scramble [simp]: "length (ax100_scramble opts x) = length x"
  by (simp add: ax100_scramble_def)

lemma scramble_scramble [simp]: "ax100_scramble opts (ax100_scramble opts x) = x"
proof (cases "randomize opts")
  case True
  then show ?thesis by (intro nth_equalityI) (simp_all add: ax100_scramble_def)
qed (simp add: ax100_scramble_def)

lemma length_ax100_hmac: "ax100_hmac sha1 key dat = Some mac \<Longrightarrow> length mac = 4"
  by (auto simp: ax100_hmac_def sha1_two_def Let_def split: option.splits if_splits)

lemma check_add_hmac:
  "ax100_add_hmac sha1 opts p = Some d \<Longrightarrow>
   ax100_check_hmac sha1 opts d = (Some p, if hmac_key opts = None then -1 else 1)"
  by (auto simp: ax100_add_hmac_def ax100_check_hmac_def length_ax100_hmac split: option.splits)

lemma length_add_hmac:
  "ax100_add_hmac sha1 opts p = Some d \<Longrightarrow> length d = length p + (if hmac_key opts = None then 0 else 4)"
  by (auto simp: ax100_add_hmac_def length_ax100_hmac split: option.splits)

lemma length_add_rs:
  "ax100_add_rs opts d = Some c \<Longrightarrow> length c = length d + (if reed_solomon opts then 32 else 0)"
  by (auto simp: ax100_add_rs_def dest: rs_pycsp_encode_length split: if_splits)

lemma strip_add_rs:
  assumes "ax100_add_rs opts d = Some c" and "d \<noteq> []"
  shows "ax100_strip_rs opts c = Some (d, if reed_solomon opts then 0 else -1, [])"
proof (cases "reed_solomon opts")
  case True
  then have enc: "rs_pycsp_encode d 255 = Some c" using assms by (simp add: ax100_add_rs_def)
  then have "length d \<le> 223" by (auto simp: rs_pycsp_encode_def split: if_splits)
  then have "rs_pycsp_decode c 223 = Some (d, [])" "length c = length d + 32"
    using rs_pycsp_roundtrip [of d 255 223] enc assms(2) by auto
  then show ?thesis using True assms(2) \<open>length d \<le> 223\<close> by (simp add: ax100_strip_rs_def)
qed (use assms in \<open>simp add: ax100_strip_rs_def ax100_add_rs_def\<close>)

text \<open>The three stages are codecs, and so is their chain.\<close>

interpretation hmac_stage: codec "ax100_add_hmac sha1 opts" "\<lambda>d. fst (ax100_check_hmac sha1 opts d)" for sha1 opts
  by unfold_locales (simp add: check_add_hmac)

interpretation rs_stage: codec "\<lambda>d. if d = [] then None else ax100_add_rs opts d"
    "\<lambda>c. map_option fst (ax100_strip_rs opts c)" for opts
  by unfold_locales (auto simp: strip_add_rs split: if_splits)

interpretation scramble_stage: codec "\<lambda>c. Some (ax100_scramble opts c)" "\<lambda>x. Some (ax100_scramble opts x)" for opts
  by unfold_locales auto

interpretation link: codec_chain "ax100_add_hmac sha1 opts" "\<lambda>d. fst (ax100_check_hmac sha1 opts d)"
    "\<lambda>d. if d = [] then None else ax100_add_rs opts d" "\<lambda>c. map_option fst (ax100_strip_rs opts c)" for sha1 opts
  by unfold_locales

text \<open>The receiver's attempt at the true length recovers the packet.\<close>

lemma try_true_length:
  assumes "ax100_add_hmac sha1 opts p = Some d" "d \<noteq> []" "ax100_add_rs opts d = Some c"
    "length c \<le> 4100" "length p \<le> cap"
  shows "ax100_try_length sha1 (ax100_scramble opts c @ rest) (length c) opts cap =
    \<lparr>try_packet = Some p, try_hmac = (if hmac_key opts = None then -1 else 1),
     try_rs = (if reed_solomon opts then 0 else -1), try_locs = []\<rparr>"
  using assms strip_add_rs [OF assms(3,2)] check_add_hmac [OF assms(1)]
  by (simp add: ax100_try_length_def)

lemma ax100_frame_parts:
  assumes "ax100_frame sha1 p opts n = Some f"
  obtains d c where "ax100_add_hmac sha1 opts p = Some d" "ax100_add_rs opts d = Some c"
    "length c \<le> 4095"
    "drop (nat (prefill opts)) f =
       (if syncword opts then AX100_ASM else []) @
       (if len_field opts then ax100_len_header (length c) else []) @
       ax100_scramble opts c @ replicate (nat (tailfill opts)) 0xAA"
proof -
  from assms obtain d c where dc: "ax100_add_hmac sha1 opts p = Some d" "ax100_add_rs opts d = Some c"
    and w: "ax100_wrap opts (ax100_scramble opts c) n = Some f" and size: "ax100_size_ok opts (length p)"
    by (auto simp: ax100_frame_def split: option.splits if_splits)
  have "length c \<le> 4095"
    using size length_add_hmac [OF dc(1)] length_add_rs [OF dc(2)]
    by (auto simp: ax100_size_ok_def Let_def split: if_splits)
  moreover have "drop (nat (prefill opts)) f =
       (if syncword opts then AX100_ASM else []) @
       (if len_field opts then ax100_len_header (length c) else []) @
       ax100_scramble opts c @ replicate (nat (tailfill opts)) 0xAA"
    using w by (auto simp: ax100_wrap_def Let_def split: if_splits)
  ultimately show ?thesis using that dc by blast
qed

lemma be24_xor: "be24 (a XOR a') (b XOR b') (c XOR c') = be24 a b c XOR be24 a' b' c'"
  by (rule bit_word_eqI) (auto simp: be24_def bit_simps bit_u8_high)

lemma bit_be24:
  "bit (be24 a b c) n \<longleftrightarrow> (if n < 8 then bit c n else if n < 16 then bit b (n - 8) else bit a (n - 16))"
proof (cases "n < 24")
  case False
  then show ?thesis by (auto simp: be24_def bit_simps bit_u8_high)
qed (auto simp: be24_def bit_simps bit_u8_high)

lemma be24_lt: "be24 a b c < 0x1000000"
  by (auto simp: word24_bits bit_be24 dest: bit_imp_le_length split: if_splits)

lemma be24_split:
  assumes "g < 0x1000000"
  shows "be24 (ucast (drop_bit 16 g AND 0xFF)) (ucast (drop_bit 8 g AND 0xFF)) (ucast (g AND 0xFF)) = g"
  using assms unfolding word24_bits mask_numerals
  by (intro bit_word_eqI) (auto simp: bit_be24 bit_simps)

lemma popcount_be24: "popcount (be24 a b c) = popcount a + popcount b + popcount c"
proof -
  let ?A = "(+) 16 ` {n. bit a n}" and ?B = "(+) 8 ` {n. bit b n}" and ?C = "{n. bit c n}"
  have fin: "finite {n. bit w n}" for w :: u8
    by (rule finite_subset [of _ "{..<8}"]) (auto dest: bit_imp_le_length)
  have low: "bit w n \<Longrightarrow> n < 8" for w :: u8 and n by (auto dest: bit_imp_le_length)
  have "{n. bit (be24 a b c) n} = ?A \<union> ?B \<union> ?C"
  proof (rule set_eqI)
    fix n
    show "n \<in> {n. bit (be24 a b c) n} \<longleftrightarrow> n \<in> ?A \<union> ?B \<union> ?C"
      using low [of a] low [of b] low [of c]
      by (cases "n < 8"; cases "n < 16") (force simp: bit_be24 image_iff)+
  qed
  moreover have "card (?A \<union> ?B \<union> ?C) = card ?A + card ?B + card ?C"
    using low [of a] low [of b] low [of c] fin
    by (subst card_Un_disjoint; (subst card_Un_disjoint)?) (fastforce intro!: finite_imageI)+
  moreover have "card ?A = card {n. bit a n}" "card ?B = card {n. bit b n}"
    by (auto intro!: card_image)
  ultimately show ?thesis by (simp only: popcount_bits)
qed

section \<open>Round trip, authenticity and rescue\<close>

lemma ax100_len_header_word:
  "be24 (ax100_len_header n ! 0) (ax100_len_header n ! 1) (ax100_len_header n ! 2) = golay24_encode (of_nat n)"
  "length (ax100_len_header n) = 3"
  by (simp_all add: ax100_len_header_def Let_def be24_split golay24_encode_lt)

lemma golay24_header:
  assumes "n \<le> 4095" "length errs = 3" "sum_list (map popcount errs) \<le> 3"
  shows "golay24_decode (be24 (ax100_len_header n ! 0 XOR errs ! 0) (ax100_len_header n ! 1 XOR errs ! 1)
      (ax100_len_header n ! 2 XOR errs ! 2)) = Inr (of_nat n, sum_list (map popcount errs))"
    (is "_ = Inr (_, ?k)")
proof -
  obtain a b c where e: "errs = [a, b, c]" using assms(2) by (auto simp: numeral_eq_Suc length_Suc_conv)
  have "of_nat n < (4096 :: u16)" using assms(1) by (simp add: word_less_nat_alt unat_of_nat)
  moreover have "popcount (be24 a b c) = ?k" by (simp add: e popcount_be24)
  ultimately show ?thesis
    using golay24_corrects [OF _ be24_lt, of "of_nat n" a b c] assms(3)
    by (simp only: be24_xor ax100_len_header_word) (simp add: e)
qed

lemma ax100_unframe_header:
  assumes "syncword opts" "len_field opts"
  shows "ax100_unframe sha1 (AX100_ASM @ [a, b, c] @ rest) opts cap =
    (case golay24_decode (be24 a b c) of
       Inr (decoded, errs) \<Rightarrow> ax100_unframe_body sha1 rest (Some (unat decoded)) errs opts cap
     | Inl errs \<Rightarrow> ax100_unframe_body sha1 rest None errs opts cap)"
  using assms by (simp add: ax100_unframe_def AX100_ASM_def Let_def split: sum.splits prod.splits)

lemma unframe_body_first:
  assumes "ax100_try_length sha1 scrambled gl opts cap = \<lparr>try_packet = Some p, try_hmac = hm, try_rs = rs, try_locs = locs\<rparr>"
    and "0 < gl" "gl \<le> length scrambled"
  shows "ax100_unframe_body sha1 scrambled (Some gl) errs opts cap =
    \<lparr>out_packet = Some p, out_golay_errors = errs, out_hmac_ok = hm, out_rs_errors = rs, out_used_golay_len = 1\<rparr>"
  using assms by (simp add: ax100_unframe_body_def)

lemma unframe_frame:
  assumes "ax100_frame sha1 packet opts n = Some frame"
    and "syncword opts" and "len_field opts"
    and "packet \<noteq> [] \<or> hmac_key opts \<noteq> None"
    and "length packet \<le> cap"
    and "length errs = 3" and "sum_list (map popcount errs) \<le> 3"
    and "bytes = drop (nat (prefill opts)) frame"
    and "received = take 4 bytes @ map2 (XOR) (take 3 (drop 4 bytes)) errs @ drop 7 bytes"
  shows "ax100_unframe sha1 received opts cap =
     \<lparr>out_packet = Some packet, out_golay_errors = sum_list (map popcount errs),
      out_hmac_ok = (if hmac_key opts = None then -1 else 1),
      out_rs_errors = (if reed_solomon opts then 0 else -1), out_used_golay_len = 1\<rparr>"
proof -
  obtain d c where d: "ax100_add_hmac sha1 opts packet = Some d" and c: "ax100_add_rs opts d = Some c"
    and len: "length c \<le> 4095"
    and bytes: "bytes = AX100_ASM @ ax100_len_header (length c) @ ax100_scramble opts c @
       replicate (nat (tailfill opts)) 0xAA"
    using assms(1-3,8) by (auto elim!: ax100_frame_parts)
  have "d \<noteq> []" using assms(4) length_add_hmac [OF d] by (cases d) (auto split: if_splits)
  then have "c \<noteq> []" using length_add_rs [OF c] by (cases c) auto
  define hdr where "hdr = map2 (XOR) (ax100_len_header (length c)) errs"
  obtain h0 h1 h2 where hdr: "hdr = [h0, h1, h2]"
    using assms(6) ax100_len_header_word(2) [of "length c"]
    by (auto simp: hdr_def numeral_eq_Suc length_Suc_conv)
  have nth: "hdr ! i = ax100_len_header (length c) ! i XOR errs ! i" if "i < 3" for i
    using assms(6) that ax100_len_header_word(2) [of "length c"] by (simp add: hdr_def)
  have recv: "received = AX100_ASM @ [h0, h1, h2] @ ax100_scramble opts c @ replicate (nat (tailfill opts)) 0xAA"
    using assms(9) ax100_len_header_word(2) [of "length c"]
    by (simp add: bytes AX100_ASM_def flip: hdr) (simp add: hdr_def)
  have "golay24_decode (be24 h0 h1 h2) = Inr (of_nat (length c), sum_list (map popcount errs))"
    using golay24_header [OF len assms(6,7)] nth [of 0] nth [of 1] nth [of 2] by (simp add: hdr)
  then have "ax100_unframe sha1 received opts cap =
      ax100_unframe_body sha1 (ax100_scramble opts c @ replicate (nat (tailfill opts)) 0xAA)
        (Some (length c)) (sum_list (map popcount errs)) opts cap"
    using len by (simp only: recv ax100_unframe_header [OF assms(2,3)]) (simp add: unat_of_nat)
  also have "\<dots> = \<lparr>out_packet = Some packet, out_golay_errors = sum_list (map popcount errs),
      out_hmac_ok = (if hmac_key opts = None then -1 else 1),
      out_rs_errors = (if reed_solomon opts then 0 else -1), out_used_golay_len = 1\<rparr>"
    using len \<open>c \<noteq> []\<close> by (subst unframe_body_first [OF try_true_length [OF d \<open>d \<noteq> []\<close> c _ assms(5)]]) auto
  finally show ?thesis .
qed

lemma check_hmac_Some:
  assumes "ax100_check_hmac sha1 opts inner = (Some p, hm)" "hmac_key opts = Some key"
  shows "hm = 1 \<and> (\<exists>mac. ax100_hmac sha1 key p = Some mac \<and> inner = p @ mac)"
  using assms by (fastforce simp: ax100_check_hmac_def Let_def split: option.splits if_splits)

lemma try_length_authentic:
  assumes "try_packet (ax100_try_length sha1 scrambled L opts cap) = Some p" "hmac_key opts = Some key"
  shows "try_hmac (ax100_try_length sha1 scrambled L opts cap) = 1 \<and> length p \<le> cap \<and>
    (\<exists>mac e l. ax100_hmac sha1 key p = Some mac \<and>
       ax100_strip_rs opts (ax100_scramble opts (take L scrambled)) = Some (p @ mac, e, l))"
proof -
  from assms(1) obtain inner e l hm where
    s: "ax100_strip_rs opts (ax100_scramble opts (take L scrambled)) = Some (inner, e, l)"
    and c: "ax100_check_hmac sha1 opts inner = (Some p, hm)" and n: "\<not> L > 4100" "length p \<le> cap"
    by (auto simp: ax100_try_length_def split: if_splits option.splits prod.splits)
  then show ?thesis
    using check_hmac_Some [OF c assms(2)] by (auto simp: ax100_try_length_def)
qed

lemma search_Some:
  "ax100_search sha1 scrambled opts cap tried Ls = Some r \<Longrightarrow>
   try_packet r \<noteq> None \<and> (\<exists>L \<in> set Ls. r = ax100_try_length sha1 scrambled L opts cap)"
  by (induction Ls) (auto simp: Let_def split: if_splits)

lemma search_finds:
  "L \<in> set Ls \<Longrightarrow> tried \<noteq> Some L \<Longrightarrow> try_packet (ax100_try_length sha1 scrambled L opts cap) \<noteq> None \<Longrightarrow>
   ax100_search sha1 scrambled opts cap tried Ls \<noteq> None"
  by (induction Ls) (auto simp: Let_def)

lemma unframe_body_cases:
  assumes "out_packet (ax100_unframe_body sha1 scrambled golay errs opts cap) = Some p"
  shows "\<exists>L r. r = ax100_try_length sha1 scrambled L opts cap \<and> try_packet r = Some p \<and>
    out_hmac_ok (ax100_unframe_body sha1 scrambled golay errs opts cap) = try_hmac r"
proof -
  let ?first = "case golay of Some gl \<Rightarrow> if gl > 0 \<and> gl \<le> length scrambled
      then Some (ax100_try_length sha1 scrambled gl opts cap) else None | None \<Rightarrow> None"
  show ?thesis
  proof (cases "Option.bind ?first try_packet")
    case None
    then obtain r where "ax100_search sha1 scrambled opts cap golay [33..<min (length scrambled) 255 + 1] = Some r"
      "reed_solomon opts \<and> hmac_key opts \<noteq> None" "try_packet r = Some p"
      using assms by (simp add: ax100_unframe_body_def Let_def split: if_splits option.splits)
    then show ?thesis
      using None search_Some by (fastforce simp: ax100_unframe_body_def Let_def)
  next
    case (Some q)
    then obtain gl where "golay = Some gl" "gl > 0 \<and> gl \<le> length scrambled"
      by (auto split: option.splits if_splits)
    then show ?thesis using Some assms by (auto simp: ax100_unframe_body_def Let_def)
  qed
qed

text \<open>Where the scrambled bytes start.\<close>

definition ax100_body_offset :: "ax100_opts \<Rightarrow> nat" where
  "ax100_body_offset opts = (if syncword opts then 4 else 0) + (if len_field opts then 3 else 0)"

lemma unframe_is_body:
  assumes "out_packet (ax100_unframe sha1 bytes opts cap) = Some p"
  obtains golay errs where "ax100_unframe sha1 bytes opts cap =
    ax100_unframe_body sha1 (drop (ax100_body_offset opts) bytes) golay errs opts cap"
  using assms that
  by (auto simp: ax100_unframe_def ax100_body_offset_def Let_def add.commute split: if_splits sum.splits prod.splits)

lemma unframe_body_recovers:
  assumes "reed_solomon opts" "hmac_key opts \<noteq> None" "33 \<le> L" "L \<le> 255" "L \<le> length scrambled"
    and "try_packet (ax100_try_length sha1 scrambled L opts cap) \<noteq> None"
  shows "out_packet (ax100_unframe_body sha1 scrambled golay errs opts cap) \<noteq> None"
proof (cases "golay = Some L")
  case True
  then show ?thesis using assms by (auto simp: ax100_unframe_body_def Let_def)
next
  case False
  have "L \<in> set [33..<min (length scrambled) 255 + 1]" using assms by auto
  from search_finds [OF this False assms(6)] obtain r where
    r: "ax100_search sha1 scrambled opts cap golay [33..<min (length scrambled) 255 + 1] = Some r" by auto
  then have "try_packet r \<noteq> None" using search_Some by blast
  then show ?thesis
    using assms(1,2) r by (auto simp: ax100_unframe_body_def Let_def split: option.splits)
qed

text \<open>A digest and an option set to run the link with, for the concrete instances below.\<close>

definition demo_sha1 :: sha1_fun where
  "demo_sha1 dat = Some (take 20 (rev dat @ replicate 20 0x55))"

definition demo_opts :: ax100_opts where
  "demo_opts = ax100_opts_defaults\<lparr>hmac_key := Some [0x6B, 0x65, 0x79], reed_solomon := True\<rparr>"

definition demo_packet :: "u8 list" where
  "demo_packet = [0x94, 0xA2, 0x9E, 0x08, 0x48, 0x69]"

lemma demo_opts_fields [simp]:
  "syncword demo_opts" "len_field demo_opts" "reed_solomon demo_opts"
  "hmac_key demo_opts = Some [0x6B, 0x65, 0x79]" "prefill demo_opts = 32"
  by (simp_all add: demo_opts_def ax100_opts_defaults_def)

lemma demo_frame: "\<exists>frame. ax100_frame demo_sha1 demo_packet demo_opts 4096 = Some frame"
proof -
  have "ax100_frame demo_sha1 demo_packet demo_opts 4096 \<noteq> None"
    by code_simp
  then show ?thesis by blast
qed

text \<open>
  C4: A framed packet is received unchanged, with its diagnostics (HMAC valid when a key is
  set, no Reed-Solomon correction), even when up to three bits of the 24-bit length header
  are flipped on the way; the number of flipped bits is what the receiver reports.
\<close>

theorem ax100_roundtrip:
  assumes "ax100_frame sha1 packet opts n = Some frame"
    and "syncword opts" and "len_field opts"
    and "packet \<noteq> [] \<or> hmac_key opts \<noteq> None"
    and "length packet \<le> cap"
    and "length errs = 3" and "sum_list (map popcount errs) \<le> 3"
    and "bytes = drop (nat (prefill opts)) frame"
    and "received = take 4 bytes @ map2 (XOR) (take 3 (drop 4 bytes)) errs @ drop 7 bytes"
  shows "ax100_unframe sha1 received opts cap =
     \<lparr>out_packet = Some packet, out_golay_errors = sum_list (map popcount errs),
      out_hmac_ok = (if hmac_key opts = None then -1 else 1),
      out_rs_errors = (if reed_solomon opts then 0 else -1), out_used_golay_len = 1\<rparr>"
  using assms by (rule unframe_frame)

theorem ax100_roundtrip_witness:
  "\<exists>frame bytes. ax100_frame demo_sha1 demo_packet demo_opts 4096 = Some frame \<and>
     bytes = drop 32 frame \<and>
     ax100_unframe demo_sha1 (take 4 bytes @ map2 (XOR) (take 3 (drop 4 bytes)) [0x80, 0, 0x11] @ drop 7 bytes)
       demo_opts 300
     = \<lparr>out_packet = Some demo_packet, out_golay_errors = 3, out_hmac_ok = 1, out_rs_errors = 0,
        out_used_golay_len = 1\<rparr>"
proof -
  obtain frame where f: "ax100_frame demo_sha1 demo_packet demo_opts 4096 = Some frame"
    using demo_frame by blast
  have e: "popcount (0x80 :: u8) = 1" "popcount (0x11 :: u8) = 2" by code_simp+
  have "length demo_packet \<le> 300" "demo_packet \<noteq> []" by (simp_all add: demo_packet_def)
  then show ?thesis
    using ax100_roundtrip [OF f, of 300 "[0x80, 0, 0x11]" "drop 32 frame"] f by (simp add: e)
qed

text \<open>
  C3: With a key, whatever bytes arrive: a packet is only accepted when the bytes carry it
  followed by its HMAC under the key (after descrambling and Reed-Solomon decoding of some
  length), the reported HMAC status is then 1, and the packet fits the caller's buffer.
\<close>

theorem ax100_authentic:
  assumes "out_packet (ax100_unframe sha1 bytes opts cap) = Some packet" "hmac_key opts = Some key"
  shows "out_hmac_ok (ax100_unframe sha1 bytes opts cap) = 1 \<and> length packet \<le> cap \<and>
    (\<exists>mac len errs locs. ax100_hmac sha1 key packet = Some mac \<and>
       ax100_strip_rs opts (ax100_scramble opts (take len (drop (ax100_body_offset opts) bytes)))
         = Some (packet @ mac, errs, locs))"
proof -
  obtain golay errs where b: "ax100_unframe sha1 bytes opts cap =
      ax100_unframe_body sha1 (drop (ax100_body_offset opts) bytes) golay errs opts cap"
    using unframe_is_body [OF assms(1)] .
  then obtain L where L: "try_packet (ax100_try_length sha1 (drop (ax100_body_offset opts) bytes) L opts cap) = Some packet"
    "out_hmac_ok (ax100_unframe sha1 bytes opts cap) =
       try_hmac (ax100_try_length sha1 (drop (ax100_body_offset opts) bytes) L opts cap)"
    using unframe_body_cases assms(1) by metis
  show ?thesis using try_length_authentic [OF L(1) assms(2)] L(2) by auto
qed

theorem ax100_authentic_witness:
  "\<exists>bytes. out_packet (ax100_unframe demo_sha1 bytes demo_opts 300) = Some demo_packet \<and>
     out_hmac_ok (ax100_unframe demo_sha1 bytes demo_opts 300) = 1 \<and>
     (\<exists>mac. ax100_hmac demo_sha1 [0x6B, 0x65, 0x79] demo_packet = Some mac)"
proof -
  obtain frame where f: "ax100_frame demo_sha1 demo_packet demo_opts 4096 = Some frame"
    using demo_frame by blast
  define bytes where "bytes = take 4 (drop 32 frame) @
    map2 (XOR) (take 3 (drop 4 (drop 32 frame))) [0, 0, 0] @ drop 7 (drop 32 frame)"
  have "popcount (0 :: u8) = 0" by simp
  then have "out_packet (ax100_unframe demo_sha1 bytes demo_opts 300) = Some demo_packet"
    using unframe_frame [OF f, of 300 "[0, 0, 0]" "drop 32 frame" bytes]
    by (simp add: bytes_def demo_packet_def)
  then show ?thesis
    using ax100_authentic [of demo_sha1 bytes demo_opts 300 demo_packet "[0x6B, 0x65, 0x79]"] by auto
qed



end
