(* ===== verification/C_String.thy ===== *)
theory C_String
  imports SSO_Prelude
begin

text \<open>
  The C library on strings, as the sources use it: NUL-terminated strings are character
  lists without the terminator, \<open>ctype.h\<close> is the C locale, \<open>snprintf\<close> keeps what fits before
  the terminator, \<open>fgets\<close> cuts a file at newlines or at the buffer size. Decimal printing
  and \<open>strtoll\<close> are inverse on the 64-bit range.
\<close>

section \<open>Characters\<close>

definition chr_code :: "char \<Rightarrow> nat" where
  "chr_code c = of_char c"

definition isdigit :: "char \<Rightarrow> bool" where
  "isdigit c \<longleftrightarrow> 48 \<le> chr_code c \<and> chr_code c \<le> 57"

definition isupper :: "char \<Rightarrow> bool" where
  "isupper c \<longleftrightarrow> 65 \<le> chr_code c \<and> chr_code c \<le> 90"

definition islower :: "char \<Rightarrow> bool" where
  "islower c \<longleftrightarrow> 97 \<le> chr_code c \<and> chr_code c \<le> 122"

definition isalnum :: "char \<Rightarrow> bool" where
  "isalnum c \<longleftrightarrow> isdigit c \<or> isupper c \<or> islower c"

definition isxdigit :: "char \<Rightarrow> bool" where
  "isxdigit c \<longleftrightarrow> isdigit c \<or> (65 \<le> chr_code c \<and> chr_code c \<le> 70) \<or> (97 \<le> chr_code c \<and> chr_code c \<le> 102)"

definition isprint :: "char \<Rightarrow> bool" where
  "isprint c \<longleftrightarrow> 32 \<le> chr_code c \<and> chr_code c \<le> 126"

definition isspace :: "char \<Rightarrow> bool" where
  "isspace c \<longleftrightarrow> chr_code c = 32 \<or> (9 \<le> chr_code c \<and> chr_code c \<le> 13)"

text \<open>Space or tab, and the four characters the trimming loops remove.\<close>

definition isblank :: "char \<Rightarrow> bool" where
  "isblank c \<longleftrightarrow> c = CHR '' '' \<or> c = CHR 0x09"

definition istrim :: "char \<Rightarrow> bool" where
  "istrim c \<longleftrightarrow> c = CHR '' '' \<or> c = CHR 0x09 \<or> c = CHR 0x0D \<or> c = CHR 0x0A"

section \<open>Comparison, search and truncation\<close>

text \<open>\<open>strncmp (s, p, strlen p) == 0\<close>, \<open>strstr\<close> as a test, \<open>snprintf (buf, cap, "%s", s)\<close>.\<close>

definition has_prefix :: "string \<Rightarrow> string \<Rightarrow> bool" where
  "has_prefix p s \<longleftrightarrow> take (length p) s = p"

fun has_substr :: "string \<Rightarrow> string \<Rightarrow> bool" where
  "has_substr p [] = (p = [])"
| "has_substr p (c # cs) = (has_prefix p (c # cs) \<or> has_substr p cs)"

definition snprintf :: "nat \<Rightarrow> string \<Rightarrow> string" where
  "snprintf cap s = take (cap - 1) s"

text \<open>A string in single quotes, for messages.\<close>

definition quoted :: "string \<Rightarrow> string" where
  "quoted s = CHR 0x27 # s @ [CHR 0x27]"

definition trim :: "string \<Rightarrow> string" where
  "trim s = rev (dropWhile istrim (rev (dropWhile istrim s)))"

lemma has_prefix_append [simp]: "has_prefix p (p @ s)"
  by (simp add: has_prefix_def)

lemma has_prefix_iff: "has_prefix p s \<longleftrightarrow> (\<exists>t. s = p @ t)"
  by (metis append_eq_conv_conj append_take_drop_id has_prefix_def)

lemma has_substr_iff: "has_substr p s \<longleftrightarrow> (\<exists>a b. s = a @ p @ b)"
proof (induction s)
  case (Cons c cs)
  show ?case
  proof
    assume "has_substr p (c # cs)"
    then show "\<exists>a b. c # cs = a @ p @ b"
      using Cons by (metis append.left_neutral append_Cons has_prefix_iff has_substr.simps(2))
  next
    assume "\<exists>a b. c # cs = a @ p @ b"
    then obtain a b where "c # cs = a @ p @ b" by blast
    then have "has_prefix p (c # cs) \<or> has_substr p cs"
      using Cons by (cases a) (auto simp: has_prefix_iff)
    then show "has_substr p (c # cs)" by simp
  qed
qed simp

lemma length_snprintf: "0 < cap \<Longrightarrow> length (snprintf cap s) < cap"
  by (auto simp: snprintf_def min_def)

section \<open>Decimal numbers\<close>

definition digit_char :: "nat \<Rightarrow> char" where
  "digit_char d = char_of (48 + d)"

fun show_nat :: "nat \<Rightarrow> string" where
  "show_nat n = (if n < 10 then [digit_char n] else show_nat (n div 10) @ [digit_char (n mod 10)])"

declare show_nat.simps [simp del]

definition show_int :: "int \<Rightarrow> string" where
  "show_int i = (if i < 0 then CHR ''-'' # show_nat (nat (- i)) else show_nat (nat i))"

definition dec_value :: "string \<Rightarrow> nat" where
  "dec_value ds = foldl (\<lambda>a c. 10 * a + (chr_code c - 48)) 0 ds"

text \<open>\<open>strtoll (s, NULL, 10)\<close> on an optional sign and digits: out-of-range values saturate.\<close>

definition LLONG_MAX :: int where "LLONG_MAX = 9223372036854775807"
definition LLONG_MIN :: int where "LLONG_MIN = -9223372036854775808"

definition strtoll :: "string \<Rightarrow> int" where
  "strtoll s =
     (let neg = (s \<noteq> [] \<and> hd s = CHR ''-'');
          ds = takeWhile isdigit (if s \<noteq> [] \<and> hd s \<in> {CHR ''-'', CHR ''+''} then tl s else s);
          v = (if neg then - int (dec_value ds) else int (dec_value ds))
      in min LLONG_MAX (max LLONG_MIN v))"

lemma chr_code_digit [simp]: "d < 10 \<Longrightarrow> chr_code (digit_char d) = 48 + d"
  by (simp add: chr_code_def digit_char_def)

lemma isdigit_digit_char [simp]: "d < 10 \<Longrightarrow> isdigit (digit_char d)"
  by (simp add: isdigit_def)

lemma show_nat_digits: "c \<in> set (show_nat n) \<Longrightarrow> isdigit c"
proof (induction n rule: show_nat.induct)
  case (1 n)
  then show ?case by (subst (asm) (2) show_nat.simps) (auto split: if_splits)
qed

lemma show_nat_ne [simp]: "show_nat n \<noteq> []"
  by (subst show_nat.simps) simp

lemma dec_value_show [simp]: "dec_value (show_nat n) = n"
proof (induction n rule: show_nat.induct)
  case (1 n)
  then show ?case by (subst show_nat.simps) (auto simp: dec_value_def)
qed

lemma length_show_nat: "n < 10 ^ k \<Longrightarrow> 0 < k \<Longrightarrow> length (show_nat n) \<le> k"
proof (induction k arbitrary: n)
  case (Suc k)
  then show ?case
  proof (cases "n < 10")
    case False
    then have "0 < k" using Suc.prems by (cases k) auto
    moreover have "n div 10 < 10 ^ k" using Suc.prems by (simp add: less_mult_imp_div_less mult.commute)
    ultimately show ?thesis using Suc.IH [of "n div 10"] False by (subst show_nat.simps) simp
  qed (subst show_nat.simps, simp)
qed simp

lemma isdigit_not_sign: "isdigit c \<Longrightarrow> c \<noteq> CHR ''-'' \<and> c \<noteq> CHR ''+''"
  by (auto simp: isdigit_def chr_code_def)

lemma show_nat_hd: "isdigit (hd (show_nat n))"
  using show_nat_digits [OF hd_in_set [OF show_nat_ne]] .

lemma takeWhile_digits:
  "rest = [] \<or> \<not> isdigit (hd rest) \<Longrightarrow> takeWhile isdigit (show_nat n @ rest) = show_nat n"
  using show_nat_digits by (cases rest) (auto simp: takeWhile_append2)

text \<open>Printing with \<^verbatim>\<open>%lld\<close> and reading back.\<close>

lemma strtoll_show_int:
  assumes "LLONG_MIN \<le> i" and "i \<le> LLONG_MAX"
  shows "strtoll (show_int i) = i"
proof (cases "i < 0")
  case True
  then show ?thesis
    using assms takeWhile_digits [of "[]" "nat (- i)"]
    by (simp add: strtoll_def show_int_def del: takeWhile_eq_all_conv)
next
  case False
  then show ?thesis
    using assms takeWhile_digits [of "[]" "nat i"] isdigit_not_sign [OF show_nat_hd, of "nat i"]
    by (simp add: strtoll_def show_int_def del: takeWhile_eq_all_conv)
qed

text \<open>Evaluation works on binary integers.\<close>

function show_digits :: "int \<Rightarrow> string" where
  "show_digits i = (if i < 10 then [digit_char (nat i)] else show_digits (i div 10) @ [digit_char (nat (i mod 10))])"
  by pat_completeness auto
termination
  by (relation "measure nat") auto

declare show_digits.simps [simp del]

lemma show_digits_int: "show_digits (int n) = show_nat n"
proof (induction n rule: show_nat.induct)
  case (1 n)
  have "int n div 10 = int (n div 10)" "nat (int n mod 10) = n mod 10"
    by (simp_all add: zdiv_int nat_mod_distrib)
  then show ?case
    using 1 by (subst show_nat.simps, subst show_digits.simps) auto
qed

lemma show_int_code [code]:
  "show_int i = (if i < 0 then CHR ''-'' # show_digits (- i) else show_digits i)"
  using show_digits_int [of "nat i"] show_digits_int [of "nat (- i)"] by (auto simp: show_int_def)

lemma dec_value_int: "int (foldl (\<lambda>a c. 10 * a + (chr_code c - 48)) n ds) =
    foldl (\<lambda>a c. 10 * a + int (chr_code c - 48)) (int n) ds"
  by (induction ds arbitrary: n) simp_all

lemma strtoll_code [code]:
  "strtoll s =
     (let neg = (s \<noteq> [] \<and> hd s = CHR ''-'');
          ds = takeWhile isdigit (if s \<noteq> [] \<and> hd s \<in> {CHR ''-'', CHR ''+''} then tl s else s);
          m = foldl (\<lambda>a c. 10 * a + int (chr_code c - 48)) 0 ds;
          v = (if neg then - m else m)
      in min LLONG_MAX (max LLONG_MIN v))"
  using dec_value_int [of 0] by (simp add: strtoll_def Let_def dec_value_def)

section \<open>Reading a file line by line\<close>

text \<open>
  The successive results of \<^verbatim>\<open>fgets (line, cap, f)\<close> on a file: a chunk ends after a newline,
  when the buffer is full, or at the end of the file.
\<close>

fun fgets_go :: "nat \<Rightarrow> string \<Rightarrow> string \<Rightarrow> string list" where
  "fgets_go k cur [] = (if cur = [] then [] else [cur])"
| "fgets_go k cur (c # cs) =
     (let cur' = cur @ [c]
      in if c = CHR 0x0A \<or> k \<le> length cur' then cur' # fgets_go k [] cs else fgets_go k cur' cs)"

definition fgets_lines :: "nat \<Rightarrow> string \<Rightarrow> string list" where
  "fgets_lines cap contents = fgets_go (cap - 1) [] contents"

lemma concat_fgets_go: "concat (fgets_go k cur s) = cur @ s"
  by (induction k cur s rule: fgets_go.induct) (simp_all add: Let_def)

lemma fgets_go_bound:
  "length cur < k \<Longrightarrow> l \<in> set (fgets_go k cur s) \<Longrightarrow> length l \<le> k \<and> l \<noteq> []"
  by (induction k cur s rule: fgets_go.induct) (auto simp: Let_def split: if_splits)

text \<open>Nothing of the file is lost or reordered, and every chunk fits its buffer.\<close>

lemma fgets_lines_concat: "concat (fgets_lines cap s) = s"
  by (simp add: fgets_lines_def concat_fgets_go)

lemma fgets_lines_bound: "1 < cap \<Longrightarrow> l \<in> set (fgets_lines cap s) \<Longrightarrow> length l < cap"
  using fgets_go_bound [of "[]" "cap - 1" l s] by (auto simp: fgets_lines_def)

end
