(* ===== verification/Tx_Burst.thy ===== *)
theory Tx_Burst
  imports AX100 C_String
begin

text \<open>
  \<^verbatim>\<open>src/src/pipeline/tx_burst.c\<close>: the request slot, the tolerant hex parser, the frame that
  goes on the air, the layout of the transmitted waveform, the one-line summary and the
  burst itself. The modulated samples are not modelled, only how many there are and which
  frame they carry; the SDR core is a parameter that is given the burst parameters and
  answers whether the hardware accepted them. Decibel values are exact rationals.
\<close>

section \<open>Requests\<close>

definition bytes_of :: "string \<Rightarrow> u8 list" where
  "bytes_of s = map of_char s"

definition string_of :: "u8 list \<Rightarrow> string" where
  "string_of bs = map (\<lambda>b. char_of (unat b)) bs"

record tx_request_slot =
  rq_pending :: bool
  rq_payload :: "u8 list"
  rq_is_hex :: bool
  rq_csp_hdr :: csp_v1_header
  rq_tx_freq_hz :: int
  rq_tx_gain_db :: rat
  rq_repeat :: int
  rq_gap_ms :: int
  rq_preroll_ms :: int
  rq_allow_high_power :: bool
  rq_allow_hf_tx :: bool
  rq_sso_origin :: string
  rq_tx_source :: string
  rq_summary :: string

datatype tx_burst_result =
    TX_BURST_OK | TX_BURST_NO_CORE | TX_BURST_FRAME_BUILD_FAILED | TX_BURST_UHD_ERROR

section \<open>Hex payloads\<close>

definition hex_digit :: "char \<Rightarrow> int" where
  "hex_digit c =
     (let k = int (chr_code c)
      in if 48 \<le> k \<and> k \<le> 57 then k - 48
         else if 97 \<le> k \<and> k \<le> 102 then k - 97 + 10
         else if 65 \<le> k \<and> k \<le> 70 then k - 65 + 10
         else -1)"

fun parse_hex_go :: "nat \<Rightarrow> u8 list \<Rightarrow> int \<Rightarrow> string \<Rightarrow> u8 list option" where
  "parse_hex_go cap out hi [] = (if hi \<ge> 0 then None else Some out)"
| "parse_hex_go cap out hi (c # cs) =
     (if c = CHR '' '' \<or> c = CHR 0x09 \<or> c = CHR '':'' then parse_hex_go cap out hi cs
      else let d = hex_digit c
           in if d < 0 then None
              else if hi < 0 then parse_hex_go cap out d cs
              else if length out \<ge> cap then None
              else parse_hex_go cap (out @ [of_int (hi * 16 + d)]) (-1) cs)"

definition tx_burst_parse_hex :: "string \<Rightarrow> nat \<Rightarrow> u8 list option" where
  "tx_burst_parse_hex hex cap = parse_hex_go cap [] (-1) hex"

section \<open>The frame on the air\<close>

text \<open>The key is \<open>None\<close> for a NULL pointer; an empty key is treated the same by the code.\<close>

definition tx_burst_build_frame ::
  "sha1_fun \<Rightarrow> u8 list \<Rightarrow> csp_v1_header \<Rightarrow> u8 list option \<Rightarrow> nat \<Rightarrow> u8 list option" where
  "tx_burst_build_frame sha1 payload csp_hdr hmac out_cap =
     (case csp_v1_encode csp_hdr payload 4096 of None \<Rightarrow> None
      | Some csp_packet \<Rightarrow>
          let opts0 = ax100_opts_defaults;
              opts1 = (case hmac of Some key \<Rightarrow> if length key > 0 then opts0\<lparr>hmac_key := Some key\<rparr> else opts0
                       | None \<Rightarrow> opts0);
              opts = opts1\<lparr>reed_solomon := True\<rparr>
          in ax100_frame sha1 csp_packet opts out_cap)"

text \<open>The uplink carrier that the satellite hears at its nominal frequency.\<close>

definition tx_burst_doppler_freq_hz :: "rat \<Rightarrow> rat \<Rightarrow> bool \<Rightarrow> int" where
  "tx_burst_doppler_freq_hz nominal range_rate enable =
     (let trunc = (\<lambda>x. if x \<ge> 0 then \<lfloor>x\<rfloor> else \<lceil>x\<rceil>);
          factor = 1 - range_rate / 299792.458
      in if \<not> enable then trunc nominal
         else if factor < 1 / 10 ^ 9 then trunc nominal
         else trunc (nominal / factor + 1 / 2))"

record iq_plan =
  iq_frame :: "u8 list"
  iq_preroll_bytes :: nat
  iq_frame_samps :: nat
  iq_gap_samps :: nat
  iq_repeat :: nat
  iq_postroll_samps :: nat
  iq_total :: nat

text \<open>
  \<^verbatim>\<open>build_iq\<close>: the layout of the waveform, samples per bit \<open>sps\<close>; allocation failures are
  not modelled.
\<close>

definition build_iq ::
  "sha1_fun \<Rightarrow> u8 list \<Rightarrow> csp_v1_header \<Rightarrow> u8 list option \<Rightarrow> nat \<Rightarrow> nat \<Rightarrow> int \<Rightarrow> int \<Rightarrow> nat \<Rightarrow> nat \<Rightarrow> iq_plan option" where
  "build_iq sha1 payload csp_hdr hmac bit_rate tx_rate_hz repeat gap_ms preroll_ms postroll_ms =
     (case tx_burst_build_frame sha1 payload csp_hdr hmac 4200 of None \<Rightarrow> None
      | Some frame \<Rightarrow>
          if tx_rate_hz = 0 \<or> bit_rate = 0 \<or> tx_rate_hz mod bit_rate \<noteq> 0 then None
          else
            let sps = tx_rate_hz div bit_rate;
                n_pcm = length frame * 8 * sps;
                preroll_bytes = (preroll_ms * tx_rate_hz div 1000) div (8 * sps);
                preroll_samps = preroll_bytes * 8 * sps;
                postroll_samps = tx_rate_hz * postroll_ms div 1000;
                reps = (if repeat < 1 then 1 else nat repeat);
                gap_samps = tx_rate_hz * (if gap_ms < 0 then 0 else nat gap_ms) div 1000;
                per_rep = n_pcm + gap_samps
            in Some \<lparr>iq_frame = frame, iq_preroll_bytes = preroll_bytes, iq_frame_samps = n_pcm,
                     iq_gap_samps = gap_samps, iq_repeat = reps, iq_postroll_samps = postroll_samps,
                     iq_total = preroll_samps + per_rep * reps + postroll_samps\<rparr>)"

section \<open>Summary and burst\<close>

definition hex2 :: "u8 \<Rightarrow> string" where
  "hex2 b = (let dig = (\<lambda>k. if k < 10 then char_of (48 + k) else char_of (87 + k :: nat))
             in [dig (unat b div 16), dig (unat b mod 16)])"

text \<open>For a buffer of at least seven bytes, as every caller has.\<close>

definition tx_burst_summarize :: "u8 list \<Rightarrow> bool \<Rightarrow> nat \<Rightarrow> string" where
  "tx_burst_summarize payload is_hex out_size =
     (if \<not> is_hex
      then let cap0 = length payload + 6;
               cap = (if cap0 \<ge> out_size then out_size - 1 else cap0)
           in snprintf out_size (''ascii:'' @ string_of (takeWhile (\<lambda>b. b \<noteq> 0) (take (cap - 6) payload)))
      else snprintf out_size (''hex:'' @ concat (map hex2 (take 16 payload)) @
             (if length payload > 16 then ''...'' else [])))"

record burst_params =
  bp_plan :: iq_plan
  bp_tx_rate_hz :: nat
  bp_tx_freq_hz :: int
  bp_tx_gain_db :: rat
  bp_start_delay_s :: rat

type_synonym sdr_core = "burst_params \<Rightarrow> bool"

text \<open>The parameters of the burst a request turns into; \<open>None\<close> when no frame can be built.\<close>

definition tx_burst_params :: "sha1_fun \<Rightarrow> tx_request_slot \<Rightarrow> u8 list option \<Rightarrow> burst_params option" where
  "tx_burst_params sha1 req hmac =
     (let repeat = (if rq_repeat req > 0 then rq_repeat req else 1);
          gap_ms = (if rq_gap_ms req > 0 then rq_gap_ms req else 200);
          preroll_ms = (if rq_preroll_ms req > 0 then rq_preroll_ms req else 200);
          tx_gain_db = (if rq_tx_gain_db req > 0 then rq_tx_gain_db req else 70);
          tx_freq_hz = (if rq_tx_freq_hz req > 0 then rq_tx_freq_hz req else 436150000)
      in case build_iq sha1 (rq_payload req) (rq_csp_hdr req) hmac 9600 480000 repeat gap_ms
                (nat preroll_ms) 50 of
           None \<Rightarrow> None
         | Some plan \<Rightarrow> Some \<lparr>bp_plan = plan, bp_tx_rate_hz = 480000, bp_tx_freq_hz = tx_freq_hz,
                              bp_tx_gain_db = tx_gain_db, bp_start_delay_s = 15 / 100\<rparr>)"

definition tx_burst_run_summary :: "tx_request_slot \<Rightarrow> nat \<Rightarrow> string" where
  "tx_burst_run_summary req summary_n =
     (let s = tx_burst_summarize (rq_payload req) (rq_is_hex req) summary_n
      in if rq_sso_origin req \<noteq> [] \<and> summary_n > 0 \<and> length s < summary_n
         then s @ snprintf (summary_n - length s) ('' (replaced '' @ quoted (rq_sso_origin req) @ '')'')
         else s)"

definition tx_burst_run ::
  "sha1_fun \<Rightarrow> sdr_core option \<Rightarrow> tx_request_slot \<Rightarrow> u8 list option \<Rightarrow> nat \<Rightarrow> tx_burst_result \<times> string" where
  "tx_burst_run sha1 core req hmac summary_n =
     (let summary = tx_burst_run_summary req summary_n
      in case core of None \<Rightarrow> (TX_BURST_NO_CORE, summary)
         | Some burst \<Rightarrow>
             (case tx_burst_params sha1 req hmac of
                None \<Rightarrow> (TX_BURST_FRAME_BUILD_FAILED, summary)
              | Some bp \<Rightarrow> (if burst bp then TX_BURST_OK else TX_BURST_UHD_ERROR, summary)))"

section \<open>The uplink frame: capacity and delivery\<close>

text \<open>The link options of a signed uplink.\<close>

definition uplink_opts :: "u8 list \<Rightarrow> ax100_opts" where
  "uplink_opts key = ax100_opts_defaults\<lparr>hmac_key := Some key, reed_solomon := True\<rparr>"

lemma uplink_opts_fields [simp]:
  "hmac_key (uplink_opts key) = Some key" "reed_solomon (uplink_opts key)" "syncword (uplink_opts key)"
  "len_field (uplink_opts key)" "prefill (uplink_opts key) = 32" "tailfill (uplink_opts key) = 1"
  by (simp_all add: uplink_opts_def ax100_opts_defaults_def)

lemma build_frame_keyed:
  "key \<noteq> [] \<Longrightarrow> tx_burst_build_frame sha1 payload hdr (Some key) cap =
     (case csp_v1_encode hdr payload 4096 of None \<Rightarrow> None | Some pkt \<Rightarrow> ax100_frame sha1 pkt (uplink_opts key) cap)"
  by (simp add: tx_burst_build_frame_def uplink_opts_def Let_def split: option.splits)

text \<open>The documented behaviour of the digest: it succeeds and yields 20 bytes.\<close>

definition sha1_works :: "sha1_fun \<Rightarrow> bool" where
  "sha1_works sha1 \<longleftrightarrow> (\<forall>dat. \<exists>md. sha1 dat = Some md \<and> length md = 20)"

lemma hmac_total:
  assumes "sha1_works sha1"
  shows "\<exists>mac. ax100_hmac sha1 key dat = Some mac"
proof -
  have works: "\<exists>md. sha1 d = Some md \<and> length md = 20" for d using assms by (simp add: sha1_works_def)
  have once: "\<exists>md. sha1_once sha1 d = Some md" for d using works [of d] by (auto simp: sha1_once_def)
  have two: "\<exists>md. sha1_two sha1 a b = Some md" for a b using works [of "a @ b"] by (auto simp: sha1_two_def)
  obtain k where "sha1_once sha1 key = Some k" using once by blast
  moreover obtain i where "sha1_two sha1 (map (\<lambda>k. k XOR 0x36) (take 16 k @ replicate 48 0)) dat = Some i" using two by blast
  moreover obtain out where "sha1_two sha1 (map (\<lambda>k. k XOR 0x5C) (take 16 k @ replicate 48 0)) i = Some out" using two by blast
  ultimately show ?thesis by (auto simp: ax100_hmac_def Let_def)
qed

lemma build_frame_iff:
  assumes "sha1_works sha1" and "key \<noteq> []" and "csp_v1_fits hdr"
  shows "tx_burst_build_frame sha1 payload hdr (Some key) 4200 \<noteq> None \<longleftrightarrow> length payload \<le> 215"
proof (cases "length payload \<le> 4092")
  case False
  then have "csp_v1_encode hdr payload 4096 = None" by (simp add: csp_v1_encode_def)
  then show ?thesis using False assms(2) by (simp add: build_frame_keyed)
next
  case True
  then obtain pkt where pkt: "csp_v1_encode hdr payload 4096 = Some pkt"
    using assms(3) by (auto simp: csp_v1_encode_def Let_def)
  note len = csp_v1_encode_Some(3) [OF pkt]
  obtain mac where mac: "ax100_hmac sha1 key pkt = Some mac" using hmac_total [OF assms(1)] by blast
  then have add: "ax100_add_hmac sha1 (uplink_opts key) pkt = Some (pkt @ mac)" by (simp add: ax100_add_hmac_def)
  have l4: "length mac = 4" using mac by (rule length_ax100_hmac)
  show ?thesis
  proof (cases "length payload \<le> 215")
    case True
    have sz: "length (pkt @ mac) \<le> 223" "length (pkt @ mac) + 32 \<le> 255" using True len l4 by simp_all
    obtain cw where cw: "ax100_add_rs (uplink_opts key) (pkt @ mac) = Some cw"
      using rs_pycsp_encode_Some [OF sz] by (simp add: ax100_add_rs_def)
    have "length cw = length pkt + 36" using length_add_rs [OF cw] l4 by simp
    then show ?thesis
      using True len pkt assms(2) add cw
      by (simp add: build_frame_keyed ax100_frame_def ax100_size_ok_def ax100_wrap_def Let_def)
  next
    case False
    then show ?thesis
      using len pkt assms(2) by (simp add: build_frame_keyed ax100_frame_def ax100_size_ok_def Let_def)
  qed
qed

text \<open>
  C30: With a key, a header that fits and a digest that works, a request's frame can be built
  if and only if its payload has at most 215 bytes, which is the limit the linter, the compose
  field and the auto-run enforce.
\<close>

theorem build_frame_limit:
  assumes "sha1_works sha1" and "key \<noteq> []" and "csp_v1_fits hdr"
  shows "tx_burst_build_frame sha1 payload hdr (Some key) 4200 \<noteq> None \<longleftrightarrow> length payload \<le> 215"
  using assms by (rule build_frame_iff)

lemma map2_zeros: "length xs = 3 \<Longrightarrow> map2 (XOR) xs [0, 0, 0] = (xs :: u8 list)"
  by (auto simp: numeral_eq_Suc length_Suc_conv)

lemma frame_received:
  assumes "tx_burst_build_frame sha1 payload hdr (Some key) cap = Some frame" and "key \<noteq> []"
  shows "\<exists>pkt. ax100_unframe sha1 (drop 32 frame) (uplink_opts key) 300 =
      \<lparr>out_packet = Some pkt, out_golay_errors = 0, out_hmac_ok = 1, out_rs_errors = 0, out_used_golay_len = 1\<rparr> \<and>
    csp_v1_decode pkt = hdr \<and> drop 4 pkt = payload"
proof -
  obtain pkt where pkt: "csp_v1_encode hdr payload 4096 = Some pkt"
    and f: "ax100_frame sha1 pkt (uplink_opts key) cap = Some frame"
    using assms by (auto simp: build_frame_keyed split: option.splits)
  have "length pkt \<le> 300"
    using f by (auto simp: ax100_frame_def ax100_size_ok_def Let_def split: if_splits)
  then have "ax100_unframe sha1 (take 4 (drop 32 frame) @ map2 (XOR) (take 3 (drop 4 (drop 32 frame))) [0, 0, 0] @ drop 7 (drop 32 frame))
      (uplink_opts key) 300 =
      \<lparr>out_packet = Some pkt, out_golay_errors = 0, out_hmac_ok = 1, out_rs_errors = 0, out_used_golay_len = 1\<rparr>"
    using unframe_frame [OF f, where cap = 300 and errs = "[0, 0, 0]", OF _ _ _ _ _ _ refl refl] by simp
  moreover have "length frame \<ge> 39"
    using f by (auto simp: ax100_frame_def ax100_wrap_def Let_def AX100_ASM_def ax100_len_header_word(2) split: if_splits option.splits)
  then have "map2 (XOR) (take 3 (drop 4 (drop 32 frame))) [0, 0, 0] = take 3 (drop 4 (drop 32 frame))"
    by (intro map2_zeros) simp
  moreover have "take 4 (drop 32 frame) @ take 3 (drop 4 (drop 32 frame)) @ drop 7 (drop 32 frame) = drop 32 frame"
    using append_take_drop_id [of 3 "drop 4 (drop 32 frame)"] append_take_drop_id [of 4 "drop 32 frame"] by simp
  ultimately show ?thesis using csp_v1_encode_Some [OF pkt] by auto
qed


definition demo_hdr :: csp_v1_header where
  "demo_hdr = \<lparr>prio = 2, src = 10, dst = 1, dport = 7, sport = 16, flags = 0\<rparr>"

lemma demo_sha1_works: "sha1_works demo_sha1"
  by (auto simp: sha1_works_def demo_sha1_def min_def)

theorem build_frame_limit_witness:
  "tx_burst_build_frame demo_sha1 (replicate 215 65) demo_hdr (Some [1, 2]) 4200 \<noteq> None \<and>
   tx_burst_build_frame demo_sha1 (replicate 216 65) demo_hdr (Some [1, 2]) 4200 = None"
proof -
  have "csp_v1_fits demo_hdr" by code_simp
  then show ?thesis
    using build_frame_limit [OF demo_sha1_works, of "[1, 2]" demo_hdr "replicate 215 65"]
      build_frame_limit [OF demo_sha1_works, of "[1, 2]" demo_hdr "replicate 216 65"] by simp
qed


end
