(* ===== verification/Agenda_Line.thy ===== *)
theory Agenda_Line
  imports C_String
begin

text \<open>
  \<^verbatim>\<open>src/src/proto/agenda_line.c\<close>: the rule that separates a command from its inline
  comment, shared by the linter and the transmit path, and the parser of the
  \<open>@tssent=\<close> / \<open>@tsexec=\<close> directives.
\<close>

fun agenda_back_up :: "string \<Rightarrow> nat \<Rightarrow> nat" where
  "agenda_back_up s j = (if 0 < j \<and> isblank (s ! (j - 1)) then agenda_back_up s (j - 1) else j)"

declare agenda_back_up.simps [simp del]

function agenda_comment_scan :: "string \<Rightarrow> nat \<Rightarrow> nat option \<times> nat" where
  "agenda_comment_scan s i =
     (if i < length s
      then if s ! i = CHR ''#'' \<and> (i = 0 \<or> isblank (s ! (i - 1)))
           then (Some i, agenda_back_up s i)
           else agenda_comment_scan s (i + 1)
      else (None, length s))"
  by pat_completeness auto
termination
  by (relation "measure (\<lambda>(s, i). length s - i)") auto

declare agenda_comment_scan.simps [simp del]

text \<open>The offset of the comment, if there is one, and the length of the command before it.\<close>

definition agenda_find_inline_comment :: "string \<Rightarrow> nat option \<times> nat" where
  "agenda_find_inline_comment s = agenda_comment_scan s 0"

fun agenda_parse_directive_ms :: "string \<Rightarrow> string \<Rightarrow> int option" where
  "agenda_parse_directive_ms [] key = None"
| "agenda_parse_directive_ms (c # cs) key =
     (if \<not> has_prefix key (c # cs) then agenda_parse_directive_ms cs key
      else let digits = drop (length key) (c # cs);
               sign = (if digits \<noteq> [] \<and> hd digits \<in> {CHR ''+'', CHR ''-''} then 1 else 0);
               ds = takeWhile isdigit (drop sign digits);
               n = sign + length ds
           in if ds = [] then agenda_parse_directive_ms cs key
              else if n \<ge> 32 then agenda_parse_directive_ms cs key
              else Some (strtoll (take n digits)))"

section \<open>What the comment rule leaves\<close>

lemma agenda_back_up_le: "agenda_back_up s j \<le> j"
  by (induction s j rule: agenda_back_up.induct) (subst agenda_back_up.simps, auto)

lemma agenda_back_up_blank: "agenda_back_up s j \<le> k \<Longrightarrow> k < j \<Longrightarrow> isblank (s ! k)"
proof (induction s j rule: agenda_back_up.induct)
  case (1 s j)
  then show ?case
    by (subst (asm) (2) agenda_back_up.simps)
       (cases "k = j - 1", auto split: if_splits)
qed

lemma agenda_back_up_last: "0 < agenda_back_up s j \<Longrightarrow> \<not> isblank (s ! (agenda_back_up s j - 1))"
  by (induction s j rule: agenda_back_up.induct)
     (subst agenda_back_up.simps, subst (asm) (2) agenda_back_up.simps, auto split: if_splits)

lemma agenda_comment_scan_spec:
  "(\<forall>k<i. k < length s \<longrightarrow> \<not> (s ! k = CHR ''#'' \<and> (k = 0 \<or> isblank (s ! (k - 1))))) \<Longrightarrow>
   (case agenda_comment_scan s i of
      (Some p, n) \<Rightarrow> p < length s \<and> s ! p = CHR ''#'' \<and> (p = 0 \<or> isblank (s ! (p - 1))) \<and>
        n = agenda_back_up s p \<and>
        (\<forall>k<p. \<not> (s ! k = CHR ''#'' \<and> (k = 0 \<or> isblank (s ! (k - 1)))))
    | (None, n) \<Rightarrow> n = length s \<and>
        (\<forall>k<length s. \<not> (s ! k = CHR ''#'' \<and> (k = 0 \<or> isblank (s ! (k - 1))))))"
proof (induction s i rule: agenda_comment_scan.induct)
  case (1 s i)
  show ?case
    by (subst agenda_comment_scan.simps) (use 1 in \<open>auto simp: less_Suc_eq\<close>)
qed

lemma agenda_cmd_len_le: "snd (agenda_find_inline_comment s) \<le> length s"
proof -
  have "p < length s \<Longrightarrow> agenda_back_up s p \<le> length s" for p
    using agenda_back_up_le [of s p] by simp
  then show ?thesis
    using agenda_comment_scan_spec [of 0 s]
    by (auto simp: agenda_find_inline_comment_def split: prod.splits option.splits)
qed



end
