(* ===== verification/Burst_Handoff.thy ===== *)
theory Burst_Handoff
  imports Tx_Burst Agenda_Line "HOL-Library.Sublist"
begin

text \<open>
  \<^verbatim>\<open>src/src/pipeline/rx_session.c\<close>: the burst slot that the operator's main loop and the
  dedicated TX thread share under the session mutex. Each critical section is one function;
  the two threads interleave as the steps of \<open>burst_step\<close>. The outcome of the hardware is a
  parameter of each run, so different bursts may end differently.
\<close>

section \<open>The shared slot\<close>

datatype rx_burst_result =
    RX_BURST_OK | RX_BURST_NO_CORE | RX_BURST_FRAME_BUILD_FAILED | RX_BURST_UHD_ERROR | RX_BURST_ABORTED

fun rx_of_tx :: "tx_burst_result \<Rightarrow> rx_burst_result" where
  "rx_of_tx TX_BURST_OK = RX_BURST_OK"
| "rx_of_tx TX_BURST_NO_CORE = RX_BURST_NO_CORE"
| "rx_of_tx TX_BURST_FRAME_BUILD_FAILED = RX_BURST_FRAME_BUILD_FAILED"
| "rx_of_tx TX_BURST_UHD_ERROR = RX_BURST_UHD_ERROR"

record sent_tcmd_record =
  sr_ts_sent_ms :: int
  sr_tsexec_ms :: int
  sr_command_text :: string
  sr_tx_freq_hz :: int
  sr_tx_gain_db :: rat
  sr_ts_transmitted :: string

record rx_session =
  stop_requested :: bool
  device_lost :: bool
  burst_req_pending :: bool
  burst_in_flight :: bool
  burst_complete :: bool
  burst_req :: tx_request_slot
  burst_hmac_key :: "u8 list"
  burst_result :: rx_burst_result
  burst_summary :: string
  session_db :: "sent_tcmd_record list option"

definition SSO_TX_SUMMARY_N :: nat where "SSO_TX_SUMMARY_N = 256"

text \<open>The key copy: a NULL, empty or oversized key leaves the stored length at zero.\<close>

definition burst_key_copy :: "u8 list option \<Rightarrow> u8 list" where
  "burst_key_copy key = (case key of Some k \<Rightarrow> if length k > 0 \<and> length k \<le> 128 then k else [] | None \<Rightarrow> [])"

definition burst_post :: "rx_session \<Rightarrow> tx_request_slot \<Rightarrow> u8 list option \<Rightarrow> rx_session" where
  "burst_post rxs req key = rxs\<lparr>burst_req := req, burst_hmac_key := burst_key_copy key,
     burst_complete := False, burst_req_pending := True\<rparr>"

definition rx_session_submit_burst ::
  "rx_session \<Rightarrow> tx_request_slot \<Rightarrow> u8 list option \<Rightarrow> rx_session \<times> bool" where
  "rx_session_submit_burst rxs req key =
     (if burst_req_pending rxs \<or> burst_in_flight rxs \<or> burst_complete rxs then (rxs, False)
      else (burst_post rxs req key, True))"

definition rx_session_poll_burst ::
  "rx_session \<Rightarrow> nat \<Rightarrow> rx_session \<times> (rx_burst_result \<times> string) option" where
  "rx_session_poll_burst rxs summary_n =
     (if \<not> burst_complete rxs then (rxs, None)
      else (rxs\<lparr>burst_complete := False\<rparr>, Some (burst_result rxs, snprintf summary_n (burst_summary rxs))))"

text \<open>
  The synchronous request: the part before the wait, and the part after it, which runs
  once \<open>burst_complete\<close> or \<open>stop_requested\<close> holds.
\<close>

definition sync_burst_wakes :: "rx_session \<Rightarrow> bool" where
  "sync_burst_wakes rxs \<longleftrightarrow> burst_complete rxs \<or> stop_requested rxs"

definition sync_burst_return :: "rx_session \<Rightarrow> nat \<Rightarrow> rx_burst_result \<times> string" where
  "sync_burst_return rxs summary_n =
     (if burst_complete rxs then (burst_result rxs, snprintf summary_n (burst_summary rxs))
      else (RX_BURST_ABORTED, snprintf summary_n ''aborted: session stopping''))"

section \<open>The TX thread\<close>

record tx_job =
  job_req :: tx_request_slot
  job_key :: "u8 list"
  job_lost :: bool

text \<open>The critical section that takes a queued burst; \<open>None\<close> while it waits or once it stops.\<close>

definition tx_thread_take :: "rx_session \<Rightarrow> (rx_session \<times> tx_job) option" where
  "tx_thread_take rxs =
     (if stop_requested rxs \<or> \<not> burst_req_pending rxs then None
      else Some (rxs\<lparr>burst_req_pending := False, burst_in_flight := True\<rparr>,
                 \<lparr>job_req = burst_req rxs, job_key = burst_hmac_key rxs, job_lost = device_lost rxs\<rparr>))"

definition tx_thread_run :: "sha1_fun \<Rightarrow> sdr_core option \<Rightarrow> tx_job \<Rightarrow> tx_burst_result \<times> string" where
  "tx_thread_run sha1 core job =
     (if job_lost job then (TX_BURST_NO_CORE, snprintf SSO_TX_SUMMARY_N ''rejected: SDR disconnected'')
      else tx_burst_run sha1 core (job_req job)
             (if length (job_key job) > 0 then Some (job_key job) else None) SSO_TX_SUMMARY_N)"

definition worker_record_sent_tcmd :: "string \<Rightarrow> rx_session \<Rightarrow> tx_request_slot \<Rightarrow> rx_session" where
  "worker_record_sent_tcmd ts_tx rxs req =
     (case session_db rxs of None \<Rightarrow> rxs
      | Some rows \<Rightarrow>
          if rq_is_hex req \<or> rq_payload req = [] then rxs
          else
            let n = (if length (rq_payload req) \<ge> 2048 then 2047 else length (rq_payload req));
                cmd = takeWhile (\<lambda>c. c \<noteq> CHR 0x00) (string_of (take n (rq_payload req)))
            in case agenda_parse_directive_ms cmd ''@tssent='' of None \<Rightarrow> rxs
               | Some ts_sent \<Rightarrow>
                   let tsexec = (case agenda_parse_directive_ms cmd ''@tsexec='' of None \<Rightarrow> -1 | Some v \<Rightarrow> v)
                   in rxs\<lparr>session_db := Some (rows @
                        [\<lparr>sr_ts_sent_ms = ts_sent, sr_tsexec_ms = tsexec, sr_command_text = cmd,
                          sr_tx_freq_hz = rq_tx_freq_hz req, sr_tx_gain_db = rq_tx_gain_db req,
                          sr_ts_transmitted = ts_tx\<rparr>])\<rparr>)"

definition tx_thread_publish :: "rx_session \<Rightarrow> tx_burst_result \<Rightarrow> string \<Rightarrow> rx_session" where
  "tx_thread_publish rxs br summary =
     rxs\<lparr>burst_result := rx_of_tx br, burst_summary := snprintf SSO_TX_SUMMARY_N summary,
         burst_in_flight := False, burst_complete := True\<rparr>"

section \<open>The phase of the slot\<close>

datatype ('q, 'a) burst_phase = Idle | Queued 'q | OnAir | Done 'a

definition slot_phase :: "rx_session \<Rightarrow> (tx_request_slot \<times> u8 list, rx_burst_result \<times> string) burst_phase" where
  "slot_phase rxs =
     (if burst_complete rxs then Done (burst_result rxs, burst_summary rxs)
      else if burst_in_flight rxs then OnAir
      else if burst_req_pending rxs then Queued (burst_req rxs, burst_hmac_key rxs)
      else Idle)"

definition slot_ok :: "rx_session \<Rightarrow> bool" where
  "slot_ok rxs \<longleftrightarrow>
     \<not> (burst_req_pending rxs \<and> burst_in_flight rxs) \<and>
     \<not> (burst_req_pending rxs \<and> burst_complete rxs) \<and>
     \<not> (burst_in_flight rxs \<and> burst_complete rxs) \<and>
     length (burst_summary rxs) < SSO_TX_SUMMARY_N"

text \<open>What a client of the slot may rely on.\<close>

locale burst_mailbox =
  fixes ok :: "'r \<Rightarrow> bool"
    and phase :: "'r \<Rightarrow> ('q, 'a) burst_phase"
    and copy :: "'i \<Rightarrow> 'q"
    and submit :: "'r \<Rightarrow> 'i \<Rightarrow> 'r \<times> bool"
    and poll :: "'r \<Rightarrow> 'r \<times> 'a option"
  assumes submit_idle: "ok r \<Longrightarrow> phase r = Idle \<Longrightarrow>
      \<exists>r'. submit r q = (r', True) \<and> phase r' = Queued (copy q) \<and> ok r'"
    and submit_busy: "phase r \<noteq> Idle \<Longrightarrow> submit r q = (r, False)"
    and poll_done: "ok r \<Longrightarrow> phase r = Done a \<Longrightarrow>
      \<exists>r'. poll r = (r', Some a) \<and> phase r' = Idle \<and> ok r'"
    and poll_wait: "\<forall>a. phase r \<noteq> Done a \<Longrightarrow> poll r = (r, None)"
begin

lemma submit_accepts_iff: "ok r \<Longrightarrow> snd (submit r q) \<longleftrightarrow> phase r = Idle"
  using submit_idle [of r q] submit_busy [of r q] by (cases "phase r = Idle") auto

lemma submit_keeps: "ok r \<Longrightarrow> ok (fst (submit r q))"
  using submit_idle [of r q] submit_busy [of r q] by (cases "phase r = Idle") auto

lemma submit_twice: "ok r \<Longrightarrow> snd (submit (fst (submit r p)) q) = False"
  using submit_idle [of r p] submit_busy [of r p] submit_busy [of "fst (submit r p)" q]
  by (cases "phase r = Idle") auto

lemma poll_keeps: "ok r \<Longrightarrow> ok (fst (poll r))"
  using poll_done [of r] poll_wait [of r] by (cases "phase r") auto

lemma poll_once: "ok r \<Longrightarrow> snd (poll (fst (poll r))) = None"
proof (cases "phase r")
  case (Done a)
  assume "ok r"
  with Done obtain r' where "poll r = (r', Some a)" "phase r' = Idle" using poll_done by blast
  then show ?thesis using poll_wait [of r'] by simp
qed (use poll_wait [of r] in auto)

lemma poll_Some_iff: "ok r \<Longrightarrow> snd (poll r) = Some a \<longleftrightarrow> phase r = Done a"
  using poll_done [of r] poll_wait [of r] by (cases "phase r") auto

end

definition submit_pair :: "rx_session \<Rightarrow> tx_request_slot \<times> u8 list option \<Rightarrow> rx_session \<times> bool" where
  "submit_pair rxs q = rx_session_submit_burst rxs (fst q) (snd q)"

lemma snprintf_id [simp]: "length s < n \<Longrightarrow> snprintf n s = s"
  by (simp add: snprintf_def)

lemma length_snprintf_256 [simp]: "length (snprintf SSO_TX_SUMMARY_N s) < SSO_TX_SUMMARY_N"
  by (simp add: snprintf_def SSO_TX_SUMMARY_N_def)

lemmas slot_defs = slot_ok_def slot_phase_def burst_post_def submit_pair_def rx_session_submit_burst_def
  rx_session_poll_burst_def tx_thread_take_def tx_thread_publish_def

interpretation slot: burst_mailbox slot_ok slot_phase "\<lambda>q. (fst q, burst_key_copy (snd q))" submit_pair
  "\<lambda>r. rx_session_poll_burst r SSO_TX_SUMMARY_N"
proof
  show "\<exists>r'. submit_pair r q = (r', True) \<and> slot_phase r' = Queued (fst q, burst_key_copy (snd q)) \<and> slot_ok r'"
    if "slot_ok r" "slot_phase r = Idle" for r q
    using that by (auto simp: slot_defs split: if_splits)
  show "submit_pair r q = (r, False)" if "slot_phase r \<noteq> Idle" for r q
    using that by (auto simp: slot_defs split: if_splits)
  show "\<exists>r'. rx_session_poll_burst r SSO_TX_SUMMARY_N = (r', Some a) \<and> slot_phase r' = Idle \<and> slot_ok r'"
    if "slot_ok r" "slot_phase r = Done a" for r a
    using that by (auto simp: slot_defs split: if_splits)
  show "rx_session_poll_burst r SSO_TX_SUMMARY_N = (r, None)" if "\<forall>a. slot_phase r \<noteq> Done a" for r
    using that by (auto simp: slot_defs split: if_splits)
qed

section \<open>The two threads\<close>

datatype tx_pc =
    TxWaiting
  | TxRunning tx_job
  | TxFinished tx_job tx_burst_result string
  | TxExited

text \<open>
  The session, where the TX thread is, and three histories: the bursts submitted (request
  and copied key), the bursts run with their outcome, and the outcomes handed to the caller.
\<close>

record burst_sys =
  sys_rxs :: rx_session
  sys_pc :: tx_pc
  sys_submitted :: "(tx_request_slot \<times> u8 list) list"
  sys_ran :: "(tx_job \<times> tx_burst_result \<times> string) list"
  sys_delivered :: "(rx_burst_result \<times> string) list"

inductive burst_step :: "sha1_fun \<Rightarrow> burst_sys \<Rightarrow> burst_sys \<Rightarrow> bool" for sha1 where
  submit: "rx_session_submit_burst (sys_rxs s) req key = (rxs', acc) \<Longrightarrow>
    burst_step sha1 s (s\<lparr>sys_rxs := rxs',
      sys_submitted := sys_submitted s @ (if acc then [(req, burst_key_copy key)] else [])\<rparr>)"
| poll: "rx_session_poll_burst (sys_rxs s) SSO_TX_SUMMARY_N = (rxs', out) \<Longrightarrow>
    burst_step sha1 s (s\<lparr>sys_rxs := rxs',
      sys_delivered := sys_delivered s @ (case out of Some r \<Rightarrow> [r] | None \<Rightarrow> [])\<rparr>)"
| take: "sys_pc s = TxWaiting \<Longrightarrow> tx_thread_take (sys_rxs s) = Some (rxs', job) \<Longrightarrow>
    burst_step sha1 s (s\<lparr>sys_rxs := rxs', sys_pc := TxRunning job\<rparr>)"
| run: "sys_pc s = TxRunning job \<Longrightarrow> tx_thread_run sha1 core job = (br, summary) \<Longrightarrow>
    rxs' = (if br = TX_BURST_OK then worker_record_sent_tcmd ts (sys_rxs s) (job_req job) else sys_rxs s) \<Longrightarrow>
    burst_step sha1 s (s\<lparr>sys_rxs := rxs', sys_pc := TxFinished job br summary,
      sys_ran := sys_ran s @ [(job, br, summary)]\<rparr>)"
| publish: "sys_pc s = TxFinished job br summary \<Longrightarrow>
    burst_step sha1 s (s\<lparr>sys_rxs := tx_thread_publish (sys_rxs s) br summary, sys_pc := TxWaiting\<rparr>)"
| lose: "burst_step sha1 s (s\<lparr>sys_rxs := (sys_rxs s)\<lparr>device_lost := True\<rparr>\<rparr>)"
| stop: "burst_step sha1 s (s\<lparr>sys_rxs := (sys_rxs s)\<lparr>stop_requested := True\<rparr>\<rparr>)"
| exit: "sys_pc s = TxWaiting \<Longrightarrow> stop_requested (sys_rxs s) \<Longrightarrow>
    burst_step sha1 s (s\<lparr>sys_pc := TxExited\<rparr>)"

text \<open>\<^verbatim>\<open>rx_session_open\<close> clears the whole structure before it starts the threads.\<close>

definition burst_start :: "burst_sys \<Rightarrow> bool" where
  "burst_start s \<longleftrightarrow> slot_ok (sys_rxs s) \<and> slot_phase (sys_rxs s) = Idle \<and> sys_pc s = TxWaiting \<and>
     sys_submitted s = [] \<and> sys_ran s = [] \<and> sys_delivered s = []"

inductive burst_reach :: "sha1_fun \<Rightarrow> burst_sys \<Rightarrow> bool" for sha1 where
  start: "burst_start s \<Longrightarrow> burst_reach sha1 s"
| step: "burst_reach sha1 s \<Longrightarrow> burst_step sha1 s s' \<Longrightarrow> burst_reach sha1 s'"

definition ran_job :: "tx_job \<times> tx_burst_result \<times> string \<Rightarrow> tx_request_slot \<times> u8 list" where
  "ran_job e = (job_req (fst e), job_key (fst e))"

definition ran_result :: "tx_job \<times> tx_burst_result \<times> string \<Rightarrow> rx_burst_result \<times> string" where
  "ran_result e = (rx_of_tx (fst (snd e)), snprintf SSO_TX_SUMMARY_N (snd (snd e)))"

text \<open>What is still owed in each phase: the submissions not yet run and the results not yet delivered.\<close>

definition owed_jobs :: "burst_sys \<Rightarrow> (tx_request_slot \<times> u8 list) list" where
  "owed_jobs s = (case slot_phase (sys_rxs s) of Queued q \<Rightarrow> [q]
     | OnAir \<Rightarrow> (case sys_pc s of TxRunning job \<Rightarrow> [(job_req job, job_key job)] | _ \<Rightarrow> [])
     | _ \<Rightarrow> [])"

definition owed_results :: "burst_sys \<Rightarrow> (rx_burst_result \<times> string) list" where
  "owed_results s = (case slot_phase (sys_rxs s) of Done r \<Rightarrow> [r]
     | OnAir \<Rightarrow> (case sys_pc s of TxFinished job br summary \<Rightarrow> [ran_result (job, br, summary)] | _ \<Rightarrow> [])
     | _ \<Rightarrow> [])"

definition burst_inv :: "sha1_fun \<Rightarrow> burst_sys \<Rightarrow> bool" where
  "burst_inv sha1 s \<longleftrightarrow> slot_ok (sys_rxs s) \<and>
     (slot_phase (sys_rxs s) = OnAir \<longleftrightarrow> sys_pc s \<noteq> TxWaiting \<and> sys_pc s \<noteq> TxExited) \<and>
     map ran_job (sys_ran s) @ owed_jobs s = sys_submitted s \<and>
     sys_delivered s @ owed_results s = map ran_result (sys_ran s) \<and>
     (\<forall>(job, out) \<in> set (sys_ran s). \<exists>core. tx_thread_run sha1 core job = out)"

lemma record_keeps_slot [simp]:
  "slot_ok (worker_record_sent_tcmd ts rxs req) = slot_ok rxs"
  "slot_phase (worker_record_sent_tcmd ts rxs req) = slot_phase rxs"
  by (simp_all add: worker_record_sent_tcmd_def slot_ok_def slot_phase_def Let_def split: option.splits)

lemmas owed_defs = owed_jobs_def owed_results_def ran_job_def ran_result_def

lemma burst_inv_submit: "burst_inv sha1 s \<Longrightarrow> rx_session_submit_burst (sys_rxs s) req key = (rxs', acc) \<Longrightarrow>
  burst_inv sha1 (s\<lparr>sys_rxs := rxs', sys_submitted := sys_submitted s @ (if acc then [(req, burst_key_copy key)] else [])\<rparr>)"
  by (auto simp: burst_inv_def owed_defs slot_defs split: if_splits)

lemma burst_inv_poll: "burst_inv sha1 s \<Longrightarrow> rx_session_poll_burst (sys_rxs s) SSO_TX_SUMMARY_N = (rxs', out) \<Longrightarrow>
  burst_inv sha1 (s\<lparr>sys_rxs := rxs', sys_delivered := sys_delivered s @ (case out of Some r \<Rightarrow> [r] | None \<Rightarrow> [])\<rparr>)"
  by (auto simp: burst_inv_def owed_defs slot_defs split: if_splits)

lemma burst_inv_take: "burst_inv sha1 s \<Longrightarrow> sys_pc s = TxWaiting \<Longrightarrow> tx_thread_take (sys_rxs s) = Some (rxs', job) \<Longrightarrow>
  burst_inv sha1 (s\<lparr>sys_rxs := rxs', sys_pc := TxRunning job\<rparr>)"
  by (auto simp: burst_inv_def owed_defs slot_defs split: if_splits)

lemma burst_inv_run: "burst_inv sha1 s \<Longrightarrow> sys_pc s = TxRunning job \<Longrightarrow> tx_thread_run sha1 core job = (br, summary) \<Longrightarrow>
  slot_ok rxs' = slot_ok (sys_rxs s) \<Longrightarrow> slot_phase rxs' = slot_phase (sys_rxs s) \<Longrightarrow>
  burst_inv sha1 (s\<lparr>sys_rxs := rxs', sys_pc := TxFinished job br summary, sys_ran := sys_ran s @ [(job, br, summary)]\<rparr>)"
  by (auto simp: burst_inv_def owed_defs)

lemma burst_inv_publish: "burst_inv sha1 s \<Longrightarrow> sys_pc s = TxFinished job br summary \<Longrightarrow>
  burst_inv sha1 (s\<lparr>sys_rxs := tx_thread_publish (sys_rxs s) br summary, sys_pc := TxWaiting\<rparr>)"
  by (auto simp: burst_inv_def owed_defs slot_defs split: if_splits)

lemma flags_keep_slot [simp]:
  "slot_ok (rxs\<lparr>device_lost := b\<rparr>) = slot_ok rxs" "slot_phase (rxs\<lparr>device_lost := b\<rparr>) = slot_phase rxs"
  "slot_ok (rxs\<lparr>stop_requested := b\<rparr>) = slot_ok rxs" "slot_phase (rxs\<lparr>stop_requested := b\<rparr>) = slot_phase rxs"
  by (simp_all add: slot_ok_def slot_phase_def)

lemma burst_inv_flags:
  "burst_inv sha1 s \<Longrightarrow> burst_inv sha1 (s\<lparr>sys_rxs := (sys_rxs s)\<lparr>device_lost := b\<rparr>\<rparr>)"
  "burst_inv sha1 s \<Longrightarrow> burst_inv sha1 (s\<lparr>sys_rxs := (sys_rxs s)\<lparr>stop_requested := b\<rparr>\<rparr>)"
  by (auto simp: burst_inv_def owed_jobs_def owed_results_def split: burst_phase.splits)

lemma burst_inv_exit: "burst_inv sha1 s \<Longrightarrow> sys_pc s = TxWaiting \<Longrightarrow> burst_inv sha1 (s\<lparr>sys_pc := TxExited\<rparr>)"
  by (auto simp: burst_inv_def owed_jobs_def owed_results_def split: burst_phase.splits)

lemma burst_inv_step: "burst_step sha1 s s' \<Longrightarrow> burst_inv sha1 s \<Longrightarrow> burst_inv sha1 s'"
  by (induction rule: burst_step.induct)
    (simp_all add: burst_inv_submit burst_inv_poll burst_inv_take burst_inv_run burst_inv_publish burst_inv_flags burst_inv_exit)

lemma burst_inv_start: "burst_start s \<Longrightarrow> burst_inv sha1 s"
  by (auto simp: burst_start_def burst_inv_def owed_jobs_def owed_results_def)

lemma burst_reach_inv: "burst_reach sha1 s \<Longrightarrow> burst_inv sha1 s"
  by (induction rule: burst_reach.induct) (auto intro: burst_inv_start burst_inv_step)

lemma owed_length: "length (owed_jobs s) + length (owed_results s) \<le> 1"
  by (simp add: owed_jobs_def owed_results_def split: burst_phase.splits tx_pc.splits)

text \<open>
  C10: the burst handoff delivers exactly once and in order. In every interleaving of the
  main loop and the TX thread, the bursts that ran are a prefix of the bursts accepted (each
  with the key it was submitted with), every outcome is that of running its burst, the
  outcomes delivered are a prefix of the outcomes produced, and at most one accepted burst
  is still without a delivered outcome.\<close>
theorem burst_handoff_fifo:
  assumes "burst_reach sha1 s"
  shows "prefix (map ran_job (sys_ran s)) (sys_submitted s)
    \<and> prefix (sys_delivered s) (map ran_result (sys_ran s))
    \<and> length (sys_submitted s) \<le> length (sys_delivered s) + 1
    \<and> (\<forall>(job, out) \<in> set (sys_ran s). \<exists>core. tx_thread_run sha1 core job = out)"
proof -
  from assms have inv: "burst_inv sha1 s" by (rule burst_reach_inv)
  then have eqs: "map ran_job (sys_ran s) @ owed_jobs s = sys_submitted s"
    "sys_delivered s @ owed_results s = map ran_result (sys_ran s)"
    by (simp_all add: burst_inv_def)
  from arg_cong [OF eqs(1), of length] arg_cong [OF eqs(2), of length] owed_length [of s]
  have "length (sys_submitted s) \<le> length (sys_delivered s) + 1" by simp
  with inv eqs show ?thesis by (auto simp: burst_inv_def prefix_def intro: sym)
qed


text \<open>The rest of a burst's life, step by step, when the session is not stopping.\<close>

lemma drain_done:
  assumes "burst_inv sha1 s" "slot_phase (sys_rxs s) = Done r"
  shows "\<exists>s'. burst_step sha1 s s' \<and> sys_submitted s' = sys_submitted s \<and> sys_delivered s' = sys_delivered s @ [r]
    \<and> slot_phase (sys_rxs s') = Idle"
proof -
  from assms obtain rxs' where "rx_session_poll_burst (sys_rxs s) SSO_TX_SUMMARY_N = (rxs', Some r)" "slot_phase rxs' = Idle"
    using slot.poll_done [of "sys_rxs s" r] by (auto simp: burst_inv_def)
  then show ?thesis using burst_step.poll [of s rxs' "Some r" sha1] by force
qed

lemma drain_finished:
  assumes "sys_pc s = TxFinished job br summary"
  shows "\<exists>s' r. burst_step sha1 s s' \<and> sys_submitted s' = sys_submitted s \<and> slot_phase (sys_rxs s') = Done r"
  using burst_step.publish [OF assms, of sha1] by (auto simp: slot_phase_def tx_thread_publish_def intro!: exI)

lemma drain_running:
  assumes "sys_pc s = TxRunning job"
  shows "\<exists>s' br summary. burst_step sha1 s s' \<and> sys_submitted s' = sys_submitted s \<and> sys_pc s' = TxFinished job br summary"
proof -
  obtain br summary where "tx_thread_run sha1 None job = (br, summary)" by fastforce
  from burst_step.run [OF assms this refl] show ?thesis by force
qed

lemma drain_queued:
  assumes "sys_pc s = TxWaiting" "slot_phase (sys_rxs s) = Queued q" "\<not> stop_requested (sys_rxs s)"
  shows "\<exists>s' job. burst_step sha1 s s' \<and> sys_submitted s' = sys_submitted s \<and> sys_pc s' = TxRunning job"
proof -
  from assms obtain rxs' job where "tx_thread_take (sys_rxs s) = Some (rxs', job)"
    by (auto simp: tx_thread_take_def slot_phase_def split: if_splits)
  from burst_step.take [OF assms(1) this] show ?thesis by force
qed


definition burst_drained :: "burst_sys \<Rightarrow> burst_sys \<Rightarrow> bool" where
  "burst_drained s s' \<longleftrightarrow> sys_submitted s' = sys_submitted s \<and> length (sys_delivered s') = length (sys_submitted s)"

lemma drained_idle:
  assumes "burst_inv sha1 s" "slot_phase (sys_rxs s) = Idle"
  shows "length (sys_delivered s) = length (sys_submitted s)"
proof -
  from assms have "map ran_job (sys_ran s) = sys_submitted s" "sys_delivered s = map ran_result (sys_ran s)"
    by (auto simp: burst_inv_def owed_jobs_def owed_results_def)
  then show ?thesis by (metis length_map)
qed

lemma step_inv_drained:
  assumes "burst_step sha1 s t" "sys_submitted t = sys_submitted s" "(burst_step sha1)\<^sup>*\<^sup>* t s'" "burst_drained t s'"
  shows "(burst_step sha1)\<^sup>*\<^sup>* s s' \<and> burst_drained s s'"
  using assms by (auto simp: burst_drained_def intro: converse_rtranclp_into_rtranclp)

lemma can_drain_done:
  assumes "burst_inv sha1 s" "slot_phase (sys_rxs s) = Done r"
  shows "\<exists>s'. (burst_step sha1)\<^sup>*\<^sup>* s s' \<and> burst_drained s s'"
proof -
  obtain t where t: "burst_step sha1 s t" "sys_submitted t = sys_submitted s" "slot_phase (sys_rxs t) = Idle"
    using drain_done [OF assms] by blast
  then have "length (sys_delivered t) = length (sys_submitted s)"
    using drained_idle [OF burst_inv_step [OF t(1) assms(1)]] by simp
  with t show ?thesis by (auto simp: burst_drained_def)
qed

lemma can_drain_finished:
  assumes "burst_inv sha1 s" "sys_pc s = TxFinished job br summary"
  shows "\<exists>s'. (burst_step sha1)\<^sup>*\<^sup>* s s' \<and> burst_drained s s'"
  using drain_finished [OF assms(2), of sha1] burst_inv_step [OF _ assms(1)] can_drain_done step_inv_drained by meson

lemma can_drain_running:
  assumes "burst_inv sha1 s" "sys_pc s = TxRunning job"
  shows "\<exists>s'. (burst_step sha1)\<^sup>*\<^sup>* s s' \<and> burst_drained s s'"
  using drain_running [OF assms(2), of sha1] burst_inv_step [OF _ assms(1)] can_drain_finished step_inv_drained by meson

lemma can_drain_queued:
  assumes "burst_inv sha1 s" "sys_pc s = TxWaiting" "slot_phase (sys_rxs s) = Queued q" "\<not> stop_requested (sys_rxs s)"
  shows "\<exists>s'. (burst_step sha1)\<^sup>*\<^sup>* s s' \<and> burst_drained s s'"
  using drain_queued [OF assms(2-4), of sha1] burst_inv_step [OF _ assms(1)] can_drain_running step_inv_drained by meson

text \<open>
  C19: no accepted burst is ever stranded. From every state the two threads can reach while
  the session is not stopping and the TX thread has not left its loop, the threads can go on
  to a state in which every accepted burst has had its outcome delivered.\<close>
theorem burst_never_stranded:
  assumes "burst_reach sha1 s" "\<not> stop_requested (sys_rxs s)" "sys_pc s \<noteq> TxExited"
  shows "\<exists>s'. (burst_step sha1)\<^sup>*\<^sup>* s s' \<and> sys_submitted s' = sys_submitted s
    \<and> length (sys_delivered s') = length (sys_submitted s)"
proof -
  have inv: "burst_inv sha1 s" using assms(1) by (rule burst_reach_inv)
  have "\<exists>s'. (burst_step sha1)\<^sup>*\<^sup>* s s' \<and> burst_drained s s'"
  proof (cases "sys_pc s")
    case TxWaiting
    show ?thesis
    proof (cases "slot_phase (sys_rxs s)")
      case Idle
      then show ?thesis using drained_idle [OF inv] by (auto simp: burst_drained_def)
    qed (use TxWaiting inv assms can_drain_queued can_drain_done in \<open>auto simp: burst_inv_def\<close>)
  qed (use inv assms can_drain_running can_drain_finished in auto)
  then show ?thesis by (simp add: burst_drained_def)
qed


definition demo_request :: tx_request_slot where
  "demo_request = \<lparr>rq_pending = True, rq_payload = bytes_of ''CTS1+hello_world()@tssent=1700000000000!'',
     rq_is_hex = False, rq_csp_hdr = demo_hdr, rq_tx_freq_hz = 436150000, rq_tx_gain_db = 60, rq_repeat = 1,
     rq_gap_ms = 200, rq_preroll_ms = 200, rq_allow_high_power = False, rq_allow_hf_tx = False,
     rq_sso_origin = [], rq_tx_source = ''manual send'', rq_summary = ''ascii:CTS1+hello_world()''\<rparr>"

definition demo_rxs :: rx_session where
  "demo_rxs = \<lparr>stop_requested = False, device_lost = False, burst_req_pending = False, burst_in_flight = False,
     burst_complete = False, burst_req = demo_request, burst_hmac_key = [], burst_result = RX_BURST_OK,
     burst_summary = [], session_db = Some []\<rparr>"

definition demo_queued :: burst_sys where
  "demo_queued = \<lparr>sys_rxs = fst (rx_session_submit_burst demo_rxs demo_request (Some [1, 2, 3])), sys_pc = TxWaiting,
     sys_submitted = [(demo_request, [1, 2, 3])], sys_ran = [], sys_delivered = []\<rparr>"

lemma demo_queued_reach: "burst_reach sha1 demo_queued"
proof -
  let ?s = "\<lparr>sys_rxs = demo_rxs, sys_pc = TxWaiting, sys_submitted = [], sys_ran = [], sys_delivered = []\<rparr>"
  have "burst_reach sha1 ?s"
    by (rule burst_reach.start) (simp add: burst_start_def slot_ok_def slot_phase_def demo_rxs_def SSO_TX_SUMMARY_N_def)
  moreover have "burst_step sha1 ?s demo_queued"
    using burst_step.submit [of ?s demo_request "Some [1, 2, 3]"]
    by (simp add: demo_queued_def rx_session_submit_burst_def demo_rxs_def burst_key_copy_def)
  ultimately show ?thesis by (rule burst_reach.step)
qed

theorem burst_handoff_fifo_witness:
  "burst_reach demo_sha1 demo_queued \<and> length (sys_submitted demo_queued) = 1
    \<and> prefix (map ran_job (sys_ran demo_queued)) (sys_submitted demo_queued)"
  using burst_handoff_fifo [OF demo_queued_reach [of demo_sha1]] demo_queued_reach [of demo_sha1]
  by (simp add: demo_queued_def)

theorem burst_never_stranded_witness:
  "\<exists>s'. (burst_step demo_sha1)\<^sup>*\<^sup>* demo_queued s' \<and> length (sys_delivered s') = 1"
  using burst_never_stranded [OF demo_queued_reach [of demo_sha1]]
  by (auto simp: demo_queued_def rx_session_submit_burst_def burst_post_def demo_rxs_def)

end
