(* ===== verification/UI_Textfield.thy ===== *)
theory UI_Textfield
  imports C_String
begin

text \<open>
  \<^verbatim>\<open>src/src/ui/ui_textfield.c\<close>: the single-line editor under every text field of the modals.
  A field is its text and its cursor; each operation returns the new field, and the
  operations that report whether they changed the text return that too. The C code is
  only defined while the cursor lies in the text, which is the invariant shown here.
\<close>

type_synonym tfield = "string \<times> int"

definition ui_tf_insert :: "nat \<Rightarrow> char \<Rightarrow> tfield \<Rightarrow> tfield \<times> bool" where
  "ui_tf_insert cap ch f =
     (case f of (buf, cursor) \<Rightarrow>
        if length buf + 1 \<ge> cap then (f, False)
        else let cur = nat (min (int (length buf)) (max 0 cursor))
             in ((take cur buf @ [ch] @ drop cur buf, int cur + 1), True))"

definition ui_tf_backspace :: "tfield \<Rightarrow> tfield \<times> bool" where
  "ui_tf_backspace f =
     (case f of (buf, cursor) \<Rightarrow>
        if cursor \<le> 0 \<or> length buf = 0 then (f, False)
        else ((take (nat cursor - 1) buf @ drop (nat cursor) buf, cursor - 1), True))"

definition ui_tf_delete :: "tfield \<Rightarrow> tfield \<times> bool" where
  "ui_tf_delete f =
     (case f of (buf, cursor) \<Rightarrow>
        if cursor \<ge> int (length buf) then (f, False)
        else ((take (nat cursor) buf @ drop (nat cursor + 1) buf, cursor), True))"

definition ui_tf_kill_to_end :: "tfield \<Rightarrow> tfield \<times> bool" where
  "ui_tf_kill_to_end f =
     (case f of (buf, cursor) \<Rightarrow>
        if cursor \<ge> int (length buf) then (f, False)
        else ((take (nat cursor) buf, cursor), True))"

definition ui_tf_left :: "tfield \<Rightarrow> tfield" where
  "ui_tf_left f = (case f of (buf, cursor) \<Rightarrow> if cursor > 0 then (buf, cursor - 1) else f)"

definition ui_tf_right :: "tfield \<Rightarrow> tfield" where
  "ui_tf_right f =
     (case f of (buf, cursor) \<Rightarrow> if cursor < int (length buf) then (buf, cursor + 1) else f)"

definition ui_tf_home :: "tfield \<Rightarrow> tfield" where
  "ui_tf_home f = (fst f, 0)"

definition ui_tf_end :: "tfield \<Rightarrow> tfield" where
  "ui_tf_end f = (fst f, int (length (fst f)))"

text \<open>The two backward scans of Ctrl-W: over blanks, then over the word.\<close>

fun scan_back :: "(char \<Rightarrow> bool) \<Rightarrow> string \<Rightarrow> nat \<Rightarrow> nat" where
  "scan_back P buf 0 = 0"
| "scan_back P buf (Suc cur) = (if P (buf ! cur) then scan_back P buf cur else Suc cur)"

definition ui_tf_kill_word_back :: "tfield \<Rightarrow> tfield \<times> bool" where
  "ui_tf_kill_word_back f =
     (case f of (buf, cursor) \<Rightarrow>
        if cursor \<le> 0 then (f, False)
        else let end' = nat cursor;
                 cur = scan_back (\<lambda>c. c \<noteq> CHR '' '') buf (scan_back (\<lambda>c. c = CHR '' '') buf end')
             in if cur = end' then (f, False)
                else ((take cur buf @ drop end' buf, int cur), True))"

definition ui_tf_clamp_cursor :: "tfield \<Rightarrow> tfield" where
  "ui_tf_clamp_cursor f =
     (case f of (buf, cursor) \<Rightarrow>
        let c1 = (if cursor < 0 then 0 else cursor)
        in (buf, if c1 > int (length buf) then int (length buf) else c1))"

section \<open>The cursor stays in the text and the text in its buffer\<close>

definition tf_ok :: "nat \<Rightarrow> tfield \<Rightarrow> bool" where
  "tf_ok cap f \<longleftrightarrow> 0 \<le> snd f \<and> snd f \<le> int (length (fst f)) \<and> length (fst f) < cap"

datatype tf_op =
    TF_Insert char | TF_Backspace | TF_Delete | TF_Kill | TF_KillWord
  | TF_Left | TF_Right | TF_Home | TF_End | TF_Clamp

fun tf_step :: "nat \<Rightarrow> tfield \<Rightarrow> tf_op \<Rightarrow> tfield" where
  "tf_step cap f (TF_Insert c) = fst (ui_tf_insert cap c f)"
| "tf_step cap f TF_Backspace = fst (ui_tf_backspace f)"
| "tf_step cap f TF_Delete = fst (ui_tf_delete f)"
| "tf_step cap f TF_Kill = fst (ui_tf_kill_to_end f)"
| "tf_step cap f TF_KillWord = fst (ui_tf_kill_word_back f)"
| "tf_step cap f TF_Left = ui_tf_left f"
| "tf_step cap f TF_Right = ui_tf_right f"
| "tf_step cap f TF_Home = ui_tf_home f"
| "tf_step cap f TF_End = ui_tf_end f"
| "tf_step cap f TF_Clamp = ui_tf_clamp_cursor f"

lemma scan_back_le: "scan_back P buf n \<le> n"
  by (induction n) (auto intro: le_SucI)

lemma tf_step_ok: "tf_ok cap f \<Longrightarrow> tf_ok cap (tf_step cap f e)"
proof (cases e)
  case TF_KillWord
  obtain buf cursor where f: "f = (buf, cursor)" by (cases f)
  let ?s = "scan_back (\<lambda>c. c = CHR '' '') buf (nat cursor)"
  have "scan_back (\<lambda>c. c \<noteq> CHR '' '') buf ?s \<le> nat cursor"
    using scan_back_le [of _ buf ?s] scan_back_le [of _ buf "nat cursor"] le_trans by blast
  then show "tf_ok cap f \<Longrightarrow> tf_ok cap (tf_step cap f e)"
    by (auto simp: TF_KillWord f tf_ok_def ui_tf_kill_word_back_def Let_def)
qed (auto simp: tf_ok_def ui_tf_insert_def ui_tf_backspace_def ui_tf_delete_def ui_tf_kill_to_end_def
    ui_tf_left_def ui_tf_right_def ui_tf_home_def ui_tf_end_def ui_tf_clamp_cursor_def Let_def
    split: prod.splits)

interpretation tf: preserved "tf_step cap" "tf_ok cap" for cap
  by unfold_locales (rule tf_step_ok)

text \<open>
  C31: Whatever sequence of editing operations is applied to a text field, the cursor stays
  inside the text and the text inside its buffer, so no operation ever moves memory outside
  it.
\<close>

theorem tf_edit_safe:
  assumes "tf_ok cap f"
  shows "tf_ok cap (foldl (tf_step cap) f es)"
  using assms by (rule tf.run_good)

theorem tf_edit_safe_witness:
  "tf_ok 5 (foldl (tf_step 5) (''ab'', 2)
     [TF_Insert CHR ''c'', TF_Left, TF_KillWord, TF_Insert CHR ''d'', TF_End, TF_Insert CHR ''e'',
      TF_Insert CHR ''f'', TF_Insert CHR ''g'', TF_Delete, TF_Backspace])"
proof -
  have "tf_ok 5 (''ab'', 2)" by (simp add: tf_ok_def)
  then show ?thesis by (rule tf_edit_safe)
qed

text \<open>Backspace undoes an insertion: the text and the cursor are as before.\<close>

lemma tf_insert_backspace:
  assumes "tf_ok cap f" and "ui_tf_insert cap c f = (f', True)"
  shows "ui_tf_backspace f' = (f, True)"
  using assms by (auto simp: tf_ok_def ui_tf_insert_def ui_tf_backspace_def Let_def min_def max_def
      nat_add_distrib split: prod.splits if_splits)

end
