(* ===== verification/Tcmd_Spec.thy ===== *)
theory Tcmd_Spec
  imports C_String
begin

text \<open>
  \<^verbatim>\<open>src/src/proto/tcmd_spec.c\<close> and \<^verbatim>\<open>tcmd_spec.h\<close>: the table of telecommands the flight
  firmware accepts, with argument counts, readiness levels and argument type codes, and
  the exact-name lookup.
\<close>

datatype tcmd_readiness =
    TCMD_READY_OPERATION | TCMD_READY_RECOVERY_OR_EXPERT | TCMD_READY_FLIGHT_TESTING
  | TCMD_READY_GROUND_ONLY | TCMD_READY_HIGH_RISK

record tcmd_spec =
  ts_name :: string
  ts_num_args :: nat
  ts_readiness :: tcmd_readiness
  ts_arg_types :: string

abbreviation (input) tcmd :: "string \<Rightarrow> nat \<Rightarrow> tcmd_readiness \<Rightarrow> string \<Rightarrow> tcmd_spec" where
  "tcmd nm n r ts \<equiv> \<lparr>ts_name = nm, ts_num_args = n, ts_readiness = r, ts_arg_types = ts\<rparr>"

definition TCMD_SPEC_FW_TAG :: string where "TCMD_SPEC_FW_TAG = ''sat-1-rc3''"

definition TCMD_SPEC :: "tcmd_spec list" where
  "TCMD_SPEC =
     [tcmd ''hello_world'' 0 TCMD_READY_OPERATION [],
      tcmd ''obc_firmware_version'' 0 TCMD_READY_OPERATION [],
      tcmd ''core_system_stats'' 0 TCMD_READY_OPERATION [],
      tcmd ''get_all_system_thermal_info'' 0 TCMD_READY_OPERATION [],
      tcmd ''get_system_time'' 0 TCMD_READY_OPERATION [],
      tcmd ''set_system_time_approx'' 1 TCMD_READY_OPERATION ''u'',
      tcmd ''set_system_time'' 1 TCMD_READY_OPERATION ''u'',
      tcmd ''correct_system_time'' 1 TCMD_READY_OPERATION ''i'',
      tcmd ''set_eps_time_based_on_obc_time'' 0 TCMD_READY_OPERATION [],
      tcmd ''set_obc_time_based_on_eps_time'' 0 TCMD_READY_OPERATION [],
      tcmd ''set_obc_time_based_on_gnss_time'' 0 TCMD_READY_OPERATION [],
      tcmd ''set_obc_time_based_on_gnss_pps'' 0 TCMD_READY_OPERATION [],
      tcmd ''available_telecommands'' 0 TCMD_READY_OPERATION [],
      tcmd ''reboot'' 0 TCMD_READY_OPERATION [],
      tcmd ''exec_blob_from_fs'' 3 TCMD_READY_RECOVERY_OR_EXPERT ''sus'',
      tcmd ''scan_i2c_bus'' 1 TCMD_READY_OPERATION ''s'',
      tcmd ''scan_i2c_bus_verbose'' 1 TCMD_READY_OPERATION ''s'',
      tcmd ''system_self_check_failures_as_json'' 0 TCMD_READY_OPERATION [],
      tcmd ''system_self_check_as_json'' 0 TCMD_READY_OPERATION [],
      tcmd ''obc_get_rbf_state'' 0 TCMD_READY_OPERATION [],
      tcmd ''uart_send_hex'' 2 TCMD_READY_OPERATION ''sh'',
      tcmd ''uart_send_str'' 2 TCMD_READY_OPERATION ''ss'',
      tcmd ''uart_send_hex_get_response_hex'' 2 TCMD_READY_OPERATION ''sh'',
      tcmd ''uart_get_last_rx_times_json'' 0 TCMD_READY_OPERATION [],
      tcmd ''uart_get_errors_json'' 0 TCMD_READY_OPERATION [],
      tcmd ''uart_set_baud_rate'' 2 TCMD_READY_OPERATION ''su'',
      tcmd ''echo_back_args'' 1 TCMD_READY_OPERATION ''s'',
      tcmd ''echo_back_uint32_args'' 3 TCMD_READY_OPERATION ''uuu'',
      tcmd ''run_all_unit_tests'' 0 TCMD_READY_OPERATION [],
      tcmd ''demo_blocking_delay'' 1 TCMD_READY_FLIGHT_TESTING ''u'',
      tcmd ''demo_os_delay'' 1 TCMD_READY_FLIGHT_TESTING ''u'',
      tcmd ''config_set_int_var'' 2 TCMD_READY_OPERATION ''su'',
      tcmd ''config_set_str_var'' 2 TCMD_READY_OPERATION ''ss'',
      tcmd ''config_get_int_var_json'' 1 TCMD_READY_OPERATION ''s'',
      tcmd ''config_get_str_var_json'' 1 TCMD_READY_OPERATION ''s'',
      tcmd ''config_get_all_vars_jsonl'' 0 TCMD_READY_OPERATION [],
      tcmd ''config_get_all_int_vars_json'' 0 TCMD_READY_OPERATION [],
      tcmd ''flash_activate_each_cs'' 0 TCMD_READY_FLIGHT_TESTING [],
      tcmd ''flash_each_is_reachable'' 0 TCMD_READY_OPERATION [],
      tcmd ''flash_read_hex'' 3 TCMD_READY_OPERATION ''uuu'',
      tcmd ''flash_write_hex'' 3 TCMD_READY_FLIGHT_TESTING ''uuh'',
      tcmd ''flash_erase'' 2 TCMD_READY_FLIGHT_TESTING ''uu'',
      tcmd ''flash_benchmark_erase_write_read'' 3 TCMD_READY_FLIGHT_TESTING ''uuu'',
      tcmd ''flash_reset'' 1 TCMD_READY_FLIGHT_TESTING ''u'',
      tcmd ''flash_read_status_register'' 1 TCMD_READY_OPERATION ''u'',
      tcmd ''flash_force_corrupt_filesystem'' 1 TCMD_READY_HIGH_RISK ''u'',
      tcmd ''fs_format_storage'' 0 TCMD_READY_RECOVERY_OR_EXPERT [],
      tcmd ''fs_mount'' 0 TCMD_READY_OPERATION [],
      tcmd ''fs_unmount'' 0 TCMD_READY_OPERATION [],
      tcmd ''fs_list_directory'' 3 TCMD_READY_OPERATION ''suu'',
      tcmd ''fs_list_directory_json'' 3 TCMD_READY_OPERATION ''suu'',
      tcmd ''fs_make_directory'' 1 TCMD_READY_OPERATION ''s'',
      tcmd ''fs_write_file_str'' 2 TCMD_READY_OPERATION ''ss'',
      tcmd ''fs_write_file_hex'' 3 TCMD_READY_OPERATION ''suh'',
      tcmd ''fs_delete_file'' 1 TCMD_READY_OPERATION ''s'',
      tcmd ''fs_delete_dir'' 1 TCMD_READY_OPERATION ''s'',
      tcmd ''fs_read_file_hex'' 3 TCMD_READY_OPERATION ''suu'',
      tcmd ''fs_read_text_file'' 3 TCMD_READY_OPERATION ''suu'',
      tcmd ''fs_read_file_sha256_hash_json'' 3 TCMD_READY_OPERATION ''suu'',
      tcmd ''fs_demo_write_then_read'' 1 TCMD_READY_FLIGHT_TESTING ''s'',
      tcmd ''fs_demo_write_random_data'' 3 TCMD_READY_FLIGHT_TESTING ''suu'',
      tcmd ''fs_benchmark_write_read'' 2 TCMD_READY_FLIGHT_TESTING ''uu'',
      tcmd ''fs_get_filesystem_stats_json'' 0 TCMD_READY_OPERATION [],
      tcmd ''fs_compress_file_with_heatshrink'' 4 TCMD_READY_OPERATION ''ssuu'',
      tcmd ''fs_count_str_occurrences'' 2 TCMD_READY_OPERATION ''ss'',
      tcmd ''fs_find_nth_str_occurrence'' 3 TCMD_READY_OPERATION ''ssu'',
      tcmd ''fs_count_hex_occurrences'' 2 TCMD_READY_OPERATION ''sh'',
      tcmd ''fs_find_nth_hex_occurrence'' 3 TCMD_READY_OPERATION ''shu'',
      tcmd ''adcs_ack'' 0 TCMD_READY_OPERATION [],
      tcmd ''adcs_set_wheel_speed'' 3 TCMD_READY_OPERATION ''iii'',
      tcmd ''adcs_reset'' 0 TCMD_READY_OPERATION [],
      tcmd ''adcs_identification'' 0 TCMD_READY_OPERATION [],
      tcmd ''adcs_program_status'' 0 TCMD_READY_OPERATION [],
      tcmd ''adcs_communication_status'' 0 TCMD_READY_OPERATION [],
      tcmd ''adcs_deploy_magnetometer'' 1 TCMD_READY_OPERATION ''u'',
      tcmd ''adcs_set_run_mode'' 1 TCMD_READY_OPERATION ''u'',
      tcmd ''adcs_clear_errors'' 0 TCMD_READY_OPERATION [],
      tcmd ''adcs_attitude_control_mode'' 2 TCMD_READY_OPERATION ''uu'',
      tcmd ''adcs_attitude_estimation_mode'' 1 TCMD_READY_OPERATION ''u'',
      tcmd ''adcs_run_once'' 0 TCMD_READY_OPERATION [],
      tcmd ''adcs_set_magnetometer_mode'' 1 TCMD_READY_OPERATION ''u'',
      tcmd ''adcs_set_magnetorquer_output'' 3 TCMD_READY_OPERATION ''ddd'',
      tcmd ''adcs_save_config'' 0 TCMD_READY_OPERATION [],
      tcmd ''adcs_estimate_angular_rates'' 0 TCMD_READY_OPERATION [],
      tcmd ''adcs_get_llh_position'' 0 TCMD_READY_OPERATION [],
      tcmd ''adcs_get_power_control'' 0 TCMD_READY_OPERATION [],
      tcmd ''adcs_set_power_control'' 10 TCMD_READY_OPERATION ''uuuuuuuuuu'',
      tcmd ''adcs_enter_low_power_mode'' 1 TCMD_READY_OPERATION ''u'',
      tcmd ''adcs_track_sun'' 0 TCMD_READY_OPERATION [],
      tcmd ''adcs_set_magnetometer_config'' 15 TCMD_READY_OPERATION ''ddddddddddddddd'',
      tcmd ''adcs_bootloader_clear_errors'' 0 TCMD_READY_OPERATION [],
      tcmd ''adcs_set_unix_time_save_mode'' 4 TCMD_READY_OPERATION ''uuuu'',
      tcmd ''adcs_get_unix_time_save_mode'' 0 TCMD_READY_OPERATION [],
      tcmd ''adcs_set_sgp4_orbit_params'' 8 TCMD_READY_OPERATION ''dddddddd'',
      tcmd ''adcs_get_sgp4_orbit_params'' 0 TCMD_READY_OPERATION [],
      tcmd ''adcs_save_orbit_params'' 0 TCMD_READY_OPERATION [],
      tcmd ''adcs_rate_sensor_rates'' 0 TCMD_READY_OPERATION [],
      tcmd ''adcs_get_wheel_speed'' 0 TCMD_READY_OPERATION [],
      tcmd ''adcs_get_magnetorquer_command'' 0 TCMD_READY_OPERATION [],
      tcmd ''adcs_get_raw_magnetometer_values'' 0 TCMD_READY_OPERATION [],
      tcmd ''adcs_estimate_fine_angular_rates'' 0 TCMD_READY_OPERATION [],
      tcmd ''adcs_get_magnetometer_config'' 0 TCMD_READY_OPERATION [],
      tcmd ''adcs_get_commanded_attitude_angles'' 0 TCMD_READY_OPERATION [],
      tcmd ''adcs_set_commanded_attitude_angles'' 3 TCMD_READY_OPERATION ''ddd'',
      tcmd ''adcs_set_estimation_params'' 17 TCMD_READY_OPERATION ''ddddddduuuuuuuuuu'',
      tcmd ''adcs_get_estimation_params'' 0 TCMD_READY_OPERATION [],
      tcmd ''adcs_set_augmented_sgp4_params'' 17 TCMD_READY_OPERATION ''ddddddduddudduddu'',
      tcmd ''adcs_get_augmented_sgp4_params'' 0 TCMD_READY_OPERATION [],
      tcmd ''adcs_set_tracking_controller_target_reference'' 3 TCMD_READY_OPERATION ''ddd'',
      tcmd ''adcs_get_tracking_controller_target_reference'' 0 TCMD_READY_OPERATION [],
      tcmd ''adcs_set_rate_gyro_config'' 7 TCMD_READY_OPERATION ''uuudddu'',
      tcmd ''adcs_get_rate_gyro_config'' 0 TCMD_READY_OPERATION [],
      tcmd ''adcs_estimated_attitude_angles'' 0 TCMD_READY_OPERATION [],
      tcmd ''adcs_magnetic_field_vector'' 0 TCMD_READY_OPERATION [],
      tcmd ''adcs_fine_sun_vector'' 0 TCMD_READY_OPERATION [],
      tcmd ''adcs_nadir_vector'' 0 TCMD_READY_OPERATION [],
      tcmd ''adcs_commanded_wheel_speed'' 0 TCMD_READY_OPERATION [],
      tcmd ''adcs_igrf_magnetic_field_vector'' 0 TCMD_READY_OPERATION [],
      tcmd ''adcs_quaternion_error_vector'' 0 TCMD_READY_OPERATION [],
      tcmd ''adcs_estimated_gyro_bias'' 0 TCMD_READY_OPERATION [],
      tcmd ''adcs_estimation_innovation_vector'' 0 TCMD_READY_OPERATION [],
      tcmd ''adcs_raw_cam1_sensor'' 0 TCMD_READY_OPERATION [],
      tcmd ''adcs_raw_cam2_sensor'' 0 TCMD_READY_OPERATION [],
      tcmd ''adcs_raw_coarse_sun_sensor_1_to_6'' 0 TCMD_READY_OPERATION [],
      tcmd ''adcs_raw_coarse_sun_sensor_7_to_10'' 0 TCMD_READY_OPERATION [],
      tcmd ''adcs_cubecontrol_current'' 0 TCMD_READY_OPERATION [],
      tcmd ''adcs_measurements'' 0 TCMD_READY_OPERATION [],
      tcmd ''adcs_download_sd_file_by_index'' 1 TCMD_READY_OPERATION ''u'',
      tcmd ''adcs_download_sd_file_by_checksum'' 1 TCMD_READY_OPERATION ''h'',
      tcmd ''adcs_generic_command'' 2 TCMD_READY_OPERATION ''uh'',
      tcmd ''adcs_generic_bootloader_command'' 2 TCMD_READY_OPERATION ''uh'',
      tcmd ''adcs_generic_telemetry_request'' 2 TCMD_READY_OPERATION ''uu'',
      tcmd ''adcs_acp_execution_state'' 0 TCMD_READY_OPERATION [],
      tcmd ''adcs_get_current_state_1'' 0 TCMD_READY_OPERATION [],
      tcmd ''adcs_save_image_to_sd'' 2 TCMD_READY_OPERATION ''uu'',
      tcmd ''adcs_request_commissioning_telemetry'' 3 TCMD_READY_OPERATION ''uuu'',
      tcmd ''adcs_synchronize_unix_time'' 0 TCMD_READY_OPERATION [],
      tcmd ''adcs_get_current_unix_time'' 0 TCMD_READY_OPERATION [],
      tcmd ''adcs_set_sd_log_config'' 4 TCMD_READY_OPERATION ''uhuu'',
      tcmd ''adcs_get_sd_log_config'' 1 TCMD_READY_OPERATION ''u'',
      tcmd ''adcs_format_sd'' 0 TCMD_READY_OPERATION [],
      tcmd ''adcs_download_index_file'' 2 TCMD_READY_OPERATION ''uu'',
      tcmd ''adcs_set_commissioning_modes'' 2 TCMD_READY_OPERATION ''uu'',
      tcmd ''adcs_erase_sd_file_by_index'' 1 TCMD_READY_OPERATION ''u'',
      tcmd ''adcs_erase_sd_file_by_checksum'' 1 TCMD_READY_OPERATION ''h'',
      tcmd ''adcs_exit_bootloader'' 0 TCMD_READY_OPERATION [],
      tcmd ''adcs_convert_to_jpg_by_index'' 3 TCMD_READY_OPERATION ''uuu'',
      tcmd ''adcs_convert_to_jpg_by_checksum'' 3 TCMD_READY_OPERATION ''huu'',
      tcmd ''adcs_get_wheel_currents'' 0 TCMD_READY_OPERATION [],
      tcmd ''adcs_get_cubesense_currents'' 0 TCMD_READY_OPERATION [],
      tcmd ''adcs_get_misc_currents'' 0 TCMD_READY_OPERATION [],
      tcmd ''log_set_sink_enabled_state'' 2 TCMD_READY_OPERATION ''uu'',
      tcmd ''log_set_system_file_logging_enabled_state'' 2 TCMD_READY_OPERATION ''uu'',
      tcmd ''log_report_all_sink_enabled_states'' 0 TCMD_READY_OPERATION [],
      tcmd ''log_report_all_system_file_logging_states'' 0 TCMD_READY_OPERATION [],
      tcmd ''log_set_sink_debugging_messages_state'' 2 TCMD_READY_OPERATION ''uu'',
      tcmd ''log_set_system_severity_mask'' 2 TCMD_READY_OPERATION ''uu'',
      tcmd ''log_set_system_debugging_messages_state'' 2 TCMD_READY_OPERATION ''uu'',
      tcmd ''log_report_messages_from_memory'' 2 TCMD_READY_OPERATION ''uu'',
      tcmd ''log_report_n_latest_messages_from_memory'' 1 TCMD_READY_OPERATION ''u'',
      tcmd ''freetos_list_tasks_jsonl'' 0 TCMD_READY_OPERATION [],
      tcmd ''freertos_demo_stack_usage'' 1 TCMD_READY_FLIGHT_TESTING ''u'',
      tcmd ''eps_watchdog'' 0 TCMD_READY_OPERATION [],
      tcmd ''eps_system_reset'' 0 TCMD_READY_RECOVERY_OR_EXPERT [],
      tcmd ''eps_no_operation'' 0 TCMD_READY_OPERATION [],
      tcmd ''eps_cancel_operation'' 0 TCMD_READY_OPERATION [],
      tcmd ''eps_switch_to_mode'' 1 TCMD_READY_OPERATION ''s'',
      tcmd ''eps_set_channel_enabled'' 2 TCMD_READY_OPERATION ''su'',
      tcmd ''eps_get_system_status_json'' 0 TCMD_READY_OPERATION [],
      tcmd ''eps_get_pdu_overcurrent_fault_state_json'' 0 TCMD_READY_OPERATION [],
      tcmd ''eps_get_pbu_abf_placed_state_json'' 0 TCMD_READY_OPERATION [],
      tcmd ''eps_get_pdu_data_for_channel_json'' 1 TCMD_READY_OPERATION ''s'',
      tcmd ''eps_get_pdu_housekeeping_data_eng_json'' 0 TCMD_READY_OPERATION [],
      tcmd ''eps_get_pdu_active_channels_data_json'' 0 TCMD_READY_OPERATION [],
      tcmd ''eps_get_pdu_active_channels_data_run_avg_json'' 0 TCMD_READY_OPERATION [],
      tcmd ''eps_get_pdu_housekeeping_data_run_avg_json'' 0 TCMD_READY_OPERATION [],
      tcmd ''eps_get_pbu_housekeeping_data_eng_json'' 0 TCMD_READY_OPERATION [],
      tcmd ''eps_get_pbu_housekeeping_data_run_avg_json'' 0 TCMD_READY_OPERATION [],
      tcmd ''eps_get_pcu_housekeeping_data_eng_json'' 0 TCMD_READY_OPERATION [],
      tcmd ''eps_get_pcu_housekeeping_data_run_avg_json'' 0 TCMD_READY_OPERATION [],
      tcmd ''eps_get_piu_housekeeping_data_eng_json'' 0 TCMD_READY_OPERATION [],
      tcmd ''eps_get_piu_housekeeping_data_run_avg_json'' 0 TCMD_READY_OPERATION [],
      tcmd ''eps_get_enabled_channels_json'' 0 TCMD_READY_OPERATION [],
      tcmd ''eps_get_current_battery_percent'' 0 TCMD_READY_OPERATION [],
      tcmd ''eps_power_management_set_current_threshold'' 2 TCMD_READY_OPERATION ''su'',
      tcmd ''agenda_fetch_json_grouped'' 0 TCMD_READY_OPERATION [],
      tcmd ''agenda_fetch_logged_jsonl'' 0 TCMD_READY_OPERATION [],
      tcmd ''agenda_delete_all'' 0 TCMD_READY_OPERATION [],
      tcmd ''agenda_delete_by_tssent'' 1 TCMD_READY_OPERATION ''u'',
      tcmd ''agenda_delete_by_name'' 1 TCMD_READY_OPERATION ''s'',
      tcmd ''agenda_enqueue_from_file'' 3 TCMD_READY_OPERATION ''suu'',
      tcmd ''mpi_send_command_get_response_hex'' 1 TCMD_READY_OPERATION ''h'',
      tcmd ''mpi_demo_tx_to_mpi'' 0 TCMD_READY_GROUND_ONLY [],
      tcmd ''mpi_set_transceiver_mode'' 1 TCMD_READY_OPERATION ''s'',
      tcmd ''mpi_enable_active_mode'' 1 TCMD_READY_OPERATION ''s'',
      tcmd ''mpi_disable_active_mode'' 0 TCMD_READY_OPERATION [],
      tcmd ''stm32_internal_flash_read'' 2 TCMD_READY_RECOVERY_OR_EXPERT ''hu'',
      tcmd ''stm32_internal_flash_write'' 2 TCMD_READY_HIGH_RISK ''hh'',
      tcmd ''stm32_internal_flash_page_erase'' 3 TCMD_READY_HIGH_RISK ''uuu'',
      tcmd ''stm32_internal_flash_bank_erase'' 1 TCMD_READY_HIGH_RISK ''u'',
      tcmd ''stm32_internal_flash_get_option_bytes'' 0 TCMD_READY_HIGH_RISK [],
      tcmd ''stm32_internal_flash_get_active_flash_bank'' 0 TCMD_READY_HIGH_RISK [],
      tcmd ''stm32_internal_flash_set_active_flash_bank'' 1 TCMD_READY_HIGH_RISK ''u'',
      tcmd ''stm32_internal_flash_write_file_to_internal_flash'' 4 TCMD_READY_HIGH_RISK ''suuu'',
      tcmd ''stm32_internal_flash_calculate_sha256'' 2 TCMD_READY_RECOVERY_OR_EXPERT ''uu'',
      tcmd ''ant_reset'' 1 TCMD_READY_OPERATION ''s'',
      tcmd ''ant_arm_antenna_system'' 1 TCMD_READY_OPERATION ''s'',
      tcmd ''ant_disarm_antenna_system'' 1 TCMD_READY_OPERATION ''s'',
      tcmd ''ant_deploy_antenna'' 3 TCMD_READY_OPERATION ''suu'',
      tcmd ''ant_start_automated_antenna_deployment'' 2 TCMD_READY_OPERATION ''su'',
      tcmd ''ant_deploy_antenna_with_override'' 3 TCMD_READY_OPERATION ''suu'',
      tcmd ''ant_cancel_deployment_system_activation'' 1 TCMD_READY_OPERATION ''s'',
      tcmd ''ant_measure_temp'' 1 TCMD_READY_OPERATION ''s'',
      tcmd ''ant_report_deployment_status'' 1 TCMD_READY_OPERATION ''s'',
      tcmd ''ant_report_antenna_deployment_activation_count'' 2 TCMD_READY_OPERATION ''su'',
      tcmd ''ant_report_antenna_deployment_activation_time'' 2 TCMD_READY_OPERATION ''su'',
      tcmd ''obc_read_temperature_complex'' 1 TCMD_READY_OPERATION ''s'',
      tcmd ''obc_read_temperature'' 0 TCMD_READY_OPERATION [],
      tcmd ''obc_adc_read_vbat_voltage'' 0 TCMD_READY_OPERATION [],
      tcmd ''obc_set_stm32_sysclk_to_hse'' 0 TCMD_READY_OPERATION [],
      tcmd ''comms_set_rf_switch_control_mode'' 1 TCMD_READY_FLIGHT_TESTING ''s'',
      tcmd ''comms_get_rf_switch_info'' 0 TCMD_READY_OPERATION [],
      tcmd ''comms_bulk_file_downlink_start'' 3 TCMD_READY_OPERATION ''suu'',
      tcmd ''comms_bulk_file_downlink_pause'' 0 TCMD_READY_OPERATION [],
      tcmd ''comms_bulk_file_downlink_resume'' 0 TCMD_READY_OPERATION [],
      tcmd ''comms_bulk_uplink_open_file'' 2 TCMD_READY_OPERATION ''ss'',
      tcmd ''comms_bulk_uplink_close_file'' 0 TCMD_READY_OPERATION [],
      tcmd ''comms_bulk_uplink_write_bytes_hex'' 1 TCMD_READY_OPERATION ''h'',
      tcmd ''bulkup16'' 1 TCMD_READY_OPERATION ''h'',
      tcmd ''comms_bulk_uplink_write_bytes_base64'' 1 TCMD_READY_OPERATION ''b'',
      tcmd ''bulkup64'' 1 TCMD_READY_OPERATION ''b'',
      tcmd ''comms_bulk_uplink_seek'' 1 TCMD_READY_OPERATION ''u'',
      tcmd ''gnss_send_cmd_ascii'' 1 TCMD_READY_OPERATION ''s'',
      tcmd ''gnss_send_cmd_ascii_get_response_hex'' 1 TCMD_READY_OPERATION ''s'',
      tcmd ''gnss_enable_firehose_storage_mode'' 1 TCMD_READY_OPERATION ''s'',
      tcmd ''gnss_disable_firehose_storage_mode'' 0 TCMD_READY_OPERATION [],
      tcmd ''camera_setup'' 0 TCMD_READY_OPERATION [],
      tcmd ''camera_test'' 0 TCMD_READY_RECOVERY_OR_EXPERT [],
      tcmd ''camera_change_baud_rate'' 1 TCMD_READY_RECOVERY_OR_EXPERT ''s'',
      tcmd ''camera_capture'' 2 TCMD_READY_OPERATION ''ss'',
      tcmd ''boom_deploy_timed'' 2 TCMD_READY_RECOVERY_OR_EXPERT ''uu'',
      tcmd ''boom_self_check'' 0 TCMD_READY_OPERATION []]"

fun tcmd_readiness_label :: "tcmd_readiness \<Rightarrow> string" where
  "tcmd_readiness_label TCMD_READY_OPERATION = ''operation''"
| "tcmd_readiness_label TCMD_READY_RECOVERY_OR_EXPERT = ''recovery/expert''"
| "tcmd_readiness_label TCMD_READY_FLIGHT_TESTING = ''flight-testing''"
| "tcmd_readiness_label TCMD_READY_GROUND_ONLY = ''ground-only''"
| "tcmd_readiness_label TCMD_READY_HIGH_RISK = ''high-risk/unsafe''"

definition tcmd_spec_find :: "string \<Rightarrow> tcmd_spec option" where
  "tcmd_spec_find nm = find (\<lambda>sp. ts_name sp = nm) TCMD_SPEC"

lemma tcmd_spec_find_name: "tcmd_spec_find nm = Some sp \<Longrightarrow> ts_name sp = nm \<and> sp \<in> set TCMD_SPEC"
  by (auto simp: tcmd_spec_find_def find_Some_iff)

text \<open>Every row has one type code per argument.\<close>

lemma tcmd_spec_types: "sp \<in> set TCMD_SPEC \<Longrightarrow> length (ts_arg_types sp) = ts_num_args sp"
proof -
  have "list_all (\<lambda>sp. length (ts_arg_types sp) = ts_num_args sp) TCMD_SPEC"
    by (simp add: TCMD_SPEC_def)
  then show "sp \<in> set TCMD_SPEC \<Longrightarrow> length (ts_arg_types sp) = ts_num_args sp"
    by (simp add: list_all_iff)
qed

end
