(* ===== verification/SSO_Pseudo.thy ===== *)
theory SSO_Pseudo
  imports Agenda_Line
begin

text \<open>
  \<^verbatim>\<open>src/src/proto/sso_pseudo.c\<close>: the \<open>SSO+name()!\<close> pseudo-commands that the ground software
  expands into concrete telecommands with the clocks of the moment. A result is the status,
  the contents of the output buffer and the error text, each cut to its buffer.
\<close>

datatype sso_pseudo_status =
    SSO_PSEUDO_OK | SSO_PSEUDO_NOT_PSEUDO | SSO_PSEUDO_UNKNOWN_CMD
  | SSO_PSEUDO_BAD_SYNTAX | SSO_PSEUDO_TRUNCATED

record sso_pseudo_ctx =
  now_ms :: int
  tssent_ms :: int

record sso_pseudo_spec =
  sp_name :: string
  sp_num_args :: nat

definition SSO_PSEUDO_PREFIX :: string where "SSO_PSEUDO_PREFIX = ''SSO+''"

definition SSO_TIME_SYNC_BUDGET_MS :: int where "SSO_TIME_SYNC_BUDGET_MS = 500"

text \<open>\<^verbatim>\<open>long long\<close> addition wraps at 64 bits.\<close>

definition add_ll :: "int \<Rightarrow> int \<Rightarrow> int" where
  "add_ll a b = (a + b + 2 ^ 63) mod 2 ^ 64 - 2 ^ 63"

definition expand_sync_sat_time_to_ground ::
  "string \<Rightarrow> sso_pseudo_ctx \<Rightarrow> nat \<Rightarrow> sso_pseudo_status \<times> string" where
  "expand_sync_sat_time_to_ground args ctx out_cap =
     (let arg = add_ll (now_ms ctx) SSO_TIME_SYNC_BUDGET_MS;
          text = ''CTS1+set_system_time('' @ show_int arg @ '')@tssent='' @ show_int (tssent_ms ctx) @ ''!''
      in (if length text \<ge> out_cap then SSO_PSEUDO_TRUNCATED else SSO_PSEUDO_OK, snprintf out_cap text))"

text \<open>The registry pairs each name with its argument count and its expander.\<close>

definition SSO_PSEUDO_SPEC ::
  "(sso_pseudo_spec \<times> (string \<Rightarrow> sso_pseudo_ctx \<Rightarrow> nat \<Rightarrow> sso_pseudo_status \<times> string)) list" where
  "SSO_PSEUDO_SPEC =
     [(\<lparr>sp_name = ''sync_sat_time_to_ground'', sp_num_args = 0\<rparr>, expand_sync_sat_time_to_ground)]"

definition is_name_char :: "char \<Rightarrow> bool" where
  "is_name_char c \<longleftrightarrow> isalnum c \<or> c = CHR ''_''"

definition spec_find ::
  "string \<Rightarrow> (sso_pseudo_spec \<times> (string \<Rightarrow> sso_pseudo_ctx \<Rightarrow> nat \<Rightarrow> sso_pseudo_status \<times> string)) option" where
  "spec_find nm = find (\<lambda>(sp, _). sp_name sp = nm) SSO_PSEUDO_SPEC"

definition sso_pseudo_is_directed :: "string \<Rightarrow> bool" where
  "sso_pseudo_is_directed cmd = has_prefix SSO_PSEUDO_PREFIX cmd"

text \<open>The argument count as the firmware computes it.\<close>

definition provided_args :: "string \<Rightarrow> nat" where
  "provided_args args = (if args = [] then 0 else length (filter (\<lambda>c. c = CHR '','') args) + 1)"

definition plural_s :: "nat \<Rightarrow> string" where
  "plural_s n = (if n = 1 then [] else ''s'')"

definition sso_pseudo_expand ::
  "string \<Rightarrow> sso_pseudo_ctx \<Rightarrow> nat \<Rightarrow> nat \<Rightarrow> sso_pseudo_status \<times> string \<times> string" where
  "sso_pseudo_expand cmd ctx out_cap err_cap =
     (let fail = (\<lambda>st text. (st, [], snprintf err_cap text));
          bad = fail SSO_PSEUDO_BAD_SYNTAX
      in if out_cap = 0 then bad ''null argument''
         else if \<not> sso_pseudo_is_directed cmd then (SSO_PSEUDO_NOT_PSEUDO, snprintf out_cap cmd, [])
         else
           let rest = drop (length SSO_PSEUDO_PREFIX) cmd;
               nm = takeWhile is_name_char rest;
               after = drop (length nm) rest;
               bang_count = length (filter (\<lambda>c. c = CHR ''!'') rest)
           in if nm = [] then bad (''missing command name after '' @ quoted ''SSO+'')
              else if bang_count = 0 then bad (''missing terminating '' @ quoted ''!'')
              else if bang_count > 1 then bad (''more than one '' @ quoted ''!'' @ '' (two commands on one line?)'')
              else if after = [] \<or> hd after \<noteq> CHR ''('' then bad (''missing '' @ quoted ''('' @ '' after SSO+ command name'')
              else if CHR '')'' \<notin> set after then bad (''missing '' @ quoted '')'' @ '' to close the SSO+ argument list'')
              else
                let args = takeWhile (\<lambda>c. c \<noteq> CHR '')'') (tl after)
                in case spec_find nm of
                     None \<Rightarrow> fail SSO_PSEUDO_UNKNOWN_CMD
                               (snprintf 96 (''unknown SSO+ command '' @ quoted nm))
                   | Some (sp, ex) \<Rightarrow>
                       if provided_args args \<noteq> sp_num_args sp
                       then bad (snprintf 96 (''SSO+ '' @ quoted (sp_name sp) @ '' expects '' @
                              show_nat (sp_num_args sp) @ '' arg'' @ plural_s (sp_num_args sp) @
                              '', got '' @ show_nat (provided_args args)))
                       else (case ex args ctx out_cap of (st, out) \<Rightarrow> (st, out, [])))"

fun sso_pseudo_status_label :: "sso_pseudo_status \<Rightarrow> string" where
  "sso_pseudo_status_label SSO_PSEUDO_OK = ''ok''"
| "sso_pseudo_status_label SSO_PSEUDO_NOT_PSEUDO = ''not an SSO+ command''"
| "sso_pseudo_status_label SSO_PSEUDO_UNKNOWN_CMD = ''unknown SSO+ command''"
| "sso_pseudo_status_label SSO_PSEUDO_BAD_SYNTAX = ''malformed SSO+ command''"
| "sso_pseudo_status_label SSO_PSEUDO_TRUNCATED = ''expansion too long''"

end
