(* ===== verification/Tcmd_Lint.thy ===== *)
theory Tcmd_Lint
  imports Tcmd_Spec SSO_Pseudo
begin

text \<open>
  \<^verbatim>\<open>src/src/proto/tcmd_lint.c\<close>: the linter that decides, before anything is transmitted,
  whether the satellite's parser would accept a telecommand and whether it is on the ground
  blacklist. The message buffer is modelled with its capacity (0 for a NULL buffer); the
  linter's state is the text so far and the worst severity.
\<close>

section \<open>Severities and the message buffer\<close>

datatype tcmd_lint_severity = TCMD_LINT_OK | TCMD_LINT_WARN | TCMD_LINT_ERROR | TCMD_LINT_DANGER

fun severity_value :: "tcmd_lint_severity \<Rightarrow> nat" where
  "severity_value TCMD_LINT_OK = 0"
| "severity_value TCMD_LINT_WARN = 1"
| "severity_value TCMD_LINT_ERROR = 2"
| "severity_value TCMD_LINT_DANGER = 3"

lemma severity_value_inj: "severity_value a = severity_value b \<longleftrightarrow> a = b"
  by (cases a; cases b) simp_all

instantiation tcmd_lint_severity :: linorder
begin

definition less_eq_tcmd_lint_severity :: "tcmd_lint_severity \<Rightarrow> tcmd_lint_severity \<Rightarrow> bool" where
  "less_eq_tcmd_lint_severity a b \<longleftrightarrow> severity_value a \<le> severity_value b"

definition less_tcmd_lint_severity :: "tcmd_lint_severity \<Rightarrow> tcmd_lint_severity \<Rightarrow> bool" where
  "less_tcmd_lint_severity a b \<longleftrightarrow> severity_value a < severity_value b"

instance
  by standard
     (auto simp: less_eq_tcmd_lint_severity_def less_tcmd_lint_severity_def simp flip: severity_value_inj)

end

type_synonym lint_state = "string \<times> tcmd_lint_severity"

definition flag :: "nat \<Rightarrow> tcmd_lint_severity \<Rightarrow> string \<Rightarrow> lint_state \<Rightarrow> lint_state" where
  "flag cap sev text st =
     (case st of (msg, worst) \<Rightarrow>
        let worst' = (if sev > worst then sev else worst)
        in if cap = 0 then (msg, worst')
           else
             let msg' = (if length msg > 0 \<and> length msg + 2 < cap then msg @ ''; '' else msg);
                 room = (if length msg' < cap then cap - 1 - length msg' else 0)
             in (msg' @ take room text, worst'))"

section \<open>Argument validators\<close>

definition tcmd_dangerous_substrings :: "(string \<times> string) list" where
  "tcmd_dangerous_substrings =
     [(''default_tcmd_agenda.txt'',
       ''names the boot-time agenda '' @ quoted ''default_tcmd_agenda.txt'' @ ''; bad contents would boot-loop the satellite'')]"

definition arg_ok_uint64 :: "string \<Rightarrow> bool" where
  "arg_ok_uint64 s \<longleftrightarrow> \<not> (length s < 1 \<or> length s > 19) \<and> list_all isdigit s"

definition arg_ok_int64 :: "string \<Rightarrow> bool" where
  "arg_ok_int64 s \<longleftrightarrow> s \<noteq> [] \<and> list_all isdigit (if hd s = CHR ''-'' then tl s else s)"

fun arg_ok_double_from :: "nat \<Rightarrow> nat \<Rightarrow> bool \<Rightarrow> string \<Rightarrow> bool" where
  "arg_ok_double_from n i seen_dot [] = True"
| "arg_ok_double_from n i seen_dot (c # cs) =
     (if i = 0 \<and> c = CHR ''-'' then arg_ok_double_from n (i + 1) seen_dot cs
      else if c = CHR ''.'' \<and> \<not> seen_dot \<and> i \<noteq> 0 \<and> i \<noteq> n - 1 then arg_ok_double_from n (i + 1) True cs
      else isdigit c \<and> arg_ok_double_from n (i + 1) seen_dot cs)"

definition arg_ok_double :: "string \<Rightarrow> bool" where
  "arg_ok_double s \<longleftrightarrow> s \<noteq> [] \<and> arg_ok_double_from (length s) 0 False s"

fun arg_ok_hex_from :: "nat \<Rightarrow> string \<Rightarrow> bool" where
  "arg_ok_hex_from nibbles [] = (nibbles mod 2 = 0)"
| "arg_ok_hex_from nibbles (c # cs) =
     (if c = CHR '' '' \<or> c = CHR ''_''
      then nibbles mod 2 = 0 \<and> arg_ok_hex_from nibbles cs
      else isxdigit c \<and> arg_ok_hex_from (nibbles + 1) cs)"

definition arg_ok_hex :: "string \<Rightarrow> bool" where
  "arg_ok_hex s = arg_ok_hex_from 0 s"

definition is_b64 :: "char \<Rightarrow> bool" where
  "is_b64 c \<longleftrightarrow> isupper c \<or> islower c \<or> isdigit c \<or>
     c = CHR ''+'' \<or> c = CHR ''/'' \<or> c = CHR ''-'' \<or> c = CHR ''_'' \<or> c = CHR ''=''"

fun arg_ok_base64_from :: "nat \<Rightarrow> string \<Rightarrow> bool" where
  "arg_ok_base64_from q [] = (q = 0)"
| "arg_ok_base64_from q (c # cs) =
     (if c = CHR '' '' then \<not> (q \<noteq> 0 \<and> q \<noteq> 4) \<and> arg_ok_base64_from q cs
      else is_b64 c \<and> arg_ok_base64_from (if q + 1 = 4 then 0 else q + 1) cs)"

definition arg_ok_base64 :: "string \<Rightarrow> bool" where
  "arg_ok_base64 s = arg_ok_base64_from 0 s"

definition arg_token_ok :: "char \<Rightarrow> string \<Rightarrow> bool" where
  "arg_token_ok type_code tok =
     (if type_code = CHR ''u'' then arg_ok_uint64 tok
      else if type_code = CHR ''i'' then arg_ok_int64 tok
      else if type_code = CHR ''d'' then arg_ok_double tok
      else if type_code = CHR ''h'' then arg_ok_hex tok
      else if type_code = CHR ''b'' then arg_ok_base64 tok
      else True)"

definition arg_type_expectation :: "char \<Rightarrow> string" where
  "arg_type_expectation type_code =
     (if type_code = CHR ''u'' then ''an unsigned integer (digits only)''
      else if type_code = CHR ''i'' then ''an integer''
      else if type_code = CHR ''d'' then ''a decimal number''
      else if type_code = CHR ''h'' then ''hex bytes''
      else if type_code = CHR ''b'' then ''base64''
      else ''a value'')"

section \<open>Linting one command\<close>

definition TCMD_PREFIX :: string where "TCMD_PREFIX = ''CTS1+''"
definition TCMD_MAX_FULL_LEN :: nat where "TCMD_MAX_FULL_LEN = 255"
definition TCMD_MAX_ARGS_LEN :: nat where "TCMD_MAX_ARGS_LEN = 240"
definition TCMD_RF_MAX_LEN :: nat where "TCMD_RF_MAX_LEN = 215"

definition lint_length :: "nat \<Rightarrow> string \<Rightarrow> lint_state \<Rightarrow> lint_state" where
  "lint_length cap cmd st =
     (if length cmd \<ge> TCMD_MAX_FULL_LEN
      then flag cap TCMD_LINT_ERROR ''exceeds firmware max telecommand length (255 chars)'' st
      else if length cmd > TCMD_RF_MAX_LEN
      then flag cap TCMD_LINT_WARN
             (snprintf 120 (show_nat (length cmd) @ '' chars: over the '' @ show_nat TCMD_RF_MAX_LEN @
                ''-char RF uplink limit, won'' @ [CHR 0x27] @ ''t fit one radio frame (umbilical only)'')) st
      else st)"

definition lint_danger :: "nat \<Rightarrow> string \<Rightarrow> lint_state \<Rightarrow> lint_state" where
  "lint_danger cap cmd st =
     foldl (\<lambda>s (substr, why). if has_substr substr cmd then flag cap TCMD_LINT_DANGER why s else s)
       st tcmd_dangerous_substrings"

definition bang_count :: "string \<Rightarrow> nat" where
  "bang_count cmd = length (filter (\<lambda>c. c = CHR ''!'') (drop (length TCMD_PREFIX) cmd))"

definition lint_bang :: "nat \<Rightarrow> string \<Rightarrow> lint_state \<Rightarrow> lint_state" where
  "lint_bang cap cmd st =
     (if bang_count cmd = 0 then flag cap TCMD_LINT_ERROR (''missing terminating '' @ quoted ''!'') st
      else if bang_count cmd > 1
      then flag cap TCMD_LINT_ERROR (''more than one '' @ quoted ''!'' @ '' (two commands on one line?)'') st
      else st)"

text \<open>The raw text between two commas, no trimming; the last token ends at the parenthesis.\<close>

fun split_commas :: "string \<Rightarrow> string \<Rightarrow> string list" where
  "split_commas cur [] = [rev cur]"
| "split_commas cur (c # cs) = (if c = CHR '','' then rev cur # split_commas [] cs else split_commas (c # cur) cs)"

text \<open>The offending token as it is echoed: at most 36 characters, then three dots.\<close>

definition echo_token :: "string \<Rightarrow> string" where
  "echo_token tok = (if length tok < 36 then tok else take 36 tok @ (if length tok > 36 then ''...'' else []))"

fun lint_tokens :: "nat \<Rightarrow> nat \<Rightarrow> string \<Rightarrow> string list \<Rightarrow> lint_state \<Rightarrow> lint_state" where
  "lint_tokens cap ai (tc # tcs) (tok # toks) st =
     lint_tokens cap (ai + 1) tcs toks
       (if arg_token_ok tc tok then st
        else flag cap TCMD_LINT_ERROR
               (snprintf 160 (''arg '' @ show_nat ai @ '' expects '' @ arg_type_expectation tc @
                  ''; the satellite would reject '' @ [CHR 0x22] @ echo_token tok @ [CHR 0x22])) st)"
| "lint_tokens cap ai _ _ st = st"

definition lint_args :: "nat \<Rightarrow> tcmd_spec \<Rightarrow> string \<Rightarrow> lint_state \<Rightarrow> lint_state" where
  "lint_args cap spec args st =
     (let provided = provided_args args;
          st1 = (if provided \<noteq> ts_num_args spec
                 then flag cap TCMD_LINT_ERROR
                        (snprintf 96 (quoted (ts_name spec) @ '' expects '' @ show_nat (ts_num_args spec) @
                           '' arg'' @ plural_s (ts_num_args spec) @ '', got '' @ show_nat provided)) st
                 else st);
          st2 = (if ts_readiness spec \<noteq> TCMD_READY_OPERATION
                 then flag cap TCMD_LINT_WARN
                        (snprintf 128 (''readiness '' @ quoted (tcmd_readiness_label (ts_readiness spec)) @
                           '' -- not for routine flight operation'')) st1
                 else st1)
      in if provided = ts_num_args spec \<and> ts_num_args spec > 0 \<and>
            length (ts_arg_types spec) = ts_num_args spec
         then lint_tokens cap 0 (ts_arg_types spec) (split_commas [] args) st2
         else st2)"

definition lint_tag :: "nat \<Rightarrow> string \<Rightarrow> string \<Rightarrow> string \<Rightarrow> lint_state \<Rightarrow> lint_state" where
  "lint_tag cap key what cmd st =
     (if has_substr key cmd \<and> agenda_parse_directive_ms cmd key = None
      then flag cap TCMD_LINT_ERROR (''malformed '' @ key @ what) st else st)"

text \<open>
  The pieces the code finds by index: the name after the prefix, what follows it, and the
  text between the parentheses.
\<close>

definition cmd_name :: "string \<Rightarrow> string" where
  "cmd_name cmd = takeWhile is_name_char (drop (length TCMD_PREFIX) cmd)"

definition cmd_after :: "string \<Rightarrow> string" where
  "cmd_after cmd = drop (length (cmd_name cmd)) (drop (length TCMD_PREFIX) cmd)"

definition cmd_args :: "string \<Rightarrow> string" where
  "cmd_args cmd = takeWhile (\<lambda>c. c \<noteq> CHR '')'') (tl (cmd_after cmd))"

text \<open>The checks on a command that is not an \<open>SSO+\<close> line, with the early returns of the code.\<close>

definition lint_body :: "nat \<Rightarrow> string \<Rightarrow> lint_state \<Rightarrow> lint_state" where
  "lint_body cap cmd st =
     (let spec = tcmd_spec_find (cmd_name cmd);
          st1 = (if length (cmd_args cmd) \<ge> TCMD_MAX_ARGS_LEN
                 then flag cap TCMD_LINT_ERROR ''argument string exceeds firmware limit (240 chars)'' st
                 else st);
          st2 = (case spec of None \<Rightarrow> st1 | Some sp \<Rightarrow> lint_args cap sp (cmd_args cmd) st1);
          st3 = lint_tag cap ''@tssent='' '' (expected unix-ms digits)'' cmd st2
      in lint_tag cap ''@tsexec='' '' (expected unix-ms digits)'' cmd st3)"

definition tcmd_lint_plain :: "nat \<Rightarrow> string \<Rightarrow> lint_state" where
  "tcmd_lint_plain cap cmd =
     (let st1 = lint_danger cap cmd (lint_length cap cmd ([], TCMD_LINT_OK))
      in if length cmd \<le> length TCMD_PREFIX \<or> \<not> has_prefix TCMD_PREFIX cmd
         then flag cap TCMD_LINT_ERROR (''missing '' @ quoted ''CTS1+'' @ '' prefix'') st1
         else
           let st2 = lint_bang cap cmd st1
           in if cmd_name cmd = []
              then flag cap TCMD_LINT_ERROR (''missing telecommand name after '' @ quoted ''CTS1+'') st2
              else
                let st3 = (if tcmd_spec_find (cmd_name cmd) = None
                           then flag cap TCMD_LINT_ERROR
                                  (snprintf 96 (''unknown telecommand '' @ quoted (cmd_name cmd))) st2
                           else st2)
                in if cmd_after cmd = [] \<or> hd (cmd_after cmd) \<noteq> CHR ''(''
                   then flag cap TCMD_LINT_ERROR (''missing '' @ quoted ''('' @ '' after telecommand name'') st3
                   else if CHR '')'' \<notin> set (cmd_after cmd)
                   then flag cap TCMD_LINT_ERROR (''missing '' @ quoted '')'' @ '' to close the argument list'') st3
                   else lint_body cap cmd st3)"

text \<open>The placeholder clocks an \<open>SSO+\<close> line is expanded with for linting.\<close>

definition lint_ctx :: sso_pseudo_ctx where
  "lint_ctx = \<lparr>now_ms = 1700000000000, tssent_ms = 1700000000000 div 60000 * 60000\<rparr>"

lemma expand_ok_not_directed:
  assumes "sso_pseudo_expand cmd ctx n m = (SSO_PSEUDO_OK, out, e)"
  shows "\<not> sso_pseudo_is_directed out"
proof -
  have "\<exists>args. expand_sync_sat_time_to_ground args ctx n = (SSO_PSEUDO_OK, out)"
    using assms
    by (auto simp: sso_pseudo_expand_def Let_def spec_find_def SSO_PSEUDO_SPEC_def
        split: if_splits option.splits prod.splits)
  then have "\<exists>t. out = ''CTS1+set_system_time('' @ t"
    by (auto simp: expand_sync_sat_time_to_ground_def Let_def snprintf_def split: if_splits)
  then show ?thesis
    by (auto simp: sso_pseudo_is_directed_def SSO_PSEUDO_PREFIX_def has_prefix_def)
qed

function tcmd_lint_command :: "string \<Rightarrow> nat \<Rightarrow> lint_state" where
  "tcmd_lint_command cmd msg_cap =
     (if cmd = [] then ([], TCMD_LINT_OK)
      else if sso_pseudo_is_directed cmd
      then case sso_pseudo_expand cmd lint_ctx 512 160 of (status, expanded, e) \<Rightarrow>
             if status \<noteq> SSO_PSEUDO_OK then flag msg_cap TCMD_LINT_ERROR e ([], TCMD_LINT_OK)
             else tcmd_lint_command expanded msg_cap
      else tcmd_lint_plain msg_cap cmd)"
  by pat_completeness auto
termination
  by (relation "measure (\<lambda>(cmd, cap). if sso_pseudo_is_directed cmd then 1 else 0)")
     (auto dest: expand_ok_not_directed [OF sym] expand_ok_not_directed)

declare tcmd_lint_command.simps [simp del]

section \<open>The gate and agenda files\<close>

datatype tcmd_gate_decision = TCMD_GATE_PROCEED | TCMD_GATE_BLOCK_DANGER | TCMD_GATE_BLOCK_ERROR

definition tcmd_lint_gate_decision :: "int \<Rightarrow> int \<Rightarrow> bool \<Rightarrow> bool \<Rightarrow> tcmd_gate_decision" where
  "tcmd_lint_gate_decision errors dangers allow_errors allow_dangers =
     (if dangers > 0 \<and> \<not> allow_dangers then TCMD_GATE_BLOCK_DANGER
      else if errors > 0 \<and> \<not> allow_errors then TCMD_GATE_BLOCK_ERROR
      else TCMD_GATE_PROCEED)"

text \<open>The command on one line as \<^verbatim>\<open>fgets\<close> delivers it, or nothing to lint.\<close>

definition lint_line_command :: "string \<Rightarrow> string option" where
  "lint_line_command line =
     (let p = dropWhile isblank line
      in if p = [] \<or> hd p \<in> {CHR 0x0A, CHR 0x0D, CHR ''#''} then None
         else let cmd_len = snd (agenda_find_inline_comment line);
                  cmd = take (if cmd_len < 4096 then cmd_len else 4095) line;
                  s = trim cmd
              in if s = [] then None else Some s)"

record lint_report =
  lr_errors :: int
  lr_warns :: int
  lr_dangers :: int
  lr_lines :: "(nat \<times> tcmd_lint_severity \<times> string) list"

definition lint_file_line :: "lint_report \<Rightarrow> nat \<times> string \<Rightarrow> lint_report" where
  "lint_file_line r nl =
     (case lint_line_command (snd nl) of None \<Rightarrow> r
      | Some s \<Rightarrow>
          (case tcmd_lint_command s 512 of (msg, sev) \<Rightarrow>
             let r' = r\<lparr>lr_lines := lr_lines r @ [(fst nl, sev, msg)]\<rparr>
             in if sev = TCMD_LINT_DANGER then r'\<lparr>lr_dangers := lr_dangers r + 1\<rparr>
                else if sev = TCMD_LINT_ERROR then r'\<lparr>lr_errors := lr_errors r + 1\<rparr>
                else if sev = TCMD_LINT_WARN then r'\<lparr>lr_warns := lr_warns r + 1\<rparr>
                else r))"

text \<open>
  The file's contents, or \<open>None\<close> when it cannot be opened. The return value is the error
  count (-1 when the file cannot be opened); the report holds the printed lines.
\<close>

definition tcmd_lint_file :: "string option \<Rightarrow> int \<times> lint_report" where
  "tcmd_lint_file contents =
     (let empty = \<lparr>lr_errors = 0, lr_warns = 0, lr_dangers = 0, lr_lines = []\<rparr>
      in case contents of None \<Rightarrow> (-1, empty)
         | Some txt \<Rightarrow>
             let r = foldl lint_file_line empty (enumerate 1 (fgets_lines 4096 txt))
             in (lr_errors r, r))"

section \<open>Severity of each check\<close>

definition err_unless :: "bool \<Rightarrow> tcmd_lint_severity" where
  "err_unless ok = (if ok then TCMD_LINT_OK else TCMD_LINT_ERROR)"

lemma severity_order [simp]:
  "TCMD_LINT_OK \<le> s" "s \<le> TCMD_LINT_DANGER" "\<not> s < TCMD_LINT_OK" "\<not> TCMD_LINT_DANGER < s"
  "TCMD_LINT_WARN \<le> TCMD_LINT_ERROR" "\<not> TCMD_LINT_ERROR \<le> TCMD_LINT_WARN" "\<not> TCMD_LINT_WARN \<le> TCMD_LINT_OK"
  "\<not> TCMD_LINT_ERROR \<le> TCMD_LINT_OK" "\<not> TCMD_LINT_DANGER \<le> TCMD_LINT_ERROR" "\<not> TCMD_LINT_DANGER \<le> TCMD_LINT_WARN"
  "\<not> TCMD_LINT_DANGER \<le> TCMD_LINT_OK"
  by (cases s; simp add: less_eq_tcmd_lint_severity_def less_tcmd_lint_severity_def)+

lemma severity_max [simp]:
  "max TCMD_LINT_OK s = s" "max s TCMD_LINT_OK = s" "max TCMD_LINT_DANGER s = TCMD_LINT_DANGER" "max s TCMD_LINT_DANGER = TCMD_LINT_DANGER"
  "max TCMD_LINT_WARN TCMD_LINT_ERROR = TCMD_LINT_ERROR" "max TCMD_LINT_ERROR TCMD_LINT_WARN = TCMD_LINT_ERROR"
  by (cases s; simp add: max_def)+

lemma flag_sev [simp]: "snd (flag cap sev text st) = max (snd st) sev"
  by (auto simp: flag_def Let_def max_def not_le split: prod.splits)

lemma lint_length_sev: "snd (lint_length cap cmd st) = max (snd st)
    (if length cmd \<ge> 255 then TCMD_LINT_ERROR else if length cmd > 215 then TCMD_LINT_WARN else TCMD_LINT_OK)"
  by (simp add: lint_length_def TCMD_MAX_FULL_LEN_def TCMD_RF_MAX_LEN_def)

definition dangerous :: "string \<Rightarrow> bool" where
  "dangerous cmd = list_ex (\<lambda>(substr, why). has_substr substr cmd) tcmd_dangerous_substrings"

lemma lint_danger_sev:
  "snd (lint_danger cap cmd st) = (if dangerous cmd then TCMD_LINT_DANGER else snd st)"
  by (simp add: lint_danger_def dangerous_def tcmd_dangerous_substrings_def)

lemma lint_bang_sev: "snd (lint_bang cap cmd st) = max (snd st) (err_unless (bang_count cmd = 1))"
  by (auto simp: lint_bang_def err_unless_def)

lemma lint_tokens_sev:
  "snd (lint_tokens cap ai tcs toks st) =
     max (snd st) (err_unless (list_all (\<lambda>(tc, tok). arg_token_ok tc tok) (zip tcs toks)))"
  by (induction cap ai tcs toks st rule: lint_tokens.induct) (auto simp: err_unless_def)

text \<open>The arguments match a row of the table: the right number, each in the right format.\<close>

definition args_ok :: "tcmd_spec \<Rightarrow> string \<Rightarrow> bool" where
  "args_ok sp args \<longleftrightarrow> provided_args args = ts_num_args sp \<and>
     (ts_num_args sp > 0 \<longrightarrow> list_all2 arg_token_ok (ts_arg_types sp) (split_commas [] args))"

lemma length_split_commas: "length (split_commas cur s) = length (filter (\<lambda>c. c = CHR '','') s) + 1"
  by (induction cur s rule: split_commas.induct) auto

lemma lint_args_sev:
  assumes "length (ts_arg_types sp) = ts_num_args sp"
  shows "snd (lint_args cap sp args st) = max (max (snd st) (err_unless (args_ok sp args)))
     (if ts_readiness sp \<noteq> TCMD_READY_OPERATION then TCMD_LINT_WARN else TCMD_LINT_OK)"
proof (cases "provided_args args = ts_num_args sp \<and> ts_num_args sp > 0")
  case True
  then have "length (split_commas [] args) = ts_num_args sp"
    by (auto simp: length_split_commas provided_args_def split: if_splits)
  then have "args_ok sp args = list_all (\<lambda>(tc, tok). arg_token_ok tc tok) (zip (ts_arg_types sp) (split_commas [] args))"
    using True assms by (auto simp: args_ok_def list_all2_iff list_all_iff)
  then show ?thesis
    using True assms by (simp add: lint_args_def Let_def lint_tokens_sev max.assoc max.commute max.left_commute)
next
  case False
  then have "args_ok sp args \<longleftrightarrow> provided_args args = ts_num_args sp" by (auto simp: args_ok_def)
  then show ?thesis using False by (auto simp: lint_args_def Let_def err_unless_def)
qed

definition tag_ok :: "string \<Rightarrow> string \<Rightarrow> bool" where
  "tag_ok key cmd \<longleftrightarrow> (has_substr key cmd \<longrightarrow> agenda_parse_directive_ms cmd key \<noteq> None)"

lemma lint_tag_sev: "snd (lint_tag cap key what cmd st) = max (snd st) (err_unless (tag_ok key cmd))"
  by (auto simp: lint_tag_def tag_ok_def err_unless_def)

section \<open>What the satellite's parser accepts\<close>

definition fw_command :: "string \<Rightarrow> (tcmd_spec \<times> string) option" where
  "fw_command cmd =
     (if length cmd > length TCMD_PREFIX \<and> has_prefix TCMD_PREFIX cmd \<and> cmd_name cmd \<noteq> [] \<and>
         cmd_after cmd \<noteq> [] \<and> hd (cmd_after cmd) = CHR ''('' \<and> CHR '')'' \<in> set (cmd_after cmd)
      then map_option (\<lambda>sp. (sp, cmd_args cmd)) (tcmd_spec_find (cmd_name cmd)) else None)"

definition fw_accepts :: "string \<Rightarrow> bool" where
  "fw_accepts cmd \<longleftrightarrow> length cmd < 255 \<and> bang_count cmd = 1 \<and>
     (case fw_command cmd of None \<Rightarrow> False | Some (sp, args) \<Rightarrow> length args < 240 \<and> args_ok sp args) \<and>
     tag_ok ''@tssent='' cmd \<and> tag_ok ''@tsexec='' cmd"

definition fw_routine :: "string \<Rightarrow> bool" where
  "fw_routine cmd \<longleftrightarrow> length cmd \<le> 215 \<and>
     (case fw_command cmd of None \<Rightarrow> False | Some (sp, args) \<Rightarrow> ts_readiness sp = TCMD_READY_OPERATION)"

definition lint_verdict :: "string \<Rightarrow> tcmd_lint_severity" where
  "lint_verdict cmd = (if dangerous cmd then TCMD_LINT_DANGER
     else if \<not> fw_accepts cmd then TCMD_LINT_ERROR
     else if \<not> fw_routine cmd then TCMD_LINT_WARN else TCMD_LINT_OK)"

lemma flag_if_sev: "snd (if c then flag cap TCMD_LINT_ERROR t st else st) = max (snd st) (err_unless (\<not> c))"
  by (simp add: err_unless_def)

lemma err_unless_conj: "max (err_unless a) (err_unless b) = err_unless (a \<and> b)"
  by (simp add: err_unless_def)

lemma err_unless_cases [simp]: "err_unless True = TCMD_LINT_OK" "err_unless False = TCMD_LINT_ERROR"
  by (simp_all add: err_unless_def)

lemma lint_body_Some:
  assumes "tcmd_spec_find (cmd_name cmd) = Some sp"
  shows "snd (lint_body cap cmd st) = max (max (snd st)
    (err_unless (length (cmd_args cmd) < 240 \<and> args_ok sp (cmd_args cmd) \<and> tag_ok ''@tssent='' cmd \<and> tag_ok ''@tsexec='' cmd)))
    (if ts_readiness sp \<noteq> TCMD_READY_OPERATION then TCMD_LINT_WARN else TCMD_LINT_OK)"
proof -
  have "length (ts_arg_types sp) = ts_num_args sp" using assms tcmd_spec_find_name tcmd_spec_types by blast
  then show ?thesis
    unfolding lint_body_def Let_def assms option.case lint_tag_sev
    by (simp only: lint_args_sev flag_if_sev TCMD_MAX_ARGS_LEN_def not_le err_unless_conj [symmetric] ac_simps)
qed

lemma lint_body_None:
  assumes "tcmd_spec_find (cmd_name cmd) = None" "TCMD_LINT_ERROR \<le> snd st"
  shows "snd (lint_body cap cmd st) = snd st"
  using assms unfolding lint_body_def Let_def assms option.case lint_tag_sev
  by (cases "snd st") (simp_all add: flag_if_sev err_unless_def)

lemma tcmd_lint_plain_sev: "snd (tcmd_lint_plain cap cmd) = lint_verdict cmd"
proof -
  define st1 where "st1 = lint_danger cap cmd (lint_length cap cmd ([], TCMD_LINT_OK))"
  have st1: "snd st1 = (if dangerous cmd then TCMD_LINT_DANGER else if length cmd \<ge> 255 then TCMD_LINT_ERROR
      else if length cmd > 215 then TCMD_LINT_WARN else TCMD_LINT_OK)"
    by (simp add: st1_def lint_danger_sev lint_length_sev)
  define st2 where "st2 = lint_bang cap cmd st1"
  have st2: "snd st2 = max (snd st1) (err_unless (bang_count cmd = 1))" by (simp add: st2_def lint_bang_sev)
  show ?thesis
  proof (cases "fw_command cmd")
    case None
    then have v: "lint_verdict cmd = (if dangerous cmd then TCMD_LINT_DANGER else TCMD_LINT_ERROR)"
      by (simp add: lint_verdict_def fw_accepts_def)
    have e: "max (snd st1) TCMD_LINT_ERROR = lint_verdict cmd" "max (snd st2) TCMD_LINT_ERROR = lint_verdict cmd"
      using v by (simp_all add: st1 st2 err_unless_def)
    define st3 where "st3 = (if tcmd_spec_find (cmd_name cmd) = None
      then flag cap TCMD_LINT_ERROR (snprintf 96 (''unknown telecommand '' @ quoted (cmd_name cmd))) st2 else st2)"
    have st3: "max (snd st3) TCMD_LINT_ERROR = lint_verdict cmd" by (simp add: st3_def e v)
    have "cmd_after cmd \<noteq> [] \<and> hd (cmd_after cmd) = CHR ''('' \<and> CHR '')'' \<in> set (cmd_after cmd) \<and>
        cmd_name cmd \<noteq> [] \<and> \<not> length cmd \<le> length TCMD_PREFIX \<and> has_prefix TCMD_PREFIX cmd \<Longrightarrow>
      tcmd_spec_find (cmd_name cmd) = None"
      using None by (auto simp: fw_command_def split: if_splits)
    moreover have "snd st3 = lint_verdict cmd" if "tcmd_spec_find (cmd_name cmd) = None"
      using that st3 by (simp add: st3_def e v)
    ultimately show ?thesis
      using e st3 lint_body_None [of cmd st3 cap] v
      unfolding tcmd_lint_plain_def Let_def st1_def [symmetric] st2_def [symmetric] st3_def [symmetric]
      by (auto simp del: append_Cons append_Nil)
  next
    case (Some sa)
    then obtain sp where sp: "tcmd_spec_find (cmd_name cmd) = Some sp" "sa = (sp, cmd_args cmd)"
      and shape: "\<not> length cmd \<le> length TCMD_PREFIX" "has_prefix TCMD_PREFIX cmd" "cmd_name cmd \<noteq> []"
        "cmd_after cmd \<noteq> []" "hd (cmd_after cmd) = CHR ''(''" "CHR '')'' \<in> set (cmd_after cmd)"
      by (auto simp: fw_command_def split: if_splits)
    have "snd (tcmd_lint_plain cap cmd) = snd (lint_body cap cmd st2)"
      unfolding tcmd_lint_plain_def Let_def st1_def [symmetric] st2_def [symmetric]
      using shape sp by simp
    also have "\<dots> = max (max (snd st1) (err_unless (bang_count cmd = 1 \<and> length (cmd_args cmd) < 240 \<and>
        args_ok sp (cmd_args cmd) \<and> tag_ok ''@tssent='' cmd \<and> tag_ok ''@tsexec='' cmd)))
      (if ts_readiness sp \<noteq> TCMD_READY_OPERATION then TCMD_LINT_WARN else TCMD_LINT_OK)" (is "_ = max (max _ (err_unless ?ok)) _")
      by (simp only: lint_body_Some [OF sp(1)] st2 err_unless_conj [symmetric] ac_simps)
    also have "\<dots> = lint_verdict cmd"
    proof -
      have a: "fw_accepts cmd \<longleftrightarrow> length cmd < 255 \<and> ?ok" using Some sp by (auto simp: fw_accepts_def)
      have r: "fw_routine cmd \<longleftrightarrow> length cmd \<le> 215 \<and> ts_readiness sp = TCMD_READY_OPERATION"
        using Some sp by (simp add: fw_routine_def)
      show ?thesis unfolding lint_verdict_def a r st1 by (cases ?ok) (simp_all only: err_unless_cases, simp_all)
    qed
    finally show ?thesis .
  qed
qed

text \<open>The text never outgrows its buffer.\<close>

lemma flag_length: "length (fst st) < cap \<Longrightarrow> length (fst (flag cap sev text st)) < cap"
  by (auto simp: flag_def Let_def split: prod.splits)

lemma lint_tokens_length: "length (fst st) < cap \<Longrightarrow> length (fst (lint_tokens cap ai tcs toks st)) < cap"
  by (induction cap ai tcs toks st rule: lint_tokens.induct) (auto simp: flag_length)

lemma lint_steps_length:
  assumes "length (fst st) < cap"
  shows "length (fst (lint_length cap cmd st)) < cap" "length (fst (lint_danger cap cmd st)) < cap"
    "length (fst (lint_bang cap cmd st)) < cap" "length (fst (lint_tag cap key what cmd st)) < cap"
    "length (fst (lint_args cap sp args st)) < cap"
  using assms
  by (simp_all add: lint_length_def lint_danger_def tcmd_dangerous_substrings_def lint_bang_def lint_tag_def
      lint_args_def Let_def flag_length lint_tokens_length)

lemma lint_body_length: "length (fst st) < cap \<Longrightarrow> length (fst (lint_body cap cmd st)) < cap"
  unfolding lint_body_def Let_def
  by (intro lint_steps_length) (simp add: lint_steps_length flag_length split: option.splits)

lemma tcmd_lint_plain_length:
  assumes "0 < cap"
  shows "length (fst (tcmd_lint_plain cap cmd)) < cap"
proof -
  have "length (fst ([] :: string, TCMD_LINT_OK)) < cap" using assms by simp
  then show ?thesis
    unfolding tcmd_lint_plain_def Let_def
    by (simp add: lint_steps_length flag_length lint_body_length del: append_Cons append_Nil)
qed

lemma tcmd_lint_command_plain:
  "cmd \<noteq> [] \<Longrightarrow> \<not> sso_pseudo_is_directed cmd \<Longrightarrow> tcmd_lint_command cmd cap = tcmd_lint_plain cap cmd"
  by (simp add: tcmd_lint_command.simps)

lemma tcmd_lint_command_length: "0 < cap \<Longrightarrow> length (fst (tcmd_lint_command cmd cap)) < cap"
proof (induction cmd cap rule: tcmd_lint_command.induct)
  case (1 cmd cap)
  then show ?case
    by (subst tcmd_lint_command.simps) (auto simp: flag_length tcmd_lint_plain_length split: prod.splits)
qed



text \<open>
  C32: Whatever is linted, the diagnostic text stays inside the caller's buffer with room for
  its terminator.
\<close>

theorem tcmd_lint_msg_bound:
  assumes "0 < cap"
  shows "length (fst (tcmd_lint_command cmd cap)) < cap"
  using assms by (rule tcmd_lint_command_length)

theorem tcmd_lint_msg_bound_witness:
  "length (fst (tcmd_lint_command ''CTS1+nope( 1)'' 20)) < 20"
  using tcmd_lint_msg_bound [of 20 "''CTS1+nope( 1)''"] by simp

section \<open>Expansions of pseudo-commands\<close>

lemma directive_skip:
  "CHR ''@'' \<notin> set pre \<Longrightarrow> agenda_parse_directive_ms (pre @ rest) (CHR ''@'' # key) = agenda_parse_directive_ms rest (CHR ''@'' # key)"
  by (induction pre) (auto simp: has_prefix_def)

lemma length_show_int: "LLONG_MIN \<le> t \<Longrightarrow> t \<le> LLONG_MAX \<Longrightarrow> length (show_int t) \<le> 20"
proof -
  assume t: "LLONG_MIN \<le> t" "t \<le> LLONG_MAX"
  have "length (show_nat n) \<le> 19" if "n < 10 ^ 19" for n using length_show_nat [OF that] by simp
  moreover have "nat t < 10 ^ 19" "nat (- t) < 10 ^ 19"
    using t by (simp_all add: LLONG_MIN_def LLONG_MAX_def nat_less_iff)
  ultimately have "length (show_nat (nat t)) \<le> 19" "length (show_nat (nat (- t))) \<le> 19" by blast+
  then show ?thesis by (simp add: show_int_def)
qed

lemma directive_hit:
  assumes "key \<noteq> []" "sign = (if d \<noteq> [] \<and> hd d \<in> {CHR ''+'', CHR ''-''} then 1 else 0)"
    "ds = takeWhile isdigit (drop sign d)" "ds \<noteq> []" "sign + length ds < 32"
  shows "agenda_parse_directive_ms (key @ d) key = Some (strtoll (take (sign + length ds) d))"
proof -
  obtain c cs where c: "key @ d = c # cs" using assms(1) by (cases key) auto
  have h: "has_prefix key (c # cs)" "drop (length key) (c # cs) = d" by (simp_all flip: c)
  show ?thesis
    unfolding c agenda_parse_directive_ms.simps(2) Let_def h(2) assms(2) [symmetric] assms(3) [symmetric]
    using h(1) assms(4,5) by simp
qed

lemma directive_show:
  assumes "LLONG_MIN \<le> t" "t \<le> LLONG_MAX" "key \<noteq> []" "rest = [] \<or> \<not> isdigit (hd rest)"
  shows "agenda_parse_directive_ms (key @ show_int t @ rest) key = Some t"
proof -
  define d where "d = show_int t @ rest"
  define sign :: nat where "sign = (if d \<noteq> [] \<and> hd d \<in> {CHR ''+'', CHR ''-''} then 1 else 0)"
  define ds where "ds = takeWhile isdigit (drop sign d)"
  have "ds \<noteq> [] \<and> sign + length ds = length (show_int t)"
  proof (cases "t < 0")
    case True
    then show ?thesis using takeWhile_digits [OF assms(4), of "nat (- t)"]
      by (simp add: ds_def sign_def d_def show_int_def)
  next
    case False
    then show ?thesis
      using takeWhile_digits [OF assms(4), of "nat t"] isdigit_not_sign [OF show_nat_hd, of "nat t"]
      by (simp add: ds_def sign_def d_def show_int_def)
  qed
  then have "agenda_parse_directive_ms (key @ d) key = Some (strtoll (show_int t))"
    using directive_hit [OF assms(3) sign_def ds_def] length_show_int [OF assms(1,2)] by (simp add: d_def)
  then show ?thesis using strtoll_show_int [OF assms(1,2)] by (simp add: d_def)
qed

lemma has_substr_set: "has_substr p s \<Longrightarrow> set p \<subseteq> set s"
  by (auto simp: has_substr_iff)

lemma show_int_chars: "c \<in> set (show_int t) \<Longrightarrow> isdigit c \<or> c = CHR ''-''"
  by (auto simp: show_int_def split: if_splits dest: show_nat_digits)

definition sync_command :: "int \<Rightarrow> int \<Rightarrow> string" where
  "sync_command a t = ''CTS1+set_system_time('' @ show_int a @ '')@tssent='' @ show_int t @ ''!''"

lemma isdigit_plain: "isdigit c \<Longrightarrow> c \<notin> {CHR ''!'', CHR '','', CHR '')'', CHR ''@'', CHR ''f'', CHR ''x''}"
  by (auto simp: isdigit_def chr_code_def)

lemma show_int_plain [simp]: 
  "CHR ''!'' \<notin> set (show_int t)" "CHR '','' \<notin> set (show_int t)" "CHR '')'' \<notin> set (show_int t)"
  "CHR ''@'' \<notin> set (show_int t)" "CHR ''f'' \<notin> set (show_int t)" "CHR ''x'' \<notin> set (show_int t)"
  using show_int_chars [of _ t] isdigit_plain by fastforce+

lemma sync_command_parts:
  "cmd_name (sync_command a t) = ''set_system_time''"
  "cmd_after (sync_command a t) = ''('' @ show_int a @ '')@tssent='' @ show_int t @ ''!''"
  "cmd_args (sync_command a t) = show_int a"
proof -
  show n: "cmd_name (sync_command a t) = ''set_system_time''"
    by (simp add: cmd_name_def sync_command_def TCMD_PREFIX_def is_name_char_def isalnum_def isdigit_def
        isupper_def islower_def chr_code_def)
  show af: "cmd_after (sync_command a t) = ''('' @ show_int a @ '')@tssent='' @ show_int t @ ''!''"
    unfolding cmd_after_def n by (simp add: sync_command_def TCMD_PREFIX_def)
  show "cmd_args (sync_command a t) = show_int a"
    unfolding cmd_args_def af by (simp add: takeWhile_append2 takeWhile_tail) (metis show_int_plain(3) takeWhile_eq_all_conv)
qed

lemma sync_command_bang: "bang_count (sync_command a t) = 1"
proof -
  have "filter (\<lambda>c. c = CHR ''!'') (show_int i) = []" for i
    by (auto simp: filter_empty_conv)
  then show ?thesis by (simp add: bang_count_def sync_command_def TCMD_PREFIX_def)
qed

lemma find_set_system_time:
  "tcmd_spec_find ''set_system_time'' = Some \<lparr>ts_name = ''set_system_time'', ts_num_args = 1,
     ts_readiness = TCMD_READY_OPERATION, ts_arg_types = ''u''\<rparr>"
  by (simp add: tcmd_spec_find_def TCMD_SPEC_def)

lemma sync_command_accepted:
  assumes "0 \<le> a" "a \<le> LLONG_MAX" "LLONG_MIN \<le> t" "t \<le> LLONG_MAX"
  shows "lint_verdict (sync_command a t) = TCMD_LINT_OK"
    "agenda_parse_directive_ms (sync_command a t) ''@tssent='' = Some t"
proof -
  have "agenda_parse_directive_ms (''@tssent='' @ show_int t @ ''!'') ''@tssent='' = Some t"
    by (rule directive_show) (use assms in \<open>simp_all add: isdigit_def chr_code_def\<close>)
  moreover have "sync_command a t = (''CTS1+set_system_time('' @ show_int a @ '')'') @ ''@tssent='' @ show_int t @ ''!''"
    by (simp add: sync_command_def)
  ultimately show sent: "agenda_parse_directive_ms (sync_command a t) ''@tssent='' = Some t"
    by (simp only: directive_skip) (subst directive_skip, simp_all)
  have len: "length (sync_command a t) \<le> 71"
    using length_show_int [of a] length_show_int [of t] assms by (simp add: sync_command_def LLONG_MIN_def)
  have f: "CHR ''f'' \<notin> set (sync_command a t)" "CHR ''x'' \<notin> set (sync_command a t)"
    by (simp_all add: sync_command_def)
  then have d: "\<not> dangerous (sync_command a t)"
    using has_substr_set [of "''default_tcmd_agenda.txt''" "sync_command a t"]
    by (auto simp: dangerous_def tcmd_dangerous_substrings_def)
  have x: "\<not> has_substr ''@tsexec='' (sync_command a t)"
    using f has_substr_set [of "''@tsexec=''" "sync_command a t"] by auto
  have digits: "list_all isdigit (show_int a)" "show_int a \<noteq> []"
    using assms(1) show_nat_digits by (auto simp: show_int_def list_all_iff)
  have "length (show_int a) \<le> 19"
    using assms length_show_nat [of "nat a" 19] by (simp add: show_int_def LLONG_MAX_def)
  then have u: "arg_ok_uint64 (show_int a)" using digits by (cases "show_int a") (auto simp: arg_ok_uint64_def)
  have filt: "filter (\<lambda>c. c = CHR '','') (show_int a) = []"
    using show_int_plain(2) [of a] by (auto simp: filter_empty_conv)
  have split: "split_commas cur s = [rev cur @ s]" if "CHR '','' \<notin> set s" for cur s
    using that by (induction s arbitrary: cur) auto
  have "args_ok \<lparr>ts_name = ''set_system_time'', ts_num_args = 1, ts_readiness = TCMD_READY_OPERATION,
      ts_arg_types = ''u''\<rparr> (show_int a)"
    using u digits(2) by (simp add: args_ok_def provided_args_def filt split arg_token_ok_def)
  moreover have "fw_command (sync_command a t) = Some (\<lparr>ts_name = ''set_system_time'', ts_num_args = 1,
      ts_readiness = TCMD_READY_OPERATION, ts_arg_types = ''u''\<rparr>, show_int a)"
    by (simp add: fw_command_def sync_command_parts find_set_system_time)
       (simp add: sync_command_def TCMD_PREFIX_def has_prefix_def)
  ultimately show "lint_verdict (sync_command a t) = TCMD_LINT_OK"
    using d x sent len \<open>length (show_int a) \<le> 19\<close>
    by (simp add: lint_verdict_def fw_accepts_def fw_routine_def sync_command_bang tag_ok_def)
qed

lemma expand_ok_shape:
  assumes "sso_pseudo_expand cmd ctx n m = (SSO_PSEUDO_OK, out, e)"
  shows "out = sync_command (add_ll (now_ms ctx) 500) (tssent_ms ctx) \<and> length out < n"
proof -
  have "\<exists>args. expand_sync_sat_time_to_ground args ctx n = (SSO_PSEUDO_OK, out)"
    using assms
    by (auto simp: sso_pseudo_expand_def Let_def spec_find_def SSO_PSEUDO_SPEC_def
        split: if_splits option.splits prod.splits)
  then obtain args where "expand_sync_sat_time_to_ground args ctx n = (SSO_PSEUDO_OK, out)" by blast
  then have o: "out = snprintf n (sync_command (add_ll (now_ms ctx) 500) (tssent_ms ctx))"
    "\<not> length (sync_command (add_ll (now_ms ctx) 500) (tssent_ms ctx)) \<ge> n"
    unfolding expand_sync_sat_time_to_ground_def Let_def sync_command_def SSO_TIME_SYNC_BUDGET_MS_def
    by (auto split: if_splits simp del: append_Cons append_Nil length_append)
  then show ?thesis by (simp add: snprintf_def)
qed

text \<open>
  C29: Every successful expansion of a pseudo-command is a telecommand that passes the same
  linter without a warning, whatever the clocks, and its dedup tag reads back as the
  session's pass-start time.
\<close>

theorem sso_expand_accepted:
  assumes "sso_pseudo_expand cmd ctx n m = (SSO_PSEUDO_OK, out, e)"
    and "0 \<le> now_ms ctx" and "now_ms ctx + 500 \<le> LLONG_MAX"
    and "LLONG_MIN \<le> tssent_ms ctx" and "tssent_ms ctx \<le> LLONG_MAX"
  shows "snd (tcmd_lint_command out cap) = TCMD_LINT_OK \<and> length out < n \<and>
    agenda_parse_directive_ms out ''@tssent='' = Some (tssent_ms ctx)"
proof -
  have "add_ll (now_ms ctx) 500 = now_ms ctx + 500"
    using assms(2,3) by (simp add: add_ll_def LLONG_MAX_def)
  then have out: "out = sync_command (now_ms ctx + 500) (tssent_ms ctx)" "length out < n"
    using expand_ok_shape [OF assms(1)] by metis+
  have "out \<noteq> []" by (simp add: out(1) sync_command_def)
  then have "snd (tcmd_lint_command out cap) = lint_verdict out"
    using tcmd_lint_command_plain expand_ok_not_directed [OF assms(1)] by (simp add: tcmd_lint_plain_sev)
  then show ?thesis
    using sync_command_accepted [of "now_ms ctx + 500" "tssent_ms ctx"] assms out by simp
qed

theorem sso_expand_accepted_witness:
  "\<exists>out. sso_pseudo_expand ''SSO+sync_sat_time_to_ground()!''
       \<lparr>now_ms = 1700000000123, tssent_ms = 1699999980000\<rparr> 512 160 = (SSO_PSEUDO_OK, out, []) \<and>
     snd (tcmd_lint_command out 0) = TCMD_LINT_OK"
proof -
  have "sso_pseudo_expand ''SSO+sync_sat_time_to_ground()!''
      \<lparr>now_ms = 1700000000123, tssent_ms = 1699999980000\<rparr> 512 160 =
      (SSO_PSEUDO_OK, ''CTS1+set_system_time(1700000000623)@tssent=1699999980000!'', [])"
    by code_simp
  from sso_expand_accepted [OF this, of 0] this show ?thesis by (simp add: LLONG_MAX_def LLONG_MIN_def)
qed

section \<open>Agenda files\<close>

text \<open>The commands of a file as the linter sees them.\<close>

definition file_commands :: "string \<Rightarrow> string list" where
  "file_commands txt = List.map_filter lint_line_command (fgets_lines 4096 txt)"

definition lint_count :: "tcmd_lint_severity \<Rightarrow> string list \<Rightarrow> int" where
  "lint_count sev cmds = int (length (filter (\<lambda>c. snd (tcmd_lint_command c 512) = sev) cmds))"

lemma lint_file_counts:
  "lr_errors (foldl lint_file_line r nls) = lr_errors r + lint_count TCMD_LINT_ERROR (List.map_filter lint_line_command (map snd nls))"
  "lr_dangers (foldl lint_file_line r nls) = lr_dangers r + lint_count TCMD_LINT_DANGER (List.map_filter lint_line_command (map snd nls))"
  "lr_warns (foldl lint_file_line r nls) = lr_warns r + lint_count TCMD_LINT_WARN (List.map_filter lint_line_command (map snd nls))"
  by (induction nls arbitrary: r)
     (auto simp: lint_file_line_def lint_count_def Let_def List.map_filter_simps split: option.splits prod.splits)

lemma tcmd_lint_file_counts:
  assumes "tcmd_lint_file (Some txt) = (errors, r)"
  shows "errors = lint_count TCMD_LINT_ERROR (file_commands txt)"
    "lr_dangers r = lint_count TCMD_LINT_DANGER (file_commands txt)"
    "lr_warns r = lint_count TCMD_LINT_WARN (file_commands txt)"
proof -
  have "map snd (enumerate 1 (fgets_lines 4096 txt)) = fgets_lines 4096 txt" by simp
  then show "errors = lint_count TCMD_LINT_ERROR (file_commands txt)"
    "lr_dangers r = lint_count TCMD_LINT_DANGER (file_commands txt)"
    "lr_warns r = lint_count TCMD_LINT_WARN (file_commands txt)"
    using assms by (auto simp: tcmd_lint_file_def Let_def lint_file_counts file_commands_def)
qed

lemma lint_count_0: "\<not> lint_count sev cmds > 0 \<longleftrightarrow> (\<forall>c \<in> set cmds. snd (tcmd_lint_command c 512) \<noteq> sev)"
  by (auto simp: lint_count_def filter_empty_conv)



end
