(* ===== verification/Tx_State.thy ===== *)
theory Tx_State
  imports Burst_Handoff UI_Textfield Tcmd_Lint
begin

text \<open>
  \<^verbatim>\<open>src/src/tx_state.h\<close> and \<^verbatim>\<open>src/src/ui/tx_log.c\<close>: the uplink slice of the operator's state
  and the log of what was drafted, sent and refused. The state record extends \<open>tx\<close> with the
  few fields of the other slices the uplink reads (the receive session, the operator, the
  tracker) and with the sequence of outputs written so far: events broadcast to viewers,
  lines of \<^verbatim>\<open>tx.log\<close>, audit events and lines of \<^verbatim>\<open>session.log\<close>. An event is recorded when it is
  handed to the encoder. Clocks are read once per call and passed in; decibels and seconds
  are exact rationals. A message is its format string with its arguments.
\<close>

section \<open>Clocks, messages, numbers typed by the operator\<close>

record clock =
  clk_ns :: int
  clk_utc_ms :: int
  clk_iso :: string
  clk_local_hms :: string

datatype msg = Msg string "fmt_arg list"
  and fmt_arg = FInt int | FRat rat | FStr string | FMsg msg

definition no_msg :: msg where "no_msg = Msg [] []"

text \<open>
  \<^verbatim>\<open>atof\<close> on the text of a numeric field, which holds digits, dots and minus signs only:
  an optional sign, digits, and a fraction; anything that follows is ignored, and a field
  without digits is zero.
\<close>

definition atof :: "string \<Rightarrow> rat" where
  "atof s =
     (let neg = (s \<noteq> [] \<and> hd s = CHR ''-'');
          body = (if neg then tl s else s);
          ip = takeWhile isdigit body;
          rest = drop (length ip) body;
          fp = (if rest \<noteq> [] \<and> hd rest = CHR ''.'' then takeWhile isdigit (tl rest) else []);
          v = of_nat (dec_value (ip @ fp)) / 10 ^ length fp
      in if neg then - v else v)"

definition atoi :: "string \<Rightarrow> int" where
  "atoi s = int (dec_value (takeWhile isdigit s))"

section \<open>The modals\<close>

datatype tx_field = TXF_PAYLOAD | TXF_POWER | TXF_ALLOW_TX

record tx_compose =
  c_payload :: string
  c_power :: string
  c_allow_tx :: bool
  c_focus :: tx_field
  c_preview_dirty :: bool
  c_status_msg :: msg
  c_cur_payload :: int
  c_cur_power :: int
  c_history_idx :: int
  c_history_saved_edit :: string

datatype auto_tcmd_field = AUTO_F_POWER | AUTO_F_REPEATS | AUTO_F_INTERVAL | AUTO_F_ALLOW_TX

datatype auto_tcmd_state =
    AUTO_STATE_SETUP | AUTO_STATE_RUNNING | AUTO_STATE_STOPPED | AUTO_STATE_DONE
  | AUTO_STATE_PASS_OVER | AUTO_STATE_PAUSE_PROMPT | AUTO_STATE_PAUSED | AUTO_STATE_RESUME_PROMPT

text \<open>The command list is \<open>None\<close> for a NULL pointer, with which the code always pairs a count of zero.\<close>

record auto_tcmd =
  a_commands :: "string list option"
  a_file_path :: string
  a_lint_errors :: int
  a_lint_dangers :: int
  a_power :: string
  a_repeats :: string
  a_interval_s :: string
  a_allow_tx :: bool
  a_focus :: auto_tcmd_field
  a_cur_power :: int
  a_cur_repeats :: int
  a_cur_interval :: int
  a_state :: auto_tcmd_state
  a_cmd_idx :: nat
  a_repeat_idx :: nat
  a_repeats_total :: nat
  a_interval_s_val :: rat
  a_next_send_ns :: int
  a_start_ns :: int
  a_pause_ns :: int
  a_sends_total :: nat
  a_tx_seconds_spent :: rat
  a_tx_seconds_total :: rat
  a_last_sent :: string
  a_status_msg :: msg

definition a_list :: "auto_tcmd \<Rightarrow> string list" where
  "a_list a = (case a_commands a of None \<Rightarrow> [] | Some cs \<Rightarrow> cs)"

abbreviation a_n_commands :: "auto_tcmd \<Rightarrow> nat" where
  "a_n_commands a \<equiv> length (a_list a)"

section \<open>Events and outputs\<close>

datatype sso_event_type =
    SSO_EVT_UNKNOWN | SSO_EVT_HELLO | SSO_EVT_WELCOME | SSO_EVT_STATE | SSO_EVT_OPERATOR_CHANGED
  | SSO_EVT_HANDOFF_OFFER | SSO_EVT_HANDOFF_ACCEPTED | SSO_EVT_HANDOFF_DECLINED | SSO_EVT_RX_STATS
  | SSO_EVT_TX_COMMAND_SENT | SSO_EVT_BYE | SSO_EVT_YIELD_REQUEST | SSO_EVT_TX_COMMAND_PREVIEW
  | SSO_EVT_TX_REQUEST | SSO_EVT_TX_NOT_SENT | SSO_EVT_CMD_PREVIEW | SSO_EVT_CMD_EXECUTED
  | SSO_EVT_AUDIO_CTL | SSO_EVT_AUDIO_STATUS | SSO_EVT_AUDIO

text \<open>The fields of \<^verbatim>\<open>sso_event_t\<close> that a TX event carries; the others stay zero.\<close>

record sso_event =
  ev_type :: sso_event_type
  ev_ts :: string
  ev_from :: string
  ev_ascii :: string
  ev_tx_payload_kind :: string
  ev_tx_payload :: string
  ev_tx_csp :: csp_v1_header
  ev_tx_freq_hz :: int
  ev_tx_gain_db :: rat
  ev_tx_allow_tx :: bool
  ev_tx_repeat :: int
  ev_tx_gap_ms :: int
  ev_tx_not_sent_reason :: string
  ev_tx_origin :: string

definition zero_csp :: csp_v1_header where
  "zero_csp = \<lparr>prio = 0, src = 0, dst = 0, dport = 0, sport = 0, flags = 0\<rparr>"

definition sso_event_init :: "clock \<Rightarrow> sso_event_type \<Rightarrow> sso_event" where
  "sso_event_init clk ty =
     \<lparr>ev_type = ty, ev_ts = snprintf 40 (clk_iso clk), ev_from = [], ev_ascii = [], ev_tx_payload_kind = [],
      ev_tx_payload = [], ev_tx_csp = zero_csp, ev_tx_freq_hz = 0, ev_tx_gain_db = 0, ev_tx_allow_tx = False,
      ev_tx_repeat = 0, ev_tx_gap_ms = 0, ev_tx_not_sent_reason = [], ev_tx_origin = []\<rparr>"

record tx_log_entry =
  tl_kind :: sso_event_type
  tl_ts :: string
  tl_ascii :: string
  tl_not_sent_reason :: string
  tl_source :: string

datatype tx_output =
    OutBroadcast sso_event
  | OutTxLog sso_event
  | OutAudit string msg
  | OutSession string msg

section \<open>The uplink state\<close>

record tx =
  tx_hmac_key :: "u8 list"
  ignore_tc_errors :: bool
  tx_dry_run :: bool
  ignore_dangerous_tcmds :: bool
  tx_last_payload :: string
  tx_last_power :: string
  tx_last_allow_tx :: bool
  tx_history :: "string list"
  tx_compose_active :: bool
  tx_comp :: tx_compose
  tx_compose_last_edit_ns :: int
  auto_tcmd_active :: bool
  auto_run :: auto_tcmd
  auto_tcmd_file_path :: string
  tx_request :: tx_request_slot
  tx_inflight :: bool
  tx_burst_submit_ns :: int
  last_burst_wall_s :: rat
  last_burst_on_air :: bool
  last_burst_outcome :: string
  tx_request_staged_ns :: int
  prev_send_staged_ns :: int
  last_burst_slot_s :: rat
  last_send_period_s :: rat
  tx_freq_hz_doppler :: int
  sso_pass_tssent_ms :: int
  no_tx :: bool
  tx_preroll_ms :: int
  tx_log :: "tx_log_entry list"
  tx_log_path :: "string option"

record state = tx +
  st_rx_session :: "rx_session option"
  st_can_tx :: bool
  st_ipc :: bool
  st_operator_user :: "string option"
  st_pass_folder :: string
  st_folder_writable :: bool
  st_testing_mode :: bool
  st_elevation :: rat
  st_minutes_until_visible :: rat
  st_out :: "tx_output list"

definition tx_pending :: "state \<Rightarrow> bool" where
  "tx_pending s = rq_pending (tx_request s)"

definition emit :: "tx_output \<Rightarrow> state \<Rightarrow> state" where
  "emit e s = s\<lparr>st_out := st_out s @ [e]\<rparr>"

section \<open>The TX log\<close>

definition TX_LOG_SIZE :: nat where "TX_LOG_SIZE = 8"

definition tx_log_ts_from_event :: "clock \<Rightarrow> sso_event \<Rightarrow> nat \<Rightarrow> string" where
  "tx_log_ts_from_event clk evt out_size =
     (let t = dropWhile (\<lambda>c. c \<noteq> CHR ''T'') (ev_ts evt)
      in if length t \<ge> 9 then take (min 8 (out_size - 1)) (tl t) else snprintf out_size (clk_local_hms clk))"

definition tx_log_file_append :: "sso_event \<Rightarrow> state \<Rightarrow> state" where
  "tx_log_file_append evt s =
     (case tx_log_path s of
        Some _ \<Rightarrow> emit (OutTxLog evt) s
      | None \<Rightarrow>
          if st_pass_folder s = [] \<or> \<not> st_folder_writable s then s
          else emit (OutTxLog evt) (s\<lparr>tx_log_path := Some (snprintf 512 (take 500 (st_pass_folder s) @ ''/tx.log''))\<rparr>))"

definition log_entry :: "clock \<Rightarrow> sso_event \<Rightarrow> tx_log_entry" where
  "log_entry clk evt =
     \<lparr>tl_kind = ev_type evt, tl_ts = tx_log_ts_from_event clk evt 16, tl_ascii = snprintf 256 (ev_ascii evt),
      tl_not_sent_reason = snprintf 24 (ev_tx_not_sent_reason evt), tl_source = snprintf 16 (ev_tx_origin evt)\<rparr>"

text \<open>The ring as a list, oldest entry first.\<close>

definition ring_push :: "tx_log_entry \<Rightarrow> tx_log_entry list \<Rightarrow> tx_log_entry list" where
  "ring_push e entries =
     (if (tl_kind e = SSO_EVT_TX_COMMAND_PREVIEW \<or> tl_kind e = SSO_EVT_TX_COMMAND_SENT)
          \<and> entries \<noteq> [] \<and> tl_kind (last entries) = SSO_EVT_TX_COMMAND_PREVIEW
      then butlast entries @ [e]
      else if length entries < TX_LOG_SIZE then entries @ [e]
      else tl entries @ [e])"

definition is_tx_event :: "sso_event_type \<Rightarrow> bool" where
  "is_tx_event ty \<longleftrightarrow> ty = SSO_EVT_TX_COMMAND_PREVIEW \<or> ty = SSO_EVT_TX_COMMAND_SENT \<or> ty = SSO_EVT_TX_NOT_SENT"

definition tx_log_push :: "clock \<Rightarrow> sso_event \<Rightarrow> state \<Rightarrow> state" where
  "tx_log_push clk evt s =
     (if \<not> is_tx_event (ev_type evt) then s
      else
        let s1 = (if ev_type evt \<noteq> SSO_EVT_TX_COMMAND_PREVIEW then tx_log_file_append evt s else s)
        in s1\<lparr>tx_log := ring_push (log_entry clk evt) (tx_log s1)\<rparr>)"

definition tx_log_ok :: "tx_log_entry list \<Rightarrow> bool" where
  "tx_log_ok entries \<longleftrightarrow> length entries \<le> TX_LOG_SIZE \<and> list_all (\<lambda>e. is_tx_event (tl_kind e)) entries"

lemma in_set_tlD: "x \<in> set (tl xs) \<Longrightarrow> x \<in> set xs"
  by (cases xs) auto

lemma ring_push_ok: "tx_log_ok entries \<Longrightarrow> is_tx_event (tl_kind e) \<Longrightarrow> tx_log_ok (ring_push e entries)"
  by (auto simp: tx_log_ok_def ring_push_def TX_LOG_SIZE_def list_all_iff dest: in_set_butlastD in_set_tlD)

text \<open>The entries that are not drafts, which is what the operator may rely on seeing.\<close>

definition settled :: "tx_log_entry list \<Rightarrow> tx_log_entry list" where
  "settled entries = filter (\<lambda>e. tl_kind e \<noteq> SSO_EVT_TX_COMMAND_PREVIEW) entries"

lemma suffix_settled_tl: "suffix (settled (tl entries)) (settled entries)"
  by (cases entries) (auto simp: settled_def suffix_def)

lemma ring_push_settled:
  assumes "suffix (settled entries) past"
  shows "suffix (settled (ring_push e entries)) (past @ settled [e])"
proof -
  have tl: "suffix (settled (tl entries)) past"
    using suffix_settled_tl assms by (rule suffix_order.trans)
  have "settled (butlast entries @ [e]) = settled entries @ settled [e]"
    if "entries \<noteq> []" "tl_kind (last entries) = SSO_EVT_TX_COMMAND_PREVIEW"
    using that by (cases entries rule: rev_cases) (simp_all add: settled_def)
  moreover have "settled (xs @ [e]) = settled xs @ settled [e]" for xs by (simp add: settled_def)
  ultimately show ?thesis using assms tl by (auto simp: ring_push_def suffix_def)
qed

lemma ring_push_last: "last (ring_push e entries) = e"
  by (simp add: ring_push_def)

definition log_all :: "(clock \<times> sso_event) list \<Rightarrow> state \<Rightarrow> state" where
  "log_all evs s = foldl (\<lambda>s (clk, evt). tx_log_push clk evt s) s evs"

text \<open>The sent and not-sent events of a history.\<close>

definition outcomes :: "(clock \<times> sso_event) list \<Rightarrow> (clock \<times> sso_event) list" where
  "outcomes evs = filter (\<lambda>(clk, evt). ev_type evt = SSO_EVT_TX_COMMAND_SENT \<or> ev_type evt = SSO_EVT_TX_NOT_SENT) evs"

definition can_log :: "state \<Rightarrow> bool" where
  "can_log s \<longleftrightarrow> tx_log_path s \<noteq> None \<or> (st_pass_folder s \<noteq> [] \<and> st_folder_writable s)"

lemma tx_log_push_log:
  "tx_log (tx_log_push clk evt s) =
    (if is_tx_event (ev_type evt) then ring_push (log_entry clk evt) (tx_log s) else tx_log s)"
  by (simp add: tx_log_push_def Let_def tx_log_file_append_def emit_def split: option.splits)

lemma tx_log_push_file:
  assumes "can_log s"
  shows "can_log (tx_log_push clk evt s) \<and>
    st_out (tx_log_push clk evt s) = st_out s @ map (\<lambda>p. OutTxLog (snd p)) (outcomes [(clk, evt)])"
  using assms
  by (auto simp: tx_log_push_def Let_def tx_log_file_append_def emit_def can_log_def outcomes_def is_tx_event_def
      split: option.splits)

lemma log_all_snoc: "log_all (evs @ [(clk, evt)]) s = tx_log_push clk evt (log_all evs s)"
  by (simp add: log_all_def)



section \<open>A concrete state for the witnesses\<close>

definition demo_clock :: clock where
  "demo_clock = \<lparr>clk_ns = 5000000000, clk_utc_ms = 1700000000000, clk_iso = ''2026-05-14T13:22:01.450Z'',
     clk_local_hms = ''13:22:01''\<rparr>"

definition demo_compose :: tx_compose where
  "demo_compose = \<lparr>c_payload = ''CTS1+hello_world()!'', c_power = ''60'', c_allow_tx = True, c_focus = TXF_PAYLOAD,
     c_preview_dirty = False, c_status_msg = no_msg, c_cur_payload = 19, c_cur_power = 2, c_history_idx = -1,
     c_history_saved_edit = []\<rparr>"

definition demo_auto :: auto_tcmd where
  "demo_auto = \<lparr>a_commands = Some [''CTS1+hello_world()!'', ''CTS1+echo_back_args(x)!''], a_file_path = ''a.txt'',
     a_lint_errors = 0, a_lint_dangers = 0, a_power = ''60'', a_repeats = ''2'', a_interval_s = ''1.5'',
     a_allow_tx = True, a_focus = AUTO_F_POWER, a_cur_power = 2, a_cur_repeats = 1, a_cur_interval = 3,
     a_state = AUTO_STATE_SETUP, a_cmd_idx = 0, a_repeat_idx = 0, a_repeats_total = 0, a_interval_s_val = 0,
     a_next_send_ns = 0, a_start_ns = 0, a_pause_ns = 0, a_sends_total = 0, a_tx_seconds_spent = 0,
     a_tx_seconds_total = 0, a_last_sent = [], a_status_msg = no_msg\<rparr>"

definition demo_state :: state where
  "demo_state = \<lparr>tx_hmac_key = [1, 2, 3], ignore_tc_errors = False, tx_dry_run = False, ignore_dangerous_tcmds = False,
     tx_last_payload = ''CTS1+'', tx_last_power = ''60'', tx_last_allow_tx = False, tx_history = [],
     tx_compose_active = True, tx_comp = demo_compose, tx_compose_last_edit_ns = 0, auto_tcmd_active = False,
     auto_run = demo_auto, auto_tcmd_file_path = ''a.txt'', tx_request = demo_request\<lparr>rq_pending := False\<rparr>,
     tx_inflight = False, tx_burst_submit_ns = 0, last_burst_wall_s = -1, last_burst_on_air = False,
     last_burst_outcome = [], tx_request_staged_ns = 0, prev_send_staged_ns = 0, last_burst_slot_s = -1,
     last_send_period_s = -1, tx_freq_hz_doppler = 436150000, sso_pass_tssent_ms = 1699999980000, no_tx = False,
     tx_preroll_ms = 200, tx_log = [], tx_log_path = None, st_rx_session = Some demo_rxs, st_can_tx = True,
     st_ipc = True, st_operator_user = Some ''op'', st_pass_folder = ''pass'', st_folder_writable = True,
     st_testing_mode = False, st_elevation = 30, st_minutes_until_visible = 0, st_out = []\<rparr>"


end
