(* ===== verification/Tx_Compose.thy ===== *)
theory Tx_Compose
  imports Tx_State
begin

text \<open>
  \<^verbatim>\<open>src/src/ui/tx_compose.c\<close>: the compose window, built with SDR support. Every key handler, the
  history, validation, the commit that stages a burst request, the debounced preview and the
  event emitter. Drawing is left out; whether the window could be created and how an escape
  sequence continues come from the terminal and are arguments.
\<close>

section \<open>Keys\<close>

datatype key =
    KChar nat | KEY_ENTER | KEY_BTAB | KEY_BACKSPACE | KEY_DC | KEY_LEFT | KEY_RIGHT | KEY_HOME
  | KEY_END | KEY_UP | KEY_DOWN | KEY_OTHER | ERR

definition is_enter :: "key \<Rightarrow> bool" where
  "is_enter k \<longleftrightarrow> k = KChar 10 \<or> k = KChar 13 \<or> k = KEY_ENTER"

section \<open>History\<close>

definition TX_HISTORY_MAX :: nat where "TX_HISTORY_MAX = 32"

definition tx_history_push :: "string \<Rightarrow> state \<Rightarrow> state" where
  "tx_history_push payload s =
     (if payload = [] then s
      else if tx_history s \<noteq> [] \<and> hd (tx_history s) = payload then s
      else s\<lparr>tx_history := snprintf 256 payload # take (TX_HISTORY_MAX - 1) (tx_history s)\<rparr>)"

section \<open>The window's fields\<close>

definition tx_compose_init :: "state \<Rightarrow> tx_compose" where
  "tx_compose_init s =
     \<lparr>c_payload = snprintf 256 (tx_last_payload s), c_power = snprintf 12 (tx_last_power s),
      c_allow_tx = tx_last_allow_tx s, c_focus = TXF_PAYLOAD, c_preview_dirty = False,
      c_status_msg = Msg ''edit; viewers see drafts ~200 ms after you stop typing'' [],
      c_cur_payload = int (length (snprintf 256 (tx_last_payload s))),
      c_cur_power = int (length (snprintf 12 (tx_last_power s))),
      c_history_idx = -1, c_history_saved_edit = []\<rparr>"

definition tx_compose_remember :: "tx_compose \<Rightarrow> state \<Rightarrow> state" where
  "tx_compose_remember c s = s\<lparr>tx_last_payload := snprintf 256 (c_payload c),
     tx_last_power := snprintf 12 (c_power c), tx_last_allow_tx := c_allow_tx c\<rparr>"

definition tx_compose_summary :: "tx_compose \<Rightarrow> nat \<Rightarrow> string" where
  "tx_compose_summary c out_size = snprintf out_size (if c_payload c \<noteq> [] then c_payload c else ''(empty)'')"

definition operator_name :: "state \<Rightarrow> string" where
  "operator_name s = (case st_operator_user s of Some u \<Rightarrow> u | None \<Rightarrow> ''?'')"

definition frontiersat_csp :: csp_v1_header where
  "frontiersat_csp = \<lparr>prio = 2, src = 10, dst = 1, dport = 7, sport = 16, flags = 0\<rparr>"

definition tx_compose_fill_event :: "state \<Rightarrow> tx_compose \<Rightarrow> sso_event \<Rightarrow> sso_event" where
  "tx_compose_fill_event s c evt = evt\<lparr>ev_tx_payload_kind := ''ascii'', ev_tx_payload := snprintf 256 (c_payload c),
     ev_tx_csp := frontiersat_csp, ev_tx_freq_hz := tx_freq_hz_doppler s, ev_tx_gain_db := atof (c_power c),
     ev_tx_repeat := 1, ev_tx_gap_ms := 200, ev_tx_allow_tx := c_allow_tx c,
     ev_ascii := snprintf 256 (tx_compose_summary c 256), ev_from := snprintf 64 (operator_name s)\<rparr>"

fun tx_field_buf :: "tx_compose \<Rightarrow> tx_field \<Rightarrow> (nat \<times> tfield) option" where
  "tx_field_buf c TXF_PAYLOAD = Some (256, (c_payload c, c_cur_payload c))"
| "tx_field_buf c TXF_POWER = Some (12, (c_power c, c_cur_power c))"
| "tx_field_buf c TXF_ALLOW_TX = None"

fun tx_field_put :: "tx_compose \<Rightarrow> tx_field \<Rightarrow> tfield \<Rightarrow> tx_compose" where
  "tx_field_put c TXF_PAYLOAD f = c\<lparr>c_payload := fst f, c_cur_payload := snd f\<rparr>"
| "tx_field_put c TXF_POWER f = c\<lparr>c_power := fst f, c_cur_power := snd f\<rparr>"
| "tx_field_put c TXF_ALLOW_TX f = c"

definition tx_field_clamp_cursor :: "tx_compose \<Rightarrow> tx_field \<Rightarrow> tx_compose" where
  "tx_field_clamp_cursor c f =
     (case tx_field_buf c f of None \<Rightarrow> c | Some (cap, tf) \<Rightarrow> tx_field_put c f (ui_tf_clamp_cursor tf))"

definition tx_field_after_edit :: "tx_compose \<Rightarrow> tx_compose" where
  "tx_field_after_edit c =
     (let c1 = c\<lparr>c_preview_dirty := True\<rparr>
      in if c_focus c = TXF_PAYLOAD then c1\<lparr>c_history_idx := -1\<rparr> else c1)"

text \<open>The common shape of the editing keys: act on the focused text field, note a change.\<close>

definition tx_field_edit :: "(tfield \<Rightarrow> tfield \<times> bool) \<Rightarrow> tx_compose \<Rightarrow> tx_compose" where
  "tx_field_edit op c =
     (case tx_field_buf c (c_focus c) of None \<Rightarrow> c
      | Some (cap, tf) \<Rightarrow>
          (case op tf of (tf', changed) \<Rightarrow>
             let c1 = tx_field_put c (c_focus c) tf' in if changed then tx_field_after_edit c1 else c1))"

definition tx_field_move :: "(tfield \<Rightarrow> tfield) \<Rightarrow> tx_compose \<Rightarrow> tx_compose" where
  "tx_field_move op c =
     (case tx_field_buf c (c_focus c) of None \<Rightarrow> c | Some (cap, tf) \<Rightarrow> tx_field_put c (c_focus c) (op tf))"

definition tx_field_insert :: "nat \<Rightarrow> tx_compose \<Rightarrow> tx_compose" where
  "tx_field_insert ch c =
     (case tx_field_buf c (c_focus c) of None \<Rightarrow> c
      | Some (cap0, tf) \<Rightarrow>
          let cap = (if c_focus c = TXF_PAYLOAD \<and> cap0 > TCMD_RF_MAX_LEN + 1 then TCMD_RF_MAX_LEN + 1 else cap0)
          in if length (fst tf) + 1 \<ge> cap
             then (if c_focus c = TXF_PAYLOAD
                   then c\<lparr>c_status_msg := Msg ''at the %d-char RF uplink limit'' [FInt (int TCMD_RF_MAX_LEN)]\<rparr> else c)
             else
               let accept = (if c_focus c = TXF_PAYLOAD then 32 \<le> ch \<and> ch < 127
                             else (48 \<le> ch \<and> ch \<le> 57) \<or> ch = 46 \<or> ch = 45)
               in if \<not> accept then c
                  else (case ui_tf_insert cap (char_of ch) tf of (tf', changed) \<Rightarrow>
                          let c1 = tx_field_put c (c_focus c) tf'
                          in if changed then tx_field_after_edit c1 else c1))"

definition tx_field_backspace :: "tx_compose \<Rightarrow> tx_compose" where
  "tx_field_backspace = tx_field_edit ui_tf_backspace"

definition tx_field_delete :: "tx_compose \<Rightarrow> tx_compose" where
  "tx_field_delete = tx_field_edit ui_tf_delete"

definition tx_field_kill_to_end :: "tx_compose \<Rightarrow> tx_compose" where
  "tx_field_kill_to_end = tx_field_edit ui_tf_kill_to_end"

definition tx_field_kill_word_back :: "tx_compose \<Rightarrow> tx_compose" where
  "tx_field_kill_word_back = tx_field_edit ui_tf_kill_word_back"

definition tx_field_left :: "tx_compose \<Rightarrow> tx_compose" where
  "tx_field_left = tx_field_move ui_tf_left"

definition tx_field_right :: "tx_compose \<Rightarrow> tx_compose" where
  "tx_field_right = tx_field_move ui_tf_right"

definition tx_field_home :: "tx_compose \<Rightarrow> tx_compose" where
  "tx_field_home = tx_field_move ui_tf_home"

definition tx_field_end :: "tx_compose \<Rightarrow> tx_compose" where
  "tx_field_end = tx_field_move ui_tf_end"

definition tx_field_toggle :: "tx_compose \<Rightarrow> tx_compose" where
  "tx_field_toggle c =
     (if c_focus c = TXF_ALLOW_TX then c\<lparr>c_allow_tx := \<not> c_allow_tx c, c_preview_dirty := True\<rparr> else c)"

text \<open>Direction -1 walks to older entries, +1 back to newer ones and finally to the draft.\<close>

definition tx_history_recall :: "string list \<Rightarrow> int \<Rightarrow> tx_compose \<Rightarrow> tx_compose" where
  "tx_history_recall history direction c =
     (let new_idx = c_history_idx c + (if direction < 0 then 1 else -1)
      in if c_focus c \<noteq> TXF_PAYLOAD \<or> history = [] \<or> new_idx < -1 \<or> new_idx \<ge> int (length history) then c
         else
           let c1 = (if c_history_idx c = -1 \<and> new_idx \<ge> 0
                     then c\<lparr>c_history_saved_edit := snprintf 256 (c_payload c)\<rparr> else c);
               p0 = snprintf 256 (if new_idx = -1 then c_history_saved_edit c1 else history ! nat new_idx);
               p = (if length p0 > TCMD_RF_MAX_LEN then take TCMD_RF_MAX_LEN p0 else p0)
           in c1\<lparr>c_payload := p, c_cur_payload := int (length p), c_history_idx := new_idx, c_preview_dirty := True\<rparr>)"

section \<open>Validation, commit, events\<close>

definition tx_compose_validate :: "tx_compose \<Rightarrow> msg option" where
  "tx_compose_validate c =
     (if c_payload c = [] then Some (Msg ''empty payload'' [])
      else if length (c_payload c) > TCMD_RF_MAX_LEN
      then Some (Msg ''payload %zu chars exceeds the %d-char RF uplink limit''
                   [FInt (int (length (c_payload c))), FInt (int TCMD_RF_MAX_LEN)])
      else if \<not> c_allow_tx c then Some (Msg ''--allow-tx is off; tick it before commit'' [])
      else if atof (c_power c) < 0 \<or> atof (c_power c) > 89.75
      then Some (Msg ''TX power %.1f dB out of B210 range 0..89.75'' [FRat (atof (c_power c))])
      else None)"

definition rx_only :: "state \<Rightarrow> bool" where
  "rx_only s \<longleftrightarrow> st_rx_session s \<noteq> None \<and> \<not> st_can_tx s"

text \<open>The request a commit stages for the text on the wire; \<open>origin\<close> is the SSO+ line it came from, if any.\<close>

definition compose_request :: "state \<Rightarrow> tx_compose \<Rightarrow> string \<Rightarrow> bool \<Rightarrow> tx_request_slot" where
  "compose_request s c wire expanded =
     \<lparr>rq_pending = True, rq_payload = bytes_of (take 2048 wire), rq_is_hex = False, rq_csp_hdr = frontiersat_csp,
      rq_tx_freq_hz = tx_freq_hz_doppler s, rq_tx_gain_db = atof (c_power c), rq_repeat = 1, rq_gap_ms = 200,
      rq_preroll_ms = tx_preroll_ms s, rq_allow_high_power = False, rq_allow_hf_tx = False,
      rq_sso_origin = (if expanded then snprintf 256 (c_payload c) else []),
      rq_tx_source = snprintf 16 ''manual send'',
      rq_summary = (if expanded
        then snprintf 256 (''ascii:'' @ take 150 wire @ '' (replaced '' @ quoted (take 80 (c_payload c)) @ '')'')
        else tx_compose_summary c 256)\<rparr>"

definition tx_compose_commit :: "clock \<Rightarrow> tx_compose \<Rightarrow> state \<Rightarrow> state \<times> msg option" where
  "tx_compose_commit clk c s =
     (if no_tx s then (s, Some (Msg ''TX disabled by --no-tx (preview still goes to viewers)'' []))
      else if rx_only s then (s, Some (Msg ''TX not supported by this SDR (RX-only backend)'' []))
      else if tx_pending s then (s, Some (Msg ''previous burst still in flight'' []))
      else
        case sso_pseudo_expand (c_payload c) \<lparr>now_ms = clk_utc_ms clk, tssent_ms = sso_pass_tssent_ms s\<rparr> 512 160 of
          (pst, wire, sso_err) \<Rightarrow>
            if pst \<noteq> SSO_PSEUDO_OK \<and> pst \<noteq> SSO_PSEUDO_NOT_PSEUDO
            then (s, Some (Msg ''SSO+ expansion failed: %s'' [FStr sso_err]))
            else if wire = [] then (s, Some (Msg ''empty payload'' []))
            else
              let req = compose_request s c wire (pst = SSO_PSEUDO_OK);
                  s1 = s\<lparr>tx_request := req, tx_request_staged_ns := clk_ns clk\<rparr>
              in (emit (OutAudit ''tx-commit'' (Msg ''len=%zu freq_hz=%ld gain_db=%.1f payload=%.255s''
                    [FInt (int (length (rq_payload req))), FInt (rq_tx_freq_hz req), FRat (rq_tx_gain_db req),
                     FStr (c_payload c)])) s1, None))"

definition tx_compose_broadcast_preview :: "clock \<Rightarrow> tx_compose \<Rightarrow> state \<Rightarrow> state" where
  "tx_compose_broadcast_preview clk c s =
     (if \<not> st_ipc s then s
      else let evt = tx_compose_fill_event s c (sso_event_init clk SSO_EVT_TX_COMMAND_PREVIEW)
           in tx_log_push clk evt (emit (OutBroadcast evt) s))"

definition tx_event :: "clock \<Rightarrow> sso_event_type \<Rightarrow> string \<Rightarrow> string \<Rightarrow> state \<Rightarrow> sso_event" where
  "tx_event clk ty summary ack s =
     (sso_event_init clk ty)\<lparr>ev_from := snprintf 64 (operator_name s),
        ev_tx_origin := snprintf 16 (rq_tx_source (tx_request s)), ev_ascii := snprintf 256 summary,
        ev_tx_not_sent_reason := snprintf 24 ack\<rparr>"

definition emit_tx_event_local :: "clock \<Rightarrow> sso_event_type \<Rightarrow> string \<Rightarrow> string \<Rightarrow> state \<Rightarrow> state" where
  "emit_tx_event_local clk ty summary ack s =
     (let evt = tx_event clk ty summary ack s;
          s1 = tx_log_push clk evt s
      in if st_ipc s1 then emit (OutBroadcast evt) s1 else s1)"

section \<open>The window\<close>

definition tx_compose_open :: "clock \<Rightarrow> bool \<Rightarrow> state \<Rightarrow> state" where
  "tx_compose_open clk window_ok s =
     (if \<not> st_ipc s \<or> tx_compose_active s \<or> auto_tcmd_active s \<or> \<not> window_ok then s
      else let c0 = tx_compose_init s;
               c = (if rx_only s then c0\<lparr>c_allow_tx := False\<rparr> else c0)
           in s\<lparr>tx_comp := c, tx_compose_last_edit_ns := clk_ns clk, tx_compose_active := True\<rparr>)"

definition tx_compose_close :: "state \<Rightarrow> state" where
  "tx_compose_close s = s\<lparr>tx_compose_active := False\<rparr>"

fun next_focus :: "tx_field \<Rightarrow> tx_field" where
  "next_focus TXF_PAYLOAD = TXF_POWER" | "next_focus TXF_POWER = TXF_ALLOW_TX" | "next_focus TXF_ALLOW_TX = TXF_PAYLOAD"

fun prev_focus :: "tx_field \<Rightarrow> tx_field" where
  "prev_focus TXF_PAYLOAD = TXF_ALLOW_TX" | "prev_focus TXF_POWER = TXF_PAYLOAD" | "prev_focus TXF_ALLOW_TX = TXF_POWER"

text \<open>The editing keys; \<open>None\<close> for a key the window ignores.\<close>

definition compose_edit_key :: "string list \<Rightarrow> key \<Rightarrow> tx_compose \<Rightarrow> tx_compose option" where
  "compose_edit_key history k c =
     (if k = KChar 9 then Some (tx_field_clamp_cursor (c\<lparr>c_focus := next_focus (c_focus c)\<rparr>) (next_focus (c_focus c)))
      else if k = KEY_BTAB then Some (tx_field_clamp_cursor (c\<lparr>c_focus := prev_focus (c_focus c)\<rparr>) (prev_focus (c_focus c)))
      else if k = KEY_BACKSPACE \<or> k = KChar 127 \<or> k = KChar 8 then Some (tx_field_backspace c)
      else if k = KEY_DC \<or> k = KChar 4 then Some (tx_field_delete c)
      else if k = KChar 11 then Some (tx_field_kill_to_end c)
      else if k = KChar 23 then Some (tx_field_kill_word_back c)
      else if k = KEY_LEFT then Some (tx_field_left c)
      else if k = KEY_RIGHT then Some (tx_field_right c)
      else if k = KEY_HOME \<or> k = KChar 1 then Some (tx_field_home c)
      else if k = KEY_END \<or> k = KChar 5 then Some (tx_field_end c)
      else if k = KEY_UP then Some (tx_history_recall history (-1) c)
      else if k = KEY_DOWN then Some (tx_history_recall history 1 c)
      else if k = KChar 32 \<and> c_focus c = TXF_ALLOW_TX then Some (tx_field_toggle c)
      else case k of KChar ch \<Rightarrow> if 32 \<le> ch \<and> ch < 127 then Some (tx_field_insert ch c) else None | _ \<Rightarrow> None)"

text \<open>
  One key: the new state and whether the window stays open. \<open>csi\<close> is the key an escape
  sequence turns into, \<open>None\<close> for a bare Esc.
\<close>

definition tx_compose_handle_key :: "clock \<Rightarrow> key option \<Rightarrow> key \<Rightarrow> state \<Rightarrow> state \<times> bool" where
  "tx_compose_handle_key clk csi k0 s =
     (let c = tx_comp s; touch = (\<lambda>s. s\<lparr>tx_compose_last_edit_ns := clk_ns clk\<rparr>)
      in if \<not> tx_compose_active s then (s, False)
         else if k0 = ERR then (s, True)
         else if k0 = KChar 27 \<and> csi = None then (tx_compose_remember c s, False)
         else
           let k = (if k0 = KChar 27 then the csi else k0)
           in if is_enter k then
                (case tx_compose_validate c of
                   Some err \<Rightarrow> (touch (s\<lparr>tx_comp := c\<lparr>c_status_msg := Msg ''rejected: %.*s'' [FMsg err]\<rparr>\<rparr>), True)
                 | None \<Rightarrow>
                     (case tx_compose_commit clk c s of
                        (s1, Some err) \<Rightarrow>
                          (touch (s1\<lparr>tx_comp := c\<lparr>c_status_msg := Msg ''commit failed: %.*s'' [FMsg err]\<rparr>\<rparr>), True)
                      | (s1, None) \<Rightarrow> (tx_compose_remember c (tx_history_push (c_payload c) s1), False)))
              else
                (case compose_edit_key (tx_history s) k c of
                   Some c1 \<Rightarrow> (touch (s\<lparr>tx_comp := c1\<rparr>), True)
                 | None \<Rightarrow> (s, True)))"

definition g_tx_compose_debounce_ns :: int where "g_tx_compose_debounce_ns = 200000000"

definition tx_compose_pump :: "clock \<Rightarrow> state \<Rightarrow> state" where
  "tx_compose_pump clk s =
     (if \<not> tx_compose_active s then s
      else if c_preview_dirty (tx_comp s) \<and> clk_ns clk - tx_compose_last_edit_ns s \<ge> g_tx_compose_debounce_ns
      then let s1 = tx_compose_broadcast_preview clk (tx_comp s) s
           in s1\<lparr>tx_comp := (tx_comp s1)\<lparr>c_preview_dirty := False\<rparr>\<rparr>
      else s)"


section \<open>The window's invariant\<close>

text \<open>Text the operator can type and the radio can carry.\<close>

definition typed :: "string \<Rightarrow> bool" where
  "typed t \<longleftrightarrow> list_all (\<lambda>c. 32 \<le> chr_code c \<and> chr_code c < 127) t"

definition telecommand_text :: "string \<Rightarrow> bool" where
  "telecommand_text t \<longleftrightarrow> typed t \<and> length t \<le> TCMD_RF_MAX_LEN"

definition compose_ok :: "string list \<Rightarrow> tx_compose \<Rightarrow> bool" where
  "compose_ok history c \<longleftrightarrow>
     tf_ok (TCMD_RF_MAX_LEN + 1) (c_payload c, c_cur_payload c) \<and> typed (c_payload c) \<and>
     tf_ok 12 (c_power c, c_cur_power c) \<and> telecommand_text (c_history_saved_edit c) \<and>
     -1 \<le> c_history_idx c \<and> c_history_idx c < int (length history)"

definition history_ok :: "string list \<Rightarrow> bool" where
  "history_ok history \<longleftrightarrow> length history \<le> TX_HISTORY_MAX \<and> list_all (\<lambda>p. telecommand_text p \<and> p \<noteq> []) history"

definition uplink_ok :: "state \<Rightarrow> bool" where
  "uplink_ok s \<longleftrightarrow> compose_ok (tx_history s) (tx_comp s) \<and> history_ok (tx_history s) \<and>
     telecommand_text (tx_last_payload s) \<and> length (tx_last_power s) < 12"

lemma typed_subset: "typed t \<Longrightarrow> set t' \<subseteq> set t \<Longrightarrow> typed t'"
  by (auto simp: typed_def list_all_iff)

lemma tf_edit_subset:
  "set (fst (fst (ui_tf_backspace f))) \<subseteq> set (fst f)"
  "set (fst (fst (ui_tf_delete f))) \<subseteq> set (fst f)"
  "set (fst (fst (ui_tf_kill_to_end f))) \<subseteq> set (fst f)"
  "set (fst (fst (ui_tf_kill_word_back f))) \<subseteq> set (fst f)"
  by (auto simp: ui_tf_backspace_def ui_tf_delete_def ui_tf_kill_to_end_def ui_tf_kill_word_back_def Let_def
      split: prod.splits if_splits dest: in_set_takeD in_set_dropD)

lemma tf_move_text:
  "fst (ui_tf_left f) = fst f" "fst (ui_tf_right f) = fst f" "fst (ui_tf_home f) = fst f"
  "fst (ui_tf_end f) = fst f" "fst (ui_tf_clamp_cursor f) = fst f"
  by (simp_all add: ui_tf_left_def ui_tf_right_def ui_tf_home_def ui_tf_end_def ui_tf_clamp_cursor_def Let_def
      split: prod.splits)

lemma compose_ok_after_edit: "compose_ok history c \<Longrightarrow> compose_ok history (tx_field_after_edit c)"
  by (simp add: compose_ok_def tx_field_after_edit_def Let_def)

lemma compose_ok_put:
  assumes "compose_ok history c" "tx_field_buf c f = Some (cap, tf)"
    and "\<And>cap. tf_ok cap tf \<Longrightarrow> tf_ok cap tf'" "set (fst tf') \<subseteq> set (fst tf)"
  shows "compose_ok history (tx_field_put c f tf')"
  using assms by (cases f) (auto simp: compose_ok_def intro: typed_subset)

lemma compose_ok_edit:
  assumes "compose_ok history c" "\<And>cap f. tf_ok cap f \<Longrightarrow> tf_ok cap (fst (op f))"
    "\<And>f. set (fst (fst (op f))) \<subseteq> set (fst f)"
  shows "compose_ok history (tx_field_edit op c)"
proof (cases "tx_field_buf c (c_focus c)")
  case (Some p)
  obtain cap tf where p: "p = (cap, tf)" by (cases p)
  have "compose_ok history (tx_field_put c (c_focus c) (fst (op tf)))"
    by (rule compose_ok_put [OF assms(1) Some [unfolded p]]) (simp_all add: assms)
  then show ?thesis
    using Some p by (cases "op tf") (auto simp: tx_field_edit_def Let_def compose_ok_after_edit)
qed (simp add: tx_field_edit_def assms)

lemma compose_ok_move:
  assumes "compose_ok history c" "\<And>cap f. tf_ok cap f \<Longrightarrow> tf_ok cap (op f)" "\<And>f. fst (op f) = fst f"
  shows "compose_ok history (tx_field_move op c)"
  using assms compose_ok_put [OF assms(1)]
  by (auto simp: tx_field_move_def split: option.splits)

lemma tf_insert_text:
  "set (fst (fst (ui_tf_insert cap ch f))) \<subseteq> insert ch (set (fst f))"
  by (auto simp: ui_tf_insert_def Let_def split: prod.splits if_splits dest: in_set_takeD in_set_dropD)

lemma tf_step_oks:
  "tf_ok cap f \<Longrightarrow> tf_ok cap (fst (ui_tf_insert cap ch f))"
  "tf_ok cap f \<Longrightarrow> tf_ok cap (fst (ui_tf_backspace f))" "tf_ok cap f \<Longrightarrow> tf_ok cap (fst (ui_tf_delete f))"
  "tf_ok cap f \<Longrightarrow> tf_ok cap (fst (ui_tf_kill_to_end f))" "tf_ok cap f \<Longrightarrow> tf_ok cap (fst (ui_tf_kill_word_back f))"
  "tf_ok cap f \<Longrightarrow> tf_ok cap (ui_tf_left f)" "tf_ok cap f \<Longrightarrow> tf_ok cap (ui_tf_right f)"
  "tf_ok cap f \<Longrightarrow> tf_ok cap (ui_tf_home f)" "tf_ok cap f \<Longrightarrow> tf_ok cap (ui_tf_end f)"
  "tf_ok cap f \<Longrightarrow> tf_ok cap (ui_tf_clamp_cursor f)"
  using tf_step_ok [of cap f "TF_Insert ch"] tf_step_ok [of cap f TF_Backspace] tf_step_ok [of cap f TF_Delete]
    tf_step_ok [of cap f TF_Kill] tf_step_ok [of cap f TF_KillWord] tf_step_ok [of cap f TF_Left]
    tf_step_ok [of cap f TF_Right] tf_step_ok [of cap f TF_Home] tf_step_ok [of cap f TF_End]
    tf_step_ok [of cap f TF_Clamp] by simp_all

lemma compose_ok_insert:
  assumes "compose_ok history c"
  shows "compose_ok history (tx_field_insert ch c)"
proof (cases "c_focus c")
  case TXF_PAYLOAD
  obtain tf' b where ins: "ui_tf_insert (TCMD_RF_MAX_LEN + 1) (char_of ch) (c_payload c, c_cur_payload c) = (tf', b)"
    by fastforce
  have ok: "tf_ok (TCMD_RF_MAX_LEN + 1) tf'"
    using tf_step_oks(1) [of "TCMD_RF_MAX_LEN + 1" "(c_payload c, c_cur_payload c)" "char_of ch"] assms ins
    by (simp add: compose_ok_def)
  have "typed (fst tf')" if "32 \<le> ch" "ch < 127"
    using tf_insert_text [of "TCMD_RF_MAX_LEN + 1" "char_of ch" "(c_payload c, c_cur_payload c)"] assms that ins
    by (auto simp: compose_ok_def typed_def list_all_iff chr_code_def subset_eq)
  with ok show ?thesis
    using assms ins TXF_PAYLOAD
    by (simp add: tx_field_insert_def Let_def TCMD_RF_MAX_LEN_def compose_ok_def tx_field_after_edit_def)
next
  case TXF_POWER
  then show ?thesis
    using assms tf_step_oks(1) [of 12 "(c_power c, c_cur_power c)" "char_of ch"]
    by (auto simp: tx_field_insert_def Let_def compose_ok_def tx_field_after_edit_def split: prod.splits)
qed (use assms in \<open>simp add: tx_field_insert_def\<close>)


lemma compose_ok_recall:
  assumes "compose_ok history c" "history_ok history"
  shows "compose_ok history (tx_history_recall history d c)"
proof -
  have hist: "telecommand_text (history ! nat i)" if "0 \<le> i" "i < int (length history)" for i
    using assms(2) that by (auto simp: history_ok_def list_all_iff)
  have pay: "telecommand_text (c_payload c)" using assms(1) by (simp add: compose_ok_def telecommand_text_def tf_ok_def)
  have tt: "tf_ok (TCMD_RF_MAX_LEN + 1) (take TCMD_RF_MAX_LEN t, int (length (take TCMD_RF_MAX_LEN t)))"
    "snprintf 256 t = t" "typed t" "\<not> TCMD_RF_MAX_LEN < length t"
    "tf_ok (Suc TCMD_RF_MAX_LEN) (t, int (length t))" if "telecommand_text t" for t
    using that by (auto simp: telecommand_text_def tf_ok_def snprintf_def TCMD_RF_MAX_LEN_def)
  have saved: "telecommand_text (c_history_saved_edit c)" using assms(1) by (simp add: compose_ok_def)
  show ?thesis
    using assms(1) hist [of "c_history_idx c + 1"] hist [of "c_history_idx c - 1"]
    by (auto simp: tx_history_recall_def Let_def compose_ok_def tt [OF pay] tt [OF saved] pay saved
        tt hist not_less split: if_splits)
qed

lemma compose_ok_focus: "compose_ok history (c\<lparr>c_focus := f\<rparr>) = compose_ok history c"
  by (simp add: compose_ok_def)

lemma compose_ok_clamp: "compose_ok history c \<Longrightarrow> compose_ok history (tx_field_clamp_cursor c f)"
  using compose_ok_put [of history c f] tf_step_oks(10)
  by (auto simp: tx_field_clamp_cursor_def tf_move_text split: option.splits)

lemma compose_ok_key:
  assumes "compose_ok history c" "history_ok history" "compose_edit_key history k c = Some c'"
  shows "compose_ok history c'"
proof -
  note edit = compose_ok_edit [OF assms(1) tf_step_oks(2) tf_edit_subset(1)]
    compose_ok_edit [OF assms(1) tf_step_oks(3) tf_edit_subset(2)]
    compose_ok_edit [OF assms(1) tf_step_oks(4) tf_edit_subset(3)]
    compose_ok_edit [OF assms(1) tf_step_oks(5) tf_edit_subset(4)]
  note move = compose_ok_move [OF assms(1) tf_step_oks(6) tf_move_text(1)]
    compose_ok_move [OF assms(1) tf_step_oks(7) tf_move_text(2)]
    compose_ok_move [OF assms(1) tf_step_oks(8) tf_move_text(3)]
    compose_ok_move [OF assms(1) tf_step_oks(9) tf_move_text(4)]
  have toggle: "compose_ok history (tx_field_toggle c)"
    using assms(1) by (simp add: tx_field_toggle_def compose_ok_def)
  show ?thesis
    using assms(3) edit move toggle compose_ok_recall [OF assms(1,2)] compose_ok_insert [OF assms(1)]
      compose_ok_clamp compose_ok_focus [where c = c] assms(1)
    unfolding compose_edit_key_def tx_field_backspace_def tx_field_delete_def tx_field_kill_to_end_def
      tx_field_kill_word_back_def tx_field_left_def tx_field_right_def tx_field_home_def tx_field_end_def
    by (auto split: if_splits key.splits)
qed


section \<open>Every key keeps the invariant\<close>

datatype compose_event = CKey clock "key option" key | CPump clock | COpen clock bool | CClose

fun compose_step :: "state \<Rightarrow> compose_event \<Rightarrow> state" where
  "compose_step s (CKey clk csi k) = fst (tx_compose_handle_key clk csi k s)"
| "compose_step s (CPump clk) = tx_compose_pump clk s"
| "compose_step s (COpen clk window_ok) = tx_compose_open clk window_ok s"
| "compose_step s CClose = tx_compose_close s"

lemma uplink_ok_cong:
  "tx_history t = tx_history s \<Longrightarrow> tx_comp t = tx_comp s \<Longrightarrow> tx_last_payload t = tx_last_payload s \<Longrightarrow>
   tx_last_power t = tx_last_power s \<Longrightarrow> uplink_ok t = uplink_ok s"
  by (simp add: uplink_ok_def)

lemma compose_ok_text: "compose_ok history c \<Longrightarrow> telecommand_text (c_payload c) \<and> length (c_power c) < 12"
  by (simp add: compose_ok_def telecommand_text_def tf_ok_def)

lemma uplink_ok_remember: "uplink_ok s \<Longrightarrow> compose_ok h c \<Longrightarrow> uplink_ok (tx_compose_remember c s)"
  using compose_ok_text [of h c]
  by (simp add: uplink_ok_def tx_compose_remember_def telecommand_text_def snprintf_def TCMD_RF_MAX_LEN_def)

lemma uplink_ok_push:
  assumes "uplink_ok s" "telecommand_text p"
  shows "uplink_ok (tx_history_push p s)"
proof -
  have "snprintf 256 p = p" using assms(2) by (simp add: telecommand_text_def TCMD_RF_MAX_LEN_def snprintf_def)
  moreover have "list_all P (take n xs)" if "list_all P xs" for P n and xs :: "string list"
    using that by (auto simp: list_all_iff dest: in_set_takeD)
  moreover have "compose_ok h' c" if "compose_ok h c" "length h \<le> length h'" for h h' c
    using that by (simp add: compose_ok_def)
  ultimately show ?thesis
    using assms unfolding uplink_ok_def tx_history_push_def
    by (auto simp: history_ok_def TX_HISTORY_MAX_def compose_ok_def)
qed

lemma commit_frame:
  "tx_compose_commit clk c s = (s1, r) \<Longrightarrow> tx_history s1 = tx_history s \<and> tx_comp s1 = tx_comp s \<and>
   tx_last_payload s1 = tx_last_payload s \<and> tx_last_power s1 = tx_last_power s"
  by (auto simp: tx_compose_commit_def emit_def Let_def split: if_splits prod.splits)

lemma log_push_frame [simp]:
  "tx_history (tx_log_push clk evt s) = tx_history s" "tx_comp (tx_log_push clk evt s) = tx_comp s"
  "tx_last_payload (tx_log_push clk evt s) = tx_last_payload s" "tx_last_power (tx_log_push clk evt s) = tx_last_power s"
  by (simp_all add: tx_log_push_def tx_log_file_append_def emit_def Let_def split: option.splits)

lemma uplink_ok_enter:
  assumes "uplink_ok s" "tx_compose_validate (tx_comp s) = None" "tx_compose_commit clk (tx_comp s) s = (s1, None)"
  shows "uplink_ok (tx_compose_remember (tx_comp s) (tx_history_push (c_payload (tx_comp s)) s1))"
proof -
  have c: "compose_ok (tx_history s) (tx_comp s)" using assms(1) by (simp add: uplink_ok_def)
  have "uplink_ok s1" using assms(1) commit_frame [OF assms(3)] uplink_ok_cong [of s1 s] by simp
  then show ?thesis using c compose_ok_text [OF c] by (blast intro: uplink_ok_remember uplink_ok_push)
qed

lemma uplink_ok_comp:
  "uplink_ok s \<Longrightarrow> compose_ok (tx_history s) c \<Longrightarrow> uplink_ok (s\<lparr>tx_comp := c, tx_compose_last_edit_ns := n\<rparr>)"
  by (simp add: uplink_ok_def)

lemma compose_ok_status: "compose_ok h (c\<lparr>c_status_msg := m\<rparr>) = compose_ok h c"
  by (simp add: compose_ok_def)

lemma uplink_ok_key: "uplink_ok s \<Longrightarrow> uplink_ok (fst (tx_compose_handle_key clk csi k s))"
proof -
  assume ok: "uplink_ok s"
  then have c: "compose_ok (tx_history s) (tx_comp s)" and h: "history_ok (tx_history s)"
    by (simp_all add: uplink_ok_def)
  have fail: "uplink_ok (s1\<lparr>tx_comp := (tx_comp s)\<lparr>c_status_msg := m\<rparr>, tx_compose_last_edit_ns := n\<rparr>)"
    if "tx_compose_commit clk (tx_comp s) s = (s1, r)" for s1 r m n
    using ok c commit_frame [OF that] by (simp add: uplink_ok_def compose_ok_status)
  show ?thesis
    using ok c h compose_ok_key [OF c h] uplink_ok_remember [OF ok c] uplink_ok_enter [OF ok] fail
    by (auto simp: tx_compose_handle_key_def Let_def uplink_ok_comp compose_ok_status split: if_splits option.splits prod.splits)
qed

lemma uplink_ok_open: "uplink_ok s \<Longrightarrow> uplink_ok (tx_compose_open clk window_ok s)"
  by (auto simp: tx_compose_open_def Let_def uplink_ok_def tx_compose_init_def compose_ok_def telecommand_text_def
      tf_ok_def snprintf_def typed_def TCMD_RF_MAX_LEN_def)

lemma uplink_ok_pump: "uplink_ok s \<Longrightarrow> uplink_ok (tx_compose_pump clk s)"
  by (simp add: tx_compose_pump_def tx_compose_broadcast_preview_def Let_def uplink_ok_def compose_ok_def emit_def)

lemma compose_step_ok: "uplink_ok s \<Longrightarrow> uplink_ok (compose_step s e)"
  by (cases e) (simp_all add: uplink_ok_key uplink_ok_open uplink_ok_pump, simp add: tx_compose_close_def uplink_ok_def)

interpretation compose: preserved compose_step uplink_ok
  by unfold_locales (rule compose_step_ok)


text \<open>
  C35: Whatever keys the operator presses, however the window is opened, closed and pumped,
  the payload field never holds more than 215 printable characters, both cursors stay inside
  their fields, the history holds at most 32 sendable commands and its index stays in range.
\<close>

theorem compose_always_sendable:
  assumes "uplink_ok s" and "t = foldl compose_step s es"
  shows "length (c_payload (tx_comp t)) \<le> 215 \<and> typed (c_payload (tx_comp t)) \<and>
    0 \<le> c_cur_payload (tx_comp t) \<and> c_cur_payload (tx_comp t) \<le> int (length (c_payload (tx_comp t))) \<and>
    0 \<le> c_cur_power (tx_comp t) \<and> c_cur_power (tx_comp t) \<le> int (length (c_power (tx_comp t))) \<and>
    length (tx_history t) \<le> 32 \<and> c_history_idx (tx_comp t) < int (length (tx_history t))"
proof -
  have "uplink_ok t" using compose.run_good [OF assms(1)] assms(2) by simp
  then show ?thesis
    by (simp add: uplink_ok_def compose_ok_def history_ok_def tf_ok_def TCMD_RF_MAX_LEN_def TX_HISTORY_MAX_def)
qed

section \<open>What a commit stages\<close>

lemma add_ll_range: "LLONG_MIN \<le> add_ll a b \<and> add_ll a b \<le> LLONG_MAX"
  using pos_mod_bound [of "2 ^ 64" "a + b + 2 ^ 63"] pos_mod_sign [of "2 ^ 64" "a + b + 2 ^ 63"]
  by (simp add: add_ll_def LLONG_MIN_def LLONG_MAX_def)

lemma expand_fits:
  assumes "sso_pseudo_expand cmd \<lparr>now_ms = a, tssent_ms = t\<rparr> 512 160 = (st, wire, e)"
    and "st = SSO_PSEUDO_OK \<or> st = SSO_PSEUDO_NOT_PSEUDO" "length cmd \<le> 215" "LLONG_MIN \<le> t" "t \<le> LLONG_MAX"
  shows "length wire \<le> 215 \<and> (\<not> sso_pseudo_is_directed cmd \<longrightarrow> wire = cmd)"
proof (cases "sso_pseudo_is_directed cmd")
  case False
  then show ?thesis using assms by (auto simp: sso_pseudo_expand_def snprintf_def)
next
  case True
  then have "st \<noteq> SSO_PSEUDO_NOT_PSEUDO"
    using assms(1)
    by (auto simp: sso_pseudo_expand_def Let_def spec_find_def SSO_PSEUDO_SPEC_def expand_sync_sat_time_to_ground_def
        split: if_splits option.splits prod.splits)
  then have "wire = sync_command (add_ll a 500) t"
    using assms(1,2) expand_ok_shape by fastforce
  then show ?thesis
    using True length_show_int [of "add_ll a 500"] length_show_int [of t] add_ll_range [of a 500] assms(4,5)
    by (simp add: sync_command_def)
qed

definition range_ok :: "state \<Rightarrow> bool" where
  "range_ok s \<longleftrightarrow> LLONG_MIN \<le> sso_pass_tssent_ms s \<and> sso_pass_tssent_ms s \<le> LLONG_MAX"

lemma commit_staged:
  assumes "tx_compose_commit clk c s = (s1, None)"
  obtains st wire e where
    "sso_pseudo_expand (c_payload c) \<lparr>now_ms = clk_utc_ms clk, tssent_ms = sso_pass_tssent_ms s\<rparr> 512 160 = (st, wire, e)"
    "st = SSO_PSEUDO_OK \<or> st = SSO_PSEUDO_NOT_PSEUDO" "wire \<noteq> []" "\<not> no_tx s" "\<not> rx_only s" "\<not> tx_pending s"
    "tx_request s1 = compose_request s c wire (st = SSO_PSEUDO_OK)"
  using assms by (auto simp: tx_compose_commit_def emit_def Let_def split: if_splits prod.splits)

lemma commit_failed: "tx_compose_commit clk c s = (s1, Some m) \<Longrightarrow> s1 = s"
  by (auto simp: tx_compose_commit_def Let_def split: if_splits prod.splits)

lemma request_frame [simp]:
  "tx_request (tx_compose_remember c s) = tx_request s" "tx_request (tx_history_push p s) = tx_request s"
  by (simp_all add: tx_compose_remember_def tx_history_push_def)

lemma key_stages:
  assumes "tx_compose_handle_key clk csi k s = (s', stays)" "\<not> tx_pending s" "tx_pending s'"
  obtains s1 where "tx_compose_validate (tx_comp s) = None" "tx_compose_commit clk (tx_comp s) s = (s1, None)"
    "tx_request s' = tx_request s1" "\<not> stays"
  using assms
  by (auto simp: tx_compose_handle_key_def Let_def tx_pending_def split: if_splits option.splits prod.splits dest: commit_failed)


lemma demo_uplink_ok: "uplink_ok demo_state"
proof -
  have "typed ''CTS1+hello_world()!''" "typed ''CTS1+''" "typed []" by (simp_all add: typed_def chr_code_def)
  then show ?thesis
    by (simp add: uplink_ok_def demo_state_def demo_compose_def compose_ok_def history_ok_def telecommand_text_def tf_ok_def
        TCMD_RF_MAX_LEN_def TX_HISTORY_MAX_def)
qed

theorem compose_always_sendable_witness:
  "length (c_payload (tx_comp (foldl compose_step demo_state (replicate 500 (CKey demo_clock None (KChar 65)))))) \<le> 215"
  using compose_always_sendable [OF demo_uplink_ok refl] by blast

lemma demo_enter:
  "tx_pending (fst (tx_compose_handle_key demo_clock None KEY_ENTER demo_state))"
proof -
  have d: "\<not> sso_pseudo_is_directed ''CTS1+hello_world()!''" by code_simp
  have v: "tx_compose_validate demo_compose = None" by code_simp
  then show ?thesis
    using d by (simp add: tx_compose_handle_key_def demo_state_def is_enter_def tx_compose_commit_def sso_pseudo_expand_def
        rx_only_def tx_pending_def Let_def emit_def compose_request_def demo_compose_def [symmetric])
      (simp add: demo_compose_def snprintf_def)
qed


end
