(* ===== verification/Auto_Load.thy ===== *)
theory Auto_Load
  imports Tcmd_Lint
begin

text \<open>
  The file loader of \<^verbatim>\<open>src/src/ui/auto_tcmd.c\<close> and its relation to the linter, which reads the same
  file with its own loop: on files without carriage returns and with lines below the loader's
  buffer size, both see the same commands; beyond that they do not.
\<close>

section \<open>The loader\<close>

definition str_trim_inplace :: "string \<Rightarrow> string" where
  "str_trim_inplace t = trim t"

definition strip_inline_comment :: "string \<Rightarrow> string" where
  "strip_inline_comment t = take (snd (agenda_find_inline_comment t)) t"

text \<open>The command a line of the file holds, if any; a line is what \<^verbatim>\<open>fgets\<close> returns for a 512-byte buffer.\<close>

definition load_line :: "string \<Rightarrow> string option" where
  "load_line line =
     (let t = str_trim_inplace line
      in if t = [] \<or> hd t = CHR ''#'' then None
         else let u = strip_inline_comment t in if u = [] then None else Some u)"

definition auto_tcmd_load_file :: "string option \<Rightarrow> string list option" where
  "auto_tcmd_load_file content =
     (case content of None \<Rightarrow> None | Some text \<Rightarrow> Some (List.map_filter load_line (fgets_lines 512 text)))"

section \<open>The comment rule as a recursion\<close>

fun cut_comment :: "bool \<Rightarrow> string \<Rightarrow> string" where
  "cut_comment prev [] = []"
| "cut_comment prev (c # cs) = (if c = CHR ''#'' \<and> prev then [] else c # cut_comment (isblank c) cs)"

lemma cut_comment_scan:
  "cut_comment (i = 0 \<or> isblank (s ! (i - 1))) (drop i s) =
     (case agenda_comment_scan s i of (Some p, n) \<Rightarrow> take (p - i) (drop i s) | (None, n) \<Rightarrow> drop i s) \<and>
   (case agenda_comment_scan s i of (Some p, n) \<Rightarrow> i \<le> p | _ \<Rightarrow> True)"
proof (induction s i rule: agenda_comment_scan.induct)
  case (1 s i)
  show ?case
  proof (cases "i < length s")
    case False
    then show ?thesis by (subst (1 2) agenda_comment_scan.simps) simp
  next
    case True
    then have d: "drop i s = s ! i # drop (Suc i) s" by (simp add: Cons_nth_drop_Suc)
    show ?thesis
    proof (cases "s ! i = CHR ''#'' \<and> (i = 0 \<or> isblank (s ! (i - 1)))")
      case True
      with \<open>i < length s\<close> show ?thesis by (subst (1 2) agenda_comment_scan.simps) (auto simp: d)
    next
      case False
      then have e: "agenda_comment_scan s i = agenda_comment_scan s (i + 1)"
        using \<open>i < length s\<close> by (subst agenda_comment_scan.simps) auto
      have c: "cut_comment (i = 0 \<or> isblank (s ! (i - 1))) (drop i s) = s ! i # cut_comment (isblank (s ! i)) (drop (i + 1) s)"
        using False by (auto simp: d)
      show ?thesis
        using 1 [OF \<open>i < length s\<close> False] unfolding e c
        by (auto simp: d Suc_diff_Suc Suc_le_eq split: prod.splits option.splits)
          (metis Suc_diff_Suc Suc_le_eq take_Suc_Cons)
    qed
  qed
qed

lemma trim_append_white: "list_all istrim w \<Longrightarrow> trim (t @ w) = trim t"
proof -
  assume w: "list_all istrim w"
  have "dropWhile istrim (t @ w) = (if list_all istrim t then [] else dropWhile istrim t @ w)"
    using w by (auto simp: list_all_iff dropWhile_append dropWhile_eq_Nil_conv)
  moreover have "dropWhile istrim (rev w @ x) = dropWhile istrim x" for x
    using w dropWhile_append2 [of "rev w" istrim x] by (auto simp: list_all_iff)
  moreover have "dropWhile istrim t = []" if "list_all istrim t" using that by (simp add: list_all_iff)
  ultimately show ?thesis by (simp add: trim_def del: dropWhile_eq_Nil_conv)
qed

lemma trim_prepend_white: "list_all istrim w \<Longrightarrow> trim (w @ t) = trim t"
  by (simp add: trim_def list_all_iff dropWhile_append2)

lemma isblank_istrim: "isblank c \<Longrightarrow> istrim c"
  by (auto simp: isblank_def istrim_def)

lemma trim_strip: "trim (strip_inline_comment s) = trim (cut_comment True s)"
proof (cases "agenda_comment_scan s 0")
  case (Pair po n)
  show ?thesis
  proof (cases po)
    case None
    then show ?thesis
      using cut_comment_scan [of 0 s] agenda_comment_scan_spec [of 0 s] Pair
      by (simp add: strip_inline_comment_def agenda_find_inline_comment_def)
  next
    case (Some p)
    then have sc: "agenda_comment_scan s 0 = (Some p, n)" using Pair by simp
    have spec: "p < length s" "n = agenda_back_up s p"
      using agenda_comment_scan_spec [of 0 s] sc by simp_all
    have "take p s = take n s @ drop n (take p s)"
      using agenda_back_up_le [of s p] spec by (metis append_take_drop_id min.absorb1 take_take)
    moreover have "list_all istrim (drop n (take p s))"
      using agenda_back_up_blank [of s p] spec isblank_istrim
      by (auto simp: list_all_length)
    ultimately have "trim (take n s) = trim (take p s)" using trim_append_white by metis
    then show ?thesis
      using cut_comment_scan [of 0 s] sc by (simp add: strip_inline_comment_def agenda_find_inline_comment_def)
  qed
qed


section \<open>Both readers see the same commands\<close>

lemma cut_comment_white: "list_all isblank b \<Longrightarrow> cut_comment True (b @ r) = b @ cut_comment True r"
  by (induction b) (auto simp: isblank_def)

lemma cut_comment_append:
  "cut_comment f (t @ w) = cut_comment f t \<or> cut_comment f t = t"
  by (induction t arbitrary: f) auto

lemma cut_comment_no_hash: "CHR ''#'' \<notin> set w \<Longrightarrow> cut_comment f w = w"
  by (induction w arbitrary: f) auto

lemma cut_comment_tail: "CHR ''#'' \<notin> set w \<Longrightarrow> cut_comment f t = t \<Longrightarrow> cut_comment f (t @ w) = t @ w"
proof (induction t arbitrary: f)
  case Nil
  then show ?case by (simp add: cut_comment_no_hash)
qed (auto split: if_splits)

lemma trim_cut_tail:
  assumes "list_all istrim w"
  shows "trim (cut_comment f (t @ w)) = trim (cut_comment f t)"
proof -
  have "CHR ''#'' \<notin> set w" using assms by (auto simp: list_all_iff istrim_def)
  then show ?thesis
    using cut_comment_append [of f t w] cut_comment_tail [of w f t] trim_append_white [OF assms] by metis
qed

lemma rev_trim_split: "\<exists>w. t = rev (dropWhile istrim (rev t)) @ w \<and> list_all istrim w"
proof -
  have "t = rev (dropWhile istrim (rev t)) @ rev (takeWhile istrim (rev t))"
    by (metis rev_append rev_rev_ident takeWhile_dropWhile_id)
  moreover have "list_all istrim (rev (takeWhile istrim (rev t)))"
    by (auto simp: list_all_iff dest: set_takeWhileD)
  ultimately show ?thesis by blast
qed

text \<open>A text that neither starts nor ends with white space.\<close>

lemma trim_id: "t = [] \<or> (\<not> istrim (hd t) \<and> \<not> istrim (last t)) \<Longrightarrow> trim t = t"
proof (cases "t = []")
  case False
  assume "t = [] \<or> (\<not> istrim (hd t) \<and> \<not> istrim (last t))"
  with False have h: "\<not> istrim (hd t)" "\<not> istrim (last t)" by simp_all
  have "dropWhile istrim t = t" using False h(1) by (cases t) simp_all
  moreover have "dropWhile istrim (rev t) = rev t" using False h(2) by (cases t rule: rev_cases) simp_all
  ultimately show ?thesis by (simp add: trim_def)
qed (simp add: trim_def)

lemma trim_ends: "trim t = [] \<or> (\<not> istrim (hd (trim t)) \<and> \<not> istrim (last (trim t)))"
proof (cases "trim t = []")
  case False
  let ?u = "dropWhile istrim t"
  have l: "\<not> istrim (last (trim t))"
    using False hd_dropWhile [of istrim "rev ?u"] by (auto simp: trim_def last_rev)
  obtain w where w: "?u = trim t @ w" using rev_trim_split [of ?u] by (auto simp: trim_def)
  have "?u \<noteq> []" using False w by auto
  then have "\<not> istrim (hd ?u)" by (rule hd_dropWhile)
  then have "\<not> istrim (hd (trim t))" using w False by (metis hd_append2)
  with l show ?thesis by blast
qed simp

lemma strip_trimmed:
  assumes "t \<noteq> []" "\<not> istrim (hd t)" "\<not> istrim (last t)" "hd t \<noteq> CHR ''#''" "CHR 0x0D \<notin> set t" "CHR 0x0A \<notin> set t"
  shows "strip_inline_comment t = trim (cut_comment True t)"
proof -
  let ?u = "strip_inline_comment t"
  have "?u = [] \<or> (\<not> istrim (hd ?u) \<and> \<not> istrim (last ?u))"
  proof (cases "agenda_comment_scan t 0")
    case (Pair po n)
    show ?thesis
    proof (cases po)
      case None
      then show ?thesis
        using Pair agenda_comment_scan_spec [of 0 t] assms by (simp add: strip_inline_comment_def agenda_find_inline_comment_def)
    next
      case (Some p)
      then have p: "p < length t" "n = agenda_back_up t p"
        using Pair agenda_comment_scan_spec [of 0 t] by simp_all
      have n: "n < length t" using p agenda_back_up_le [of t p] by simp
      have u: "?u = take n t" using Pair by (simp add: strip_inline_comment_def agenda_find_inline_comment_def)
      have "\<not> istrim (last ?u)" if "0 < n"
      proof -
        have "last ?u = t ! (n - 1)" using u n that by (subst last_conv_nth) auto
        moreover have "\<not> isblank (t ! (n - 1))" using agenda_back_up_last [of t p] p(2) that by simp
        moreover have "t ! (n - 1) \<in> set t" using n by simp
        ultimately show ?thesis using assms(5,6) by (auto simp: istrim_def isblank_def)
      qed
      moreover have "hd ?u = hd t" if "0 < n" using u that by simp
      ultimately show ?thesis using u assms(2) by (cases "n = 0") auto
    qed
  qed
  then show ?thesis using trim_id [of ?u] trim_strip [of t] by simp
qed


text \<open>A line that \<^verbatim>\<open>fgets\<close> returns has a newline at its end at most.\<close>

lemma fgets_go_newline:
  "CHR 0x0A \<notin> set cur \<Longrightarrow> l \<in> set (fgets_go k cur s) \<Longrightarrow> CHR 0x0A \<notin> set (butlast l) \<and> set l \<subseteq> set cur \<union> set s"
  by (induction k cur s rule: fgets_go.induct) (auto simp: Let_def split: if_splits dest: in_set_butlastD)

lemma load_line_lint:
  assumes "CHR 0x0D \<notin> set l" "CHR 0x0A \<notin> set (butlast l)" "length l < 4096"
  shows "load_line l = lint_line_command l"
proof -
  define b where "b = takeWhile isblank l"
  define p where "p = dropWhile isblank l"
  have l: "l = b @ p" by (simp add: b_def p_def)
  have b: "list_all isblank b" by (auto simp: b_def list_all_iff dest: set_takeWhileD)
  then have bt: "list_all istrim b" by (auto simp: list_all_iff isblank_istrim)
  have len: "take (if snd (agenda_find_inline_comment l) < 4096 then snd (agenda_find_inline_comment l) else 4095) l = strip_inline_comment l"
    using agenda_cmd_len_le [of l] assms(3) by (simp add: strip_inline_comment_def)
  have tp: "trim l = trim p" using trim_prepend_white [OF bt] by (simp add: l)
  show ?thesis
  proof (cases "p = [] \<or> hd p \<in> {CHR 0x0A, CHR 0x0D}")
    case True
    then have "p = [] \<or> p = [CHR 0x0A]" using assms l by (cases p) (auto simp: butlast_append split: if_splits)
    then have "trim p = []" by (auto simp: trim_def istrim_def)
    then show ?thesis using True by (auto simp: load_line_def lint_line_command_def str_trim_inplace_def tp p_def)
  next
    case False
    have hp: "\<not> istrim (hd p)" using False hd_dropWhile [of isblank l] by (auto simp: p_def istrim_def isblank_def)
    then have dp: "dropWhile istrim p = p" using False by (cases p) simp_all
    then obtain w where w: "p = trim p @ w" "list_all istrim w" using rev_trim_split [of p] by (auto simp: trim_def)
    have t: "trim p \<noteq> []" using w False hp by (cases p) (auto simp: list_all_iff)
    have ht: "hd (trim p) = hd p" using w(1) t by (metis hd_append2)
    have nl: "CHR 0x0A \<notin> set (trim p)"
    proof
      assume "CHR 0x0A \<in> set (trim p)"
      moreover have "\<not> istrim (last (trim p))" using trim_ends [of p] t by simp
      then have "last (trim p) \<noteq> CHR 0x0A" by (auto simp: istrim_def)
      ultimately have "CHR 0x0A \<in> set (butlast (trim p))" by (cases "trim p" rule: rev_cases) auto
      then have "CHR 0x0A \<in> set (butlast (trim p @ w))" by (auto simp: butlast_append dest: in_set_butlastD)
      moreover have "CHR 0x0A \<notin> set (butlast p)" using assms(2) False by (simp add: l butlast_append)
      ultimately show False using w(1) by simp
    qed
    have cr: "CHR 0x0D \<notin> set (trim p)" using assms(1) w(1) l by (metis Un_iff set_append)
    have "trim (cut_comment True l) = trim (cut_comment True p)"
      using cut_comment_white [OF b] trim_prepend_white [OF bt] by (simp add: l)
    also have "\<dots> = trim (cut_comment True (trim p))" using trim_cut_tail [OF w(2)] w(1) by metis
    finally have e: "trim (strip_inline_comment l) = trim (cut_comment True (trim p))" by (simp add: trim_strip)
    show ?thesis
    proof (cases "hd p = CHR ''#''")
      case True
      then show ?thesis using False t ht by (simp add: load_line_def lint_line_command_def str_trim_inplace_def tp p_def [symmetric])
    next
      case nh: False
      have "strip_inline_comment (trim p) = trim (cut_comment True (trim p))"
        using strip_trimmed [OF t] trim_ends [of p] t ht nh cr nl by auto
      then show ?thesis
        using False nh t ht e
        by (simp add: load_line_def lint_line_command_def str_trim_inplace_def tp p_def [symmetric] len Let_def)
    qed
  qed
qed


lemma fgets_go_first: "cur \<noteq> [] \<Longrightarrow> \<exists>l ls. fgets_go k cur s = l # ls \<and> length cur \<le> length l"
  by (induction k cur s rule: fgets_go.induct) (fastforce simp: Let_def)+

lemma fgets_go_short:
  "(\<forall>l \<in> set (fgets_go K cur s). length l < k) \<Longrightarrow> k \<le> K \<Longrightarrow> fgets_go k cur s = fgets_go K cur s"
proof (induction K cur s rule: fgets_go.induct)
  case (2 K cur c cs)
  show ?case
  proof (cases "c = CHR 0x0A \<or> K \<le> length (cur @ [c])")
    case True
    then show ?thesis using 2 by (auto simp: Let_def)
  next
    case False
    obtain l ls where l: "fgets_go K (cur @ [c]) cs = l # ls" "length (cur @ [c]) \<le> length l"
      using fgets_go_first [of "cur @ [c]" K cs] by blast
    then have "length (cur @ [c]) < k" using 2(3) False by (auto simp: Let_def)
    then show ?thesis using 2(2) [OF refl False] 2(3,4) False by (auto simp: Let_def)
  qed
qed simp

text \<open>A file both readers agree on.\<close>

definition plain_file :: "string \<Rightarrow> bool" where
  "plain_file txt \<longleftrightarrow> CHR 0x0D \<notin> set txt \<and> list_all (\<lambda>l. length l < 511) (fgets_lines 4096 txt)"

lemma load_is_lint:
  assumes "plain_file txt"
  shows "auto_tcmd_load_file (Some txt) = Some (file_commands txt)"
proof -
  have "fgets_lines 512 txt = fgets_lines 4096 txt"
    using assms fgets_go_short [where K = "4095" and cur = "[]" and s = "txt" and k = "511"] by (simp add: plain_file_def fgets_lines_def list_all_iff)
  moreover have "load_line l = lint_line_command l" if "l \<in> set (fgets_lines 4096 txt)" for l
    using that assms fgets_go_newline [of "[]" l "4095" "txt"] fgets_lines_bound [of "4096" l "txt"]
    by (intro load_line_lint) (auto simp: fgets_lines_def plain_file_def)
  ultimately show ?thesis
    by (simp add: auto_tcmd_load_file_def file_commands_def map_filter_def cong: filter_cong map_cong)
qed




end
