(* ===== verification/Auto_Tcmd.thy ===== *)
theory Auto_Tcmd
  imports Tx_Compose Auto_Load
begin

text \<open>
  \<^verbatim>\<open>src/src/ui/auto_tcmd.c\<close>: the unattended run of a telecommand file. Loading, linting, the setup
  form, the run's state machine (setup, running, the pause and resume prompts, paused, stopped,
  done, pass over) and the tick that stages one burst at a time. Drawing is left out; the
  contents of the file, whether the null device and the window could be opened and how an
  escape sequence continues are arguments.
\<close>

section \<open>Estimates, logging, progress\<close>

definition AUTO_TCMD_MIN_INTERVAL_S :: rat where "AUTO_TCMD_MIN_INTERVAL_S = 1"

definition auto_tcmd_burst_seconds :: "state \<Rightarrow> nat \<Rightarrow> rat" where
  "auto_tcmd_burst_seconds s payload_len =
     0.5 + of_int (tx_preroll_ms s) / 1000 + of_nat ((80 + payload_len) * 8) / 9600 + 0.05"

definition fmt_minsec :: "rat \<Rightarrow> string" where
  "fmt_minsec seconds =
     (let total = \<lfloor>(if seconds < 0 then 0 else seconds) + 1 / 2\<rfloor>
      in show_int (total div 60) @ ''m '' @ show_int (total mod 60) @ ''s'')"

definition auto_tcmd_log :: "string \<Rightarrow> msg \<Rightarrow> state \<Rightarrow> state" where
  "auto_tcmd_log event det s =
     (let s1 = emit (OutAudit event det) s
      in if st_pass_folder s1 = [] \<or> \<not> st_folder_writable s1 then s1 else emit (OutSession event det) s1)"

fun auto_tcmd_state_label :: "auto_tcmd_state \<Rightarrow> string" where
  "auto_tcmd_state_label AUTO_STATE_SETUP = ''idle''"
| "auto_tcmd_state_label AUTO_STATE_RUNNING = ''running''"
| "auto_tcmd_state_label AUTO_STATE_STOPPED = ''stopped''"
| "auto_tcmd_state_label AUTO_STATE_DONE = ''done''"
| "auto_tcmd_state_label AUTO_STATE_PASS_OVER = ''pass-over''"
| "auto_tcmd_state_label AUTO_STATE_PAUSE_PROMPT = ''interrupt?''"
| "auto_tcmd_state_label AUTO_STATE_PAUSED = ''paused''"
| "auto_tcmd_state_label AUTO_STATE_RESUME_PROMPT = ''resume?''"

text \<open>Sends queued, sends planned and the state's label; \<open>None\<close> when there is no run to report.\<close>

definition auto_tcmd_progress :: "state \<Rightarrow> (nat \<times> nat \<times> string) option" where
  "auto_tcmd_progress s =
     (let a = auto_run s
      in if \<not> auto_tcmd_active s \<or> a_state a = AUTO_STATE_SETUP then None
         else Some (a_sends_total a, a_n_commands a * a_repeats_total a, auto_tcmd_state_label (a_state a)))"

section \<open>The setup form\<close>

fun auto_field_buf :: "auto_tcmd \<Rightarrow> auto_tcmd_field \<Rightarrow> (nat \<times> tfield) option" where
  "auto_field_buf a AUTO_F_POWER = Some (12, (a_power a, a_cur_power a))"
| "auto_field_buf a AUTO_F_REPEATS = Some (8, (a_repeats a, a_cur_repeats a))"
| "auto_field_buf a AUTO_F_INTERVAL = Some (12, (a_interval_s a, a_cur_interval a))"
| "auto_field_buf a AUTO_F_ALLOW_TX = None"

fun auto_field_put :: "auto_tcmd \<Rightarrow> auto_tcmd_field \<Rightarrow> tfield \<Rightarrow> auto_tcmd" where
  "auto_field_put a AUTO_F_POWER f = a\<lparr>a_power := fst f, a_cur_power := snd f\<rparr>"
| "auto_field_put a AUTO_F_REPEATS f = a\<lparr>a_repeats := fst f, a_cur_repeats := snd f\<rparr>"
| "auto_field_put a AUTO_F_INTERVAL f = a\<lparr>a_interval_s := fst f, a_cur_interval := snd f\<rparr>"
| "auto_field_put a AUTO_F_ALLOW_TX f = a"

fun auto_field_char_ok :: "auto_tcmd_field \<Rightarrow> nat \<Rightarrow> bool" where
  "auto_field_char_ok AUTO_F_REPEATS ch = (48 \<le> ch \<and> ch \<le> 57)"
| "auto_field_char_ok AUTO_F_ALLOW_TX ch = False"
| "auto_field_char_ok f ch = ((48 \<le> ch \<and> ch \<le> 57) \<or> ch = 46 \<or> ch = 45)"

text \<open>An operation on one text field, a no-op on the toggle.\<close>

definition auto_field_on :: "auto_tcmd_field \<Rightarrow> (nat \<Rightarrow> tfield \<Rightarrow> tfield) \<Rightarrow> auto_tcmd \<Rightarrow> auto_tcmd" where
  "auto_field_on f op a =
     (case auto_field_buf a f of None \<Rightarrow> a | Some (cap, tf) \<Rightarrow> auto_field_put a f (op cap tf))"

definition auto_field_clamp_cursor :: "auto_tcmd \<Rightarrow> auto_tcmd_field \<Rightarrow> auto_tcmd" where
  "auto_field_clamp_cursor a f = auto_field_on f (\<lambda>cap. ui_tf_clamp_cursor) a"

definition auto_field_insert :: "nat \<Rightarrow> auto_tcmd \<Rightarrow> auto_tcmd" where
  "auto_field_insert ch a =
     (if \<not> auto_field_char_ok (a_focus a) ch then a
      else auto_field_on (a_focus a) (\<lambda>cap tf. fst (ui_tf_insert cap (char_of ch) tf)) a)"

definition auto_field_backspace :: "auto_tcmd \<Rightarrow> auto_tcmd" where
  "auto_field_backspace a = auto_field_on (a_focus a) (\<lambda>cap tf. fst (ui_tf_backspace tf)) a"

definition auto_field_delete :: "auto_tcmd \<Rightarrow> auto_tcmd" where
  "auto_field_delete a = auto_field_on (a_focus a) (\<lambda>cap tf. fst (ui_tf_delete tf)) a"

definition auto_field_kill_to_end :: "auto_tcmd \<Rightarrow> auto_tcmd" where
  "auto_field_kill_to_end a = auto_field_on (a_focus a) (\<lambda>cap tf. fst (ui_tf_kill_to_end tf)) a"

definition auto_field_kill_word_back :: "auto_tcmd \<Rightarrow> auto_tcmd" where
  "auto_field_kill_word_back a = auto_field_on (a_focus a) (\<lambda>cap tf. fst (ui_tf_kill_word_back tf)) a"

definition auto_field_left :: "auto_tcmd \<Rightarrow> auto_tcmd" where
  "auto_field_left a = auto_field_on (a_focus a) (\<lambda>cap. ui_tf_left) a"

definition auto_field_right :: "auto_tcmd \<Rightarrow> auto_tcmd" where
  "auto_field_right a = auto_field_on (a_focus a) (\<lambda>cap. ui_tf_right) a"

definition auto_field_home :: "auto_tcmd \<Rightarrow> auto_tcmd" where
  "auto_field_home a = auto_field_on (a_focus a) (\<lambda>cap. ui_tf_home) a"

definition auto_field_end :: "auto_tcmd \<Rightarrow> auto_tcmd" where
  "auto_field_end a = auto_field_on (a_focus a) (\<lambda>cap. ui_tf_end) a"

definition auto_field_toggle :: "auto_tcmd \<Rightarrow> auto_tcmd" where
  "auto_field_toggle a = (if a_focus a = AUTO_F_ALLOW_TX then a\<lparr>a_allow_tx := \<not> a_allow_tx a\<rparr> else a)"

fun auto_next :: "auto_tcmd_field \<Rightarrow> auto_tcmd_field" where
  "auto_next AUTO_F_POWER = AUTO_F_REPEATS" | "auto_next AUTO_F_REPEATS = AUTO_F_INTERVAL"
| "auto_next AUTO_F_INTERVAL = AUTO_F_ALLOW_TX" | "auto_next AUTO_F_ALLOW_TX = AUTO_F_POWER"

fun auto_prev :: "auto_tcmd_field \<Rightarrow> auto_tcmd_field" where
  "auto_prev AUTO_F_POWER = AUTO_F_ALLOW_TX" | "auto_prev AUTO_F_REPEATS = AUTO_F_POWER"
| "auto_prev AUTO_F_INTERVAL = AUTO_F_REPEATS" | "auto_prev AUTO_F_ALLOW_TX = AUTO_F_INTERVAL"

section \<open>Opening and closing\<close>

text \<open>The status line after a load.\<close>

definition load_status :: "state \<Rightarrow> nat \<Rightarrow> int \<Rightarrow> int \<Rightarrow> msg" where
  "load_status s nc errors dangers =
     (if dangers > 0 \<and> \<not> ignore_dangerous_tcmds s
      then Msg ''loaded %d command(s) but %d can BRICK the satellite -- fix the file; run blocked'' [FInt (int nc), FInt dangers]
      else if dangers > 0
      then Msg ''loaded %d command(s); %d BRICK-RISK command(s) overridden. Enter to start.'' [FInt (int nc), FInt dangers]
      else if errors > 0 \<and> \<not> ignore_tc_errors s
      then Msg ''loaded %d command(s) but %d lint error(s) -- fix the file; run blocked'' [FInt (int nc), FInt errors]
      else if errors > 0
      then Msg ''loaded %d command(s); %d lint error(s) ignored. Enter to start.'' [FInt (int nc), FInt errors]
      else Msg ''loaded %d command(s). Set fields, then Enter to start.'' [FInt (int nc)])"

definition fresh_auto :: "state \<Rightarrow> string list \<Rightarrow> int \<Rightarrow> int \<Rightarrow> auto_tcmd" where
  "fresh_auto s cmds errors dangers =
     \<lparr>a_commands = Some cmds, a_file_path = take 255 (auto_tcmd_file_path s), a_lint_errors = errors,
      a_lint_dangers = dangers, a_power = ''80.0'', a_repeats = ''3'', a_interval_s = ''1.0'', a_allow_tx = False,
      a_focus = AUTO_F_POWER, a_cur_power = 4, a_cur_repeats = 1, a_cur_interval = 3, a_state = AUTO_STATE_SETUP,
      a_cmd_idx = 0, a_repeat_idx = 0, a_repeats_total = 0, a_interval_s_val = 0, a_next_send_ns = 0, a_start_ns = 0,
      a_pause_ns = 0, a_sends_total = 0, a_tx_seconds_spent = 0, a_tx_seconds_total = 0, a_last_sent = [],
      a_status_msg = load_status s (length cmds) errors dangers\<rparr>"

definition auto_tcmd_reload :: "string option \<Rightarrow> bool \<Rightarrow> state \<Rightarrow> state \<times> bool" where
  "auto_tcmd_reload content devnull_ok s =
     (if auto_tcmd_file_path s = [] then (s, False)
      else
        let s1 = s\<lparr>auto_run := (auto_run s)\<lparr>a_commands := None\<rparr>\<rparr>
        in case auto_tcmd_load_file content of
             None \<Rightarrow> (s1, False)
           | Some cmds \<Rightarrow>
               let (e, d) = (if devnull_ok
                             then (case tcmd_lint_file content of (e, r) \<Rightarrow> (e, lr_dangers r)) else (0, 0))
               in (s1\<lparr>auto_run := fresh_auto s cmds (if e > 0 then e else 0) (if d > 0 then d else 0)\<rparr>, True))"

definition auto_tcmd_open :: "string option \<Rightarrow> bool \<Rightarrow> bool \<Rightarrow> state \<Rightarrow> state" where
  "auto_tcmd_open content devnull_ok window_ok s =
     (let a = auto_run s
      in if \<not> st_ipc s \<or> tx_compose_active s \<or> auto_tcmd_active s then s
         else if a_state a = AUTO_STATE_PAUSED \<and> a_commands a \<noteq> None then
           let s1 = s\<lparr>auto_run := a\<lparr>a_state := AUTO_STATE_RESUME_PROMPT, a_status_msg :=
                 Msg ''paused at cmd %d/%d, send %d/%d -- R resume, S start over, Esc keep paused''
                   [FInt (int (a_cmd_idx a) + 1), FInt (int (a_n_commands a)), FInt (int (a_repeat_idx a)),
                    FInt (int (a_repeats_total a))]\<rparr>\<rparr>
           in if window_ok then s1\<lparr>auto_tcmd_active := True\<rparr> else s1
         else if auto_tcmd_file_path s = [] then s
         else case auto_tcmd_reload content devnull_ok s of
             (s1, False) \<Rightarrow> s1
           | (s1, True) \<Rightarrow>
               if window_ok then s1\<lparr>auto_tcmd_active := True\<rparr>
               else s1\<lparr>auto_run := (auto_run s1)\<lparr>a_commands := None\<rparr>\<rparr>)"

definition auto_tcmd_close :: "state \<Rightarrow> state" where
  "auto_tcmd_close s =
     (let s1 = s\<lparr>auto_tcmd_active := False\<rparr>
      in if a_state (auto_run s1) \<noteq> AUTO_STATE_PAUSED \<and> a_commands (auto_run s1) \<noteq> None
         then s1\<lparr>auto_run := (auto_run s1)\<lparr>a_commands := None\<rparr>\<rparr> else s1)"


section \<open>The run\<close>

text \<open>The estimated length of a run: one slot per send, the last one without its trailing interval.\<close>

definition run_seconds :: "state \<Rightarrow> string list \<Rightarrow> nat \<Rightarrow> rat \<Rightarrow> rat" where
  "run_seconds s cmds repeats interval =
     (let bursts = map (\<lambda>c. auto_tcmd_burst_seconds s (length c)) cmds;
          total = foldl (\<lambda>t burst. t + (if burst > interval then burst else interval) * of_nat repeats) 0 bursts;
          last_burst = (if bursts = [] then 0 else last bursts)
      in if cmds \<noteq> [] \<and> interval > last_burst then total - (interval - last_burst) else total)"

definition start_refusal :: "state \<Rightarrow> msg option" where
  "start_refusal s =
     (let a = auto_run s;
          decision = tcmd_lint_gate_decision (a_lint_errors a) (a_lint_dangers a) (ignore_tc_errors s) (ignore_dangerous_tcmds s)
      in if a_n_commands a = 0 then Some (Msg ''rejected: file has no commands'' [])
         else if decision = TCMD_GATE_BLOCK_DANGER
         then Some (Msg ''rejected: %d command(s) can brick the satellite -- fix it and reopen'' [FInt (a_lint_dangers a)])
         else if decision = TCMD_GATE_BLOCK_ERROR
         then Some (Msg ''rejected: %d lint error(s) in the file -- fix it and reopen'' [FInt (a_lint_errors a)])
         else if \<not> a_allow_tx a then Some (Msg ''rejected: allow-tx is off'' [])
         else if atof (a_power a) < 0 \<or> atof (a_power a) > 89.75
         then Some (Msg ''rejected: TX power %.1f dB out of B210 range 0..89.75'' [FRat (atof (a_power a))])
         else if atoi (a_repeats a) < 1 then Some (Msg ''rejected: repeats must be >= 1'' [])
         else if atof (a_interval_s a) < 0 then Some (Msg ''rejected: interval must be >= 0'' [])
         else None)"

definition auto_tcmd_start :: "clock \<Rightarrow> state \<Rightarrow> state" where
  "auto_tcmd_start clk s =
     (let a = auto_run s
      in case start_refusal s of
           Some m \<Rightarrow> s\<lparr>auto_run := a\<lparr>a_status_msg := m\<rparr>\<rparr>
         | None \<Rightarrow>
             let repeats = nat (atoi (a_repeats a));
                 typed_interval = atof (a_interval_s a);
                 floored = (typed_interval < AUTO_TCMD_MIN_INTERVAL_S);
                 interval = (if floored then AUTO_TCMD_MIN_INTERVAL_S else typed_interval);
                 nc = a_n_commands a;
                 a1 = a\<lparr>a_repeats_total := repeats, a_interval_s_val := interval, a_cmd_idx := 0, a_repeat_idx := 0,
                        a_sends_total := 0, a_tx_seconds_spent := 0,
                        a_tx_seconds_total := run_seconds s (a_list a) repeats interval,
                        a_start_ns := clk_ns clk, a_next_send_ns := clk_ns clk, a_state := AUTO_STATE_RUNNING,
                        a_status_msg :=
                          (if floored
                           then Msg ''running: %d cmds x %d repeats, interval raised to %.1f s floor''
                                  [FInt (int nc), FInt (int repeats), FRat interval]
                           else Msg ''running: %d cmds x %d repeats, %.2f s interval''
                                  [FInt (int nc), FInt (int repeats), FRat interval])\<rparr>
             in emit (OutAudit ''auto-tcmd-start''
                  (Msg ''n_commands=%d repeats=%d interval_s=%.2f allow_tx=%d power=%.100s file=%.100s''
                     [FInt (int nc), FInt (int repeats), FRat interval, FInt (if a_allow_tx a then 1 else 0),
                      FStr (a_power a), FStr (a_file_path a)])) (s\<lparr>auto_run := a1\<rparr>))"

definition auto_tcmd_stop :: "string \<Rightarrow> state \<Rightarrow> state" where
  "auto_tcmd_stop reason s =
     (let a = auto_run s
      in if a_state a \<noteq> AUTO_STATE_RUNNING then s
         else emit (OutAudit ''auto-tcmd-stop''
                (Msg ''reason=%.100s sends_total=%d'' [FStr reason, FInt (int (a_sends_total a))]))
                (s\<lparr>auto_run := a\<lparr>a_state := AUTO_STATE_STOPPED, a_status_msg := Msg ''stopped: %s'' [FStr reason]\<rparr>\<rparr>))"

definition auto_tcmd_pause :: "clock \<Rightarrow> state \<Rightarrow> state" where
  "auto_tcmd_pause clk s =
     (let a = auto_run s
      in auto_tcmd_log ''auto-tcmd-pause''
           (Msg ''cmd_idx=%d/%d repeat_idx=%d/%d sends_total=%d power=%.20s interval_s=%.2f file=%.100s''
              [FInt (int (a_cmd_idx a) + 1), FInt (int (a_n_commands a)), FInt (int (a_repeat_idx a)),
               FInt (int (a_repeats_total a)), FInt (int (a_sends_total a)), FStr (a_power a),
               FRat (a_interval_s_val a), FStr (a_file_path a)])
           (s\<lparr>auto_run := a\<lparr>a_pause_ns := clk_ns clk, a_state := AUTO_STATE_PAUSED,
              a_status_msg := Msg ''paused at cmd %d/%d -- press A to resume''
                [FInt (int (a_cmd_idx a) + 1), FInt (int (a_n_commands a))]\<rparr>\<rparr>))"

definition auto_tcmd_abort :: "state \<Rightarrow> state" where
  "auto_tcmd_abort s =
     (let a = auto_run s
      in auto_tcmd_log ''auto-tcmd-abort''
           (Msg ''cmd_idx=%d/%d sends_total=%d''
              [FInt (int (a_cmd_idx a) + 1), FInt (int (a_n_commands a)), FInt (int (a_sends_total a))])
           (s\<lparr>auto_run := a\<lparr>a_state := AUTO_STATE_STOPPED,
              a_status_msg := Msg ''aborted at cmd %d/%d'' [FInt (int (a_cmd_idx a) + 1), FInt (int (a_n_commands a))]\<rparr>\<rparr>))"

definition auto_tcmd_resume :: "clock \<Rightarrow> state \<Rightarrow> state" where
  "auto_tcmd_resume clk s =
     (let a = auto_run s; now = clk_ns clk
      in auto_tcmd_log ''auto-tcmd-resume''
           (Msg ''cmd_idx=%d/%d repeat_idx=%d/%d sends_total=%d''
              [FInt (int (a_cmd_idx a) + 1), FInt (int (a_n_commands a)), FInt (int (a_repeat_idx a)),
               FInt (int (a_repeats_total a)), FInt (int (a_sends_total a))])
           (s\<lparr>auto_run := a\<lparr>
              a_start_ns := (if a_pause_ns a > 0 \<and> now > a_pause_ns a then a_start_ns a + (now - a_pause_ns a) else a_start_ns a),
              a_pause_ns := 0, a_next_send_ns := now, a_state := AUTO_STATE_RUNNING,
              a_status_msg := Msg ''resumed at cmd %d/%d'' [FInt (int (a_cmd_idx a) + 1), FInt (int (a_n_commands a))]\<rparr>\<rparr>))"

definition auto_tcmd_restart :: "clock \<Rightarrow> state \<Rightarrow> state" where
  "auto_tcmd_restart clk s =
     (let a = auto_run s; now = clk_ns clk
      in auto_tcmd_log ''auto-tcmd-restart''
           (Msg ''n_commands=%d repeats=%d'' [FInt (int (a_n_commands a)), FInt (int (a_repeats_total a))])
           (s\<lparr>auto_run := a\<lparr>a_cmd_idx := 0, a_repeat_idx := 0, a_sends_total := 0, a_tx_seconds_spent := 0,
              a_start_ns := now, a_next_send_ns := now, a_pause_ns := 0, a_state := AUTO_STATE_RUNNING,
              a_status_msg := Msg ''restarted from the top (%d commands)'' [FInt (int (a_n_commands a))]\<rparr>\<rparr>))"

definition auto_edit_key :: "key \<Rightarrow> auto_tcmd \<Rightarrow> auto_tcmd" where
  "auto_edit_key k a =
     (if k = KChar 9 then auto_field_clamp_cursor (a\<lparr>a_focus := auto_next (a_focus a)\<rparr>) (auto_next (a_focus a))
      else if k = KEY_BTAB then auto_field_clamp_cursor (a\<lparr>a_focus := auto_prev (a_focus a)\<rparr>) (auto_prev (a_focus a))
      else if k = KEY_BACKSPACE \<or> k = KChar 127 \<or> k = KChar 8 then auto_field_backspace a
      else if k = KEY_DC \<or> k = KChar 4 then auto_field_delete a
      else if k = KChar 11 then auto_field_kill_to_end a
      else if k = KChar 23 then auto_field_kill_word_back a
      else if k = KEY_LEFT then auto_field_left a
      else if k = KEY_RIGHT then auto_field_right a
      else if k = KEY_HOME \<or> k = KChar 1 then auto_field_home a
      else if k = KEY_END \<or> k = KChar 5 then auto_field_end a
      else if k = KChar 32 \<and> a_focus a = AUTO_F_ALLOW_TX then auto_field_toggle a
      else case k of KChar ch \<Rightarrow> if 32 \<le> ch \<and> ch < 127 then auto_field_insert ch a else a | _ \<Rightarrow> a)"

text \<open>A bare Esc: the new state of the run and whether the window stays open.\<close>

definition auto_esc :: "auto_tcmd \<Rightarrow> auto_tcmd \<times> bool" where
  "auto_esc a =
     (case a_state a of
        AUTO_STATE_RUNNING \<Rightarrow> (a\<lparr>a_state := AUTO_STATE_PAUSE_PROMPT, a_status_msg :=
          Msg ''interrupt the run?  P pause (resume later)   A abort   Esc keep running'' []\<rparr>, True)
      | AUTO_STATE_PAUSE_PROMPT \<Rightarrow> (a\<lparr>a_state := AUTO_STATE_RUNNING, a_status_msg := Msg ''running'' []\<rparr>, True)
      | AUTO_STATE_RESUME_PROMPT \<Rightarrow> (a\<lparr>a_state := AUTO_STATE_PAUSED\<rparr>, False)
      | _ \<Rightarrow> (a, False))"

definition is_letter :: "key \<Rightarrow> nat \<Rightarrow> bool" where
  "is_letter k lower \<longleftrightarrow> k = KChar lower \<or> k = KChar (lower - 32)"

definition auto_tcmd_handle_key :: "clock \<Rightarrow> key option \<Rightarrow> key \<Rightarrow> state \<Rightarrow> state \<times> bool" where
  "auto_tcmd_handle_key clk csi k0 s =
     (let a = auto_run s
      in if \<not> auto_tcmd_active s then (s, False)
         else if k0 = ERR then (s, True)
         else if k0 = KChar 27 \<and> csi = None then (case auto_esc a of (a', stays) \<Rightarrow> (s\<lparr>auto_run := a'\<rparr>, stays))
         else
           let k = (if k0 = KChar 27 then the csi else k0)
           in if a_state a = AUTO_STATE_PAUSE_PROMPT then
                (if is_letter k 112 then (auto_tcmd_pause clk s, False)
                 else if is_letter k 97 then (auto_tcmd_abort s, True)
                 else (s, True))
              else if a_state a = AUTO_STATE_RESUME_PROMPT then
                (if is_letter k 114 then (auto_tcmd_resume clk s, True)
                 else if is_letter k 115 then (auto_tcmd_restart clk s, True)
                 else (s, True))
              else if a_state a = AUTO_STATE_RUNNING then
                (if is_letter k 115 then (auto_tcmd_stop ''user'' s, True) else (s, True))
              else if is_enter k then (auto_tcmd_start clk s, True)
              else (s\<lparr>auto_run := auto_edit_key k a\<rparr>, True))"

section \<open>The tick\<close>

definition skip_command :: "clock \<Rightarrow> msg \<Rightarrow> auto_tcmd \<Rightarrow> auto_tcmd" where
  "skip_command clk m a =
     a\<lparr>a_status_msg := m, a_cmd_idx := a_cmd_idx a + 1, a_repeat_idx := 0, a_next_send_ns := clk_ns clk\<rparr>"

definition auto_request :: "state \<Rightarrow> auto_tcmd \<Rightarrow> string \<Rightarrow> string \<Rightarrow> bool \<Rightarrow> tx_request_slot" where
  "auto_request s a raw wire expanded =
     (let label = ''auto['' @ show_nat (a_cmd_idx a + 1) @ ''/'' @ show_nat (a_n_commands a) @ '' '' @
            show_nat (a_repeat_idx a + 1) @ ''/'' @ show_nat (a_repeats_total a) @ '']: '' @ take 190 wire
      in \<lparr>rq_pending = True, rq_payload = bytes_of (take 2048 wire), rq_is_hex = False, rq_csp_hdr = frontiersat_csp,
          rq_tx_freq_hz = tx_freq_hz_doppler s, rq_tx_gain_db = atof (a_power a), rq_repeat = 1, rq_gap_ms = 200,
          rq_preroll_ms = tx_preroll_ms s, rq_allow_high_power = False, rq_allow_hf_tx = False,
          rq_sso_origin = (if expanded then snprintf 256 raw else []),
          rq_tx_source = snprintf 16 ''auto-cmd (file)'',
          rq_summary = (if expanded \<and> length label < 256
                        then label @ snprintf (256 - length label) ('' (replaced '' @ quoted raw @ '')'')
                        else snprintf 256 label)\<rparr>)"

definition pass_over :: "state \<Rightarrow> bool" where
  "pass_over s \<longleftrightarrow> \<not> st_testing_mode s \<and> st_elevation s < 0 \<and> st_minutes_until_visible s > 1 / 2"

definition run_elapsed :: "clock \<Rightarrow> auto_tcmd \<Rightarrow> rat" where
  "run_elapsed clk a =
     (let e = of_int (clk_ns clk - a_start_ns a) / 10 ^ 9;
          e1 = (if e < 0 then 0 else e)
      in if e1 > a_tx_seconds_total a then a_tx_seconds_total a else e1)"

definition advance_send :: "clock \<Rightarrow> string \<Rightarrow> auto_tcmd \<Rightarrow> auto_tcmd" where
  "advance_send clk wire a =
     (let rep = a_repeat_idx a + 1; wrap = (rep \<ge> a_repeats_total a)
      in a\<lparr>a_last_sent := take 255 wire, a_sends_total := a_sends_total a + 1,
           a_cmd_idx := (if wrap then a_cmd_idx a + 1 else a_cmd_idx a),
           a_repeat_idx := (if wrap then 0 else rep),
           a_next_send_ns := clk_ns clk + \<lfloor>a_interval_s_val a * 10 ^ 9\<rfloor>\<rparr>)"

definition auto_tcmd_tick :: "clock \<Rightarrow> state \<Rightarrow> state" where
  "auto_tcmd_tick clk s0 =
     (if \<not> auto_tcmd_active s0 \<or> a_state (auto_run s0) \<noteq> AUTO_STATE_RUNNING then s0
      else
        let a = (auto_run s0)\<lparr>a_tx_seconds_spent := run_elapsed clk (auto_run s0)\<rparr>;
            s = s0\<lparr>auto_run := a\<rparr>
        in if pass_over s
           then s\<lparr>auto_run := a\<lparr>a_state := AUTO_STATE_PASS_OVER,
                  a_status_msg := Msg ''stopped: pass over (elevation %.1f deg)'' [FRat (st_elevation s)]\<rparr>\<rparr>
           else if a_cmd_idx a \<ge> a_n_commands a
           then s\<lparr>auto_run := a\<lparr>a_state := AUTO_STATE_DONE,
                  a_status_msg := Msg ''done: sent all %d command(s)'' [FInt (int (a_n_commands a))]\<rparr>\<rparr>
           else if clk_ns clk < a_next_send_ns a \<or> tx_pending s then s
           else
             let raw = a_list a ! a_cmd_idx a
             in case sso_pseudo_expand raw \<lparr>now_ms = clk_utc_ms clk, tssent_ms = sso_pass_tssent_ms s\<rparr> 512 160 of
                  (pst, wire, sso_err) \<Rightarrow>
                    if pst \<noteq> SSO_PSEUDO_OK \<and> pst \<noteq> SSO_PSEUDO_NOT_PSEUDO
                    then s\<lparr>auto_run := skip_command clk (Msg ''skipped SSO+ line %d: %.120s''
                             [FInt (int (a_cmd_idx a) + 1), FStr sso_err]) a\<rparr>
                    else if length wire > TCMD_RF_MAX_LEN
                    then s\<lparr>auto_run := skip_command clk (Msg ''skipped line %d: %zu chars over the %d-char RF limit''
                             [FInt (int (a_cmd_idx a) + 1), FInt (int (length wire)), FInt (int TCMD_RF_MAX_LEN)]) a\<rparr>
                    else s\<lparr>tx_request := auto_request s a raw wire (pst = SSO_PSEUDO_OK),
                           tx_request_staged_ns := clk_ns clk, auto_run := advance_send clk wire a\<rparr>)"


section \<open>The run's invariant\<close>

definition engaged :: "auto_tcmd_state \<Rightarrow> bool" where
  "engaged st \<longleftrightarrow> st = AUTO_STATE_RUNNING \<or> st = AUTO_STATE_PAUSE_PROMPT \<or> st = AUTO_STATE_PAUSED \<or> st = AUTO_STATE_RESUME_PROMPT"

text \<open>The cleared-to-run conditions, and a position inside the plan.\<close>

definition cleared :: "state \<Rightarrow> auto_tcmd \<Rightarrow> bool" where
  "cleared s a \<longleftrightarrow> a_allow_tx a \<and> 0 \<le> atof (a_power a) \<and> atof (a_power a) \<le> 89.75 \<and>
     tcmd_lint_gate_decision (a_lint_errors a) (a_lint_dangers a) (ignore_tc_errors s) (ignore_dangerous_tcmds s) = TCMD_GATE_PROCEED"

definition position_ok :: "auto_tcmd \<Rightarrow> bool" where
  "position_ok a \<longleftrightarrow> a_cmd_idx a \<le> a_n_commands a \<and> a_repeat_idx a < a_repeats_total a \<and>
     (a_cmd_idx a = a_n_commands a \<longrightarrow> a_repeat_idx a = 0) \<and> 1 \<le> a_interval_s_val a"

definition form_ok :: "auto_tcmd \<Rightarrow> bool" where
  "form_ok a \<longleftrightarrow> tf_ok 12 (a_power a, a_cur_power a) \<and> tf_ok 8 (a_repeats a, a_cur_repeats a) \<and>
     tf_ok 12 (a_interval_s a, a_cur_interval a)"

definition auto_ok :: "state \<Rightarrow> bool" where
  "auto_ok s \<longleftrightarrow> form_ok (auto_run s) \<and> (auto_tcmd_active s \<longrightarrow> a_commands (auto_run s) \<noteq> None) \<and>
     (auto_tcmd_active s \<longrightarrow> a_state (auto_run s) \<noteq> AUTO_STATE_PAUSED) \<and>
     (engaged (a_state (auto_run s)) \<and> a_commands (auto_run s) \<noteq> None \<longrightarrow> cleared s (auto_run s) \<and> position_ok (auto_run s))"

lemma form_ok_put:
  assumes "form_ok a" "auto_field_buf a f = Some (cap, tf)" "tf_ok cap tf \<Longrightarrow> tf_ok cap tf'"
  shows "form_ok (auto_field_put a f tf')"
  using assms by (cases f) (auto simp: form_ok_def)

lemma form_ok_on: "form_ok a \<Longrightarrow> (\<And>cap tf. tf_ok cap tf \<Longrightarrow> tf_ok cap (op cap tf)) \<Longrightarrow> form_ok (auto_field_on f op a)"
  using form_ok_put [of a f] by (auto simp: auto_field_on_def split: option.splits)

lemma form_ok_key: "form_ok a \<Longrightarrow> form_ok (auto_edit_key k a)"
proof -
  assume ok: "form_ok a"
  have foc: "form_ok (a\<lparr>a_focus := f\<rparr>)" for f using ok by (simp add: form_ok_def)
  have tog: "form_ok (auto_field_toggle a)" using ok by (simp add: auto_field_toggle_def form_ok_def)
  show ?thesis
    using ok tog
    by (auto simp: auto_edit_key_def auto_field_clamp_cursor_def auto_field_backspace_def auto_field_delete_def
        auto_field_kill_to_end_def auto_field_kill_word_back_def auto_field_left_def auto_field_right_def
        auto_field_home_def auto_field_end_def auto_field_insert_def foc tf_step_oks
        intro!: form_ok_on split: if_splits key.splits)
qed

text \<open>Editing a field touches only the form.\<close>

lemma edit_key_frame [simp]:
  "a_state (auto_edit_key k a) = a_state a" "a_commands (auto_edit_key k a) = a_commands a"
proof -
  have put: "a_state (auto_field_put a f tf) = a_state a" "a_commands (auto_field_put a f tf) = a_commands a" for a f tf
    by (cases f; simp)+
  have on: "a_state (auto_field_on f op a) = a_state a" "a_commands (auto_field_on f op a) = a_commands a" for f op a
    by (simp_all add: auto_field_on_def put split: option.splits)
  show "a_state (auto_edit_key k a) = a_state a" "a_commands (auto_edit_key k a) = a_commands a"
    by (auto simp: auto_edit_key_def auto_field_clamp_cursor_def auto_field_backspace_def auto_field_delete_def
        auto_field_kill_to_end_def auto_field_kill_word_back_def auto_field_left_def auto_field_right_def
        auto_field_home_def auto_field_end_def auto_field_insert_def auto_field_toggle_def on split: key.splits)
qed

lemma auto_log_frame [simp]:
  "auto_run (auto_tcmd_log ev det s) = auto_run s" "auto_tcmd_active (auto_tcmd_log ev det s) = auto_tcmd_active s"
  "ignore_tc_errors (auto_tcmd_log ev det s) = ignore_tc_errors s"
  "ignore_dangerous_tcmds (auto_tcmd_log ev det s) = ignore_dangerous_tcmds s"
  by (simp_all add: auto_tcmd_log_def emit_def Let_def)


lemma auto_okI:
  assumes "auto_ok s" "auto_tcmd_active t = auto_tcmd_active s"
    "ignore_tc_errors t = ignore_tc_errors s" "ignore_dangerous_tcmds t = ignore_dangerous_tcmds s"
    "form_ok (auto_run s) \<Longrightarrow> form_ok (auto_run t)" "a_commands (auto_run t) = a_commands (auto_run s)"
    "auto_tcmd_active s \<Longrightarrow> a_state (auto_run t) \<noteq> AUTO_STATE_PAUSED"
    "engaged (a_state (auto_run t)) \<Longrightarrow> a_commands (auto_run s) \<noteq> None \<Longrightarrow> cleared s (auto_run t) \<and> position_ok (auto_run t)"
  shows "auto_ok t"
  using assms unfolding auto_ok_def by (simp add: cleared_def)

lemma auto_ok_engaged: "auto_ok s \<Longrightarrow> auto_tcmd_active s \<Longrightarrow> engaged (a_state (auto_run s)) \<Longrightarrow>
    cleared s (auto_run s) \<and> position_ok (auto_run s)"
  by (simp add: auto_ok_def)

lemmas engaged_simps [simp] = engaged_def

lemma start_refusal_None:
  "start_refusal s = None \<Longrightarrow> cleared s (auto_run s) \<and> a_n_commands (auto_run s) \<noteq> 0 \<and> 1 \<le> atoi (a_repeats (auto_run s)) \<and>
    0 \<le> atof (a_interval_s (auto_run s))"
  by (auto simp: start_refusal_def cleared_def Let_def tcmd_lint_gate_decision_def split: if_splits)

lemma a_list_update [simp]:
  "a_list (a\<lparr>a_state := x\<rparr>) = a_list a" "a_list (a\<lparr>a_status_msg := m\<rparr>) = a_list a"
  "a_list (a\<lparr>a_tx_seconds_spent := r\<rparr>) = a_list a" "a_list (a\<lparr>a_next_send_ns := i\<rparr>) = a_list a"
  "a_list (a\<lparr>a_cmd_idx := n\<rparr>) = a_list a" "a_list (a\<lparr>a_repeat_idx := n\<rparr>) = a_list a"
  "a_list (a\<lparr>a_sends_total := n\<rparr>) = a_list a" "a_list (a\<lparr>a_last_sent := t\<rparr>) = a_list a"
  "a_list (a\<lparr>a_start_ns := i\<rparr>) = a_list a" "a_list (a\<lparr>a_pause_ns := i\<rparr>) = a_list a"
  "a_list (a\<lparr>a_repeats_total := n\<rparr>) = a_list a" "a_list (a\<lparr>a_interval_s_val := r\<rparr>) = a_list a"
  "a_list (a\<lparr>a_tx_seconds_total := r\<rparr>) = a_list a"
  by (simp_all add: a_list_def)

lemma auto_start_run:
  assumes "start_refusal s = None"
  obtains interval total m where
    "auto_run (auto_tcmd_start clk s) = (auto_run s)\<lparr>a_repeats_total := nat (atoi (a_repeats (auto_run s))),
       a_interval_s_val := interval, a_cmd_idx := 0, a_repeat_idx := 0, a_sends_total := 0, a_tx_seconds_spent := 0,
       a_tx_seconds_total := total, a_start_ns := clk_ns clk, a_next_send_ns := clk_ns clk,
       a_state := AUTO_STATE_RUNNING, a_status_msg := m\<rparr>" "1 \<le> interval"
proof -
  let ?i = "if atof (a_interval_s (auto_run s)) < 1 then 1 else atof (a_interval_s (auto_run s))"
  have "1 \<le> ?i" by simp
  then show ?thesis
    using that by (simp only: auto_tcmd_start_def assms Let_def option.case emit_def AUTO_TCMD_MIN_INTERVAL_S_def) simp
qed

lemma auto_start_frame [simp]:
  "auto_tcmd_active (auto_tcmd_start clk s) = auto_tcmd_active s"
  "ignore_tc_errors (auto_tcmd_start clk s) = ignore_tc_errors s"
  "ignore_dangerous_tcmds (auto_tcmd_start clk s) = ignore_dangerous_tcmds s"
  by (simp_all add: auto_tcmd_start_def Let_def emit_def split: option.splits)

lemma auto_ok_start: "auto_ok s \<Longrightarrow> auto_tcmd_active s \<Longrightarrow> auto_ok (auto_tcmd_start clk s)"
proof (cases "start_refusal s")
  case None
  assume ok: "auto_ok s" "auto_tcmd_active s"
  note ref = start_refusal_None [OF None]
  obtain interval total m where run: "auto_run (auto_tcmd_start clk s) = (auto_run s)\<lparr>a_repeats_total := nat (atoi (a_repeats (auto_run s))),
       a_interval_s_val := interval, a_cmd_idx := 0, a_repeat_idx := 0, a_sends_total := 0, a_tx_seconds_spent := 0,
       a_tx_seconds_total := total, a_start_ns := clk_ns clk, a_next_send_ns := clk_ns clk,
       a_state := AUTO_STATE_RUNNING, a_status_msg := m\<rparr>" and i: "1 \<le> interval"
    using auto_start_run [OF None] by blast
  have "cleared s (auto_run (auto_tcmd_start clk s))" using ref by (simp add: run cleared_def)
  moreover have "position_ok (auto_run (auto_tcmd_start clk s))" using ref i by (simp add: run position_ok_def)
  ultimately show ?thesis
    using ok by (intro auto_okI [OF ok(1)]) (simp_all add: run form_ok_def)
next
  case (Some m)
  assume "auto_ok s" "auto_tcmd_active s"
  then show ?thesis
    by (simp add: auto_tcmd_start_def Some auto_ok_def form_ok_def cleared_def position_ok_def)
qed

lemma auto_ok_stop: "auto_ok s \<Longrightarrow> auto_ok (auto_tcmd_stop r s)"
  by (simp add: auto_tcmd_stop_def Let_def emit_def auto_ok_def form_ok_def)

lemma auto_ok_abort: "auto_ok s \<Longrightarrow> auto_ok (auto_tcmd_abort s)"
  by (simp add: auto_tcmd_abort_def Let_def auto_ok_def form_ok_def)

lemma auto_ok_resume:
  "auto_ok s \<Longrightarrow> auto_tcmd_active s \<Longrightarrow> a_state (auto_run s) = AUTO_STATE_RESUME_PROMPT \<Longrightarrow> auto_ok (auto_tcmd_resume clk s)"
  by (simp add: auto_tcmd_resume_def Let_def auto_ok_def form_ok_def cleared_def position_ok_def)

lemma auto_ok_restart:
  "auto_ok s \<Longrightarrow> auto_tcmd_active s \<Longrightarrow> a_state (auto_run s) = AUTO_STATE_RESUME_PROMPT \<Longrightarrow> auto_ok (auto_tcmd_restart clk s)"
  by (auto simp: auto_tcmd_restart_def Let_def auto_ok_def form_ok_def cleared_def position_ok_def)

lemma auto_ok_edit:
  "auto_ok s \<Longrightarrow> \<not> engaged (a_state (auto_run s)) \<Longrightarrow> auto_ok (s\<lparr>auto_run := auto_edit_key k (auto_run s)\<rparr>)"
  by (simp add: auto_ok_def form_ok_key)

lemma auto_ok_close:
  "form_ok (auto_run s) \<Longrightarrow> a_state (auto_run s) = AUTO_STATE_PAUSED \<and> a_commands (auto_run s) \<noteq> None \<longrightarrow>
     cleared s (auto_run s) \<and> position_ok (auto_run s) \<Longrightarrow> auto_ok (auto_tcmd_close s)"
  by (auto simp: auto_tcmd_close_def Let_def auto_ok_def form_ok_def cleared_def)

datatype auto_event =
    AKey clock "key option" key | ATick clock | AOpen "string option" bool bool | AServiced | ATrack rat rat

text \<open>
  What happens to the run: a key routed to the window (which is closed when the handler says
  so), a tick, the key that opens the window, the burst of the staged request completing, and
  the tracker's update.
\<close>

fun auto_step :: "state \<Rightarrow> auto_event \<Rightarrow> state" where
  "auto_step s (AKey clk csi k) =
     (if \<not> auto_tcmd_active s then s
      else case auto_tcmd_handle_key clk csi k s of (s', stays) \<Rightarrow> if stays then s' else auto_tcmd_close s')"
| "auto_step s (ATick clk) = auto_tcmd_tick clk s"
| "auto_step s (AOpen content devnull_ok window_ok) = auto_tcmd_open content devnull_ok window_ok s"
| "auto_step s AServiced = s\<lparr>tx_request := (tx_request s)\<lparr>rq_pending := False\<rparr>\<rparr>"
| "auto_step s (ATrack el mins) = s\<lparr>st_elevation := el, st_minutes_until_visible := mins\<rparr>"

lemma auto_ok_esc:
  assumes "auto_ok s" "auto_tcmd_active s" "auto_esc (auto_run s) = (a', stays)"
  shows "auto_ok (if stays then s\<lparr>auto_run := a'\<rparr> else auto_tcmd_close (s\<lparr>auto_run := a'\<rparr>))"
proof (cases stays)
  case True
  then show ?thesis
    using assms by (cases "a_state (auto_run s)") (auto simp: auto_esc_def auto_ok_def form_ok_def cleared_def position_ok_def)
next
  case False
  have "auto_ok (auto_tcmd_close (s\<lparr>auto_run := a'\<rparr>))"
    using assms False
    by (intro auto_ok_close; cases "a_state (auto_run s)") (auto simp: auto_esc_def auto_ok_def form_ok_def cleared_def position_ok_def)
  then show ?thesis using False by simp
qed

lemma auto_ok_pause:
  assumes "auto_ok s" "auto_tcmd_active s" "a_state (auto_run s) = AUTO_STATE_PAUSE_PROMPT"
  shows "auto_ok (auto_tcmd_close (auto_tcmd_pause clk s))"
  using assms by (intro auto_ok_close) (auto simp: auto_tcmd_pause_def Let_def auto_ok_def form_ok_def cleared_def position_ok_def)

lemma auto_ok_key: "auto_ok s \<Longrightarrow> auto_ok (auto_step s (AKey clk csi k))"
proof (cases "auto_tcmd_active s")
  case True
  assume ok: "auto_ok s"
  then have np: "a_state (auto_run s) \<noteq> AUTO_STATE_PAUSED" using True by (simp add: auto_ok_def)
  show ?thesis
    using ok True np auto_ok_esc [OF ok True] auto_ok_pause [OF ok True]
    by (auto simp: auto_tcmd_handle_key_def Let_def auto_ok_start auto_ok_stop auto_ok_abort auto_ok_resume auto_ok_restart
        intro!: auto_ok_edit split: prod.splits)
qed simp

lemma fresh_fields [simp]:
  "a_state (fresh_auto s cmds e d) = AUTO_STATE_SETUP" "a_commands (fresh_auto s cmds e d) = Some cmds"
  "form_ok (fresh_auto s cmds e d)" "a_lint_errors (fresh_auto s cmds e d) = e" "a_lint_dangers (fresh_auto s cmds e d) = d"
  by (simp_all add: fresh_auto_def form_ok_def tf_ok_def)

lemma reload_result:
  assumes "auto_tcmd_reload content devnull_ok s = (s1, r)"
  shows "(\<not> r \<and> (s1 = s \<or> s1 = s\<lparr>auto_run := (auto_run s)\<lparr>a_commands := None\<rparr>\<rparr>)) \<or>
    (r \<and> (\<exists>cmds e d. s1 = s\<lparr>auto_run := fresh_auto s cmds e d\<rparr>))"
  using assms by (auto simp: auto_tcmd_reload_def Let_def split: if_splits option.splits prod.splits)

lemma auto_ok_open: "auto_ok s \<Longrightarrow> auto_ok (auto_tcmd_open content devnull_ok window_ok s)"
proof -
  assume ok: "auto_ok s"
  obtain s1 r where r: "auto_tcmd_reload content devnull_ok s = (s1, r)" by fastforce
  have none: "auto_ok (s\<lparr>auto_run := (auto_run s)\<lparr>a_commands := None\<rparr>\<rparr>)" if "\<not> auto_tcmd_active s"
    using ok that by (simp add: auto_ok_def form_ok_def)
  have fresh: "auto_ok (s\<lparr>auto_run := fresh_auto s cmds e d, auto_tcmd_active := True\<rparr>)"
    "auto_ok (s\<lparr>auto_run := (fresh_auto s cmds e d)\<lparr>a_commands := None\<rparr>\<rparr>)" if "\<not> auto_tcmd_active s" for cmds e d
    using that by (simp_all add: auto_ok_def) (simp add: fresh_auto_def form_ok_def tf_ok_def)
  have prompt: "auto_ok (s\<lparr>auto_run := (auto_run s)\<lparr>a_state := AUTO_STATE_RESUME_PROMPT, a_status_msg := m\<rparr>, auto_tcmd_active := True\<rparr>)"
    "auto_ok (s\<lparr>auto_run := (auto_run s)\<lparr>a_state := AUTO_STATE_RESUME_PROMPT, a_status_msg := m\<rparr>\<rparr>)"
    if "\<not> auto_tcmd_active s" "a_state (auto_run s) = AUTO_STATE_PAUSED" "a_commands (auto_run s) \<noteq> None" for m
    using ok that by (simp_all add: auto_ok_def form_ok_def cleared_def position_ok_def)
  show ?thesis
    using ok reload_result [OF r] none fresh prompt
    by (auto simp: auto_tcmd_open_def Let_def r)
qed

lemma auto_tick_cases [case_names idle over finish wait skip send]:
  fixes clk :: clock and s :: state
  defines "t \<equiv> auto_tcmd_tick clk s"
  assumes "t = s \<Longrightarrow> \<not> (auto_tcmd_active s \<and> a_state (auto_run s) = AUTO_STATE_RUNNING) \<Longrightarrow> P"
    and "\<And>r m. auto_tcmd_active s \<Longrightarrow> a_state (auto_run s) = AUTO_STATE_RUNNING \<Longrightarrow> pass_over s \<Longrightarrow>
      t = s\<lparr>auto_run := (auto_run s)\<lparr>a_tx_seconds_spent := r, a_state := AUTO_STATE_PASS_OVER, a_status_msg := m\<rparr>\<rparr> \<Longrightarrow> P"
    and "\<And>r m. auto_tcmd_active s \<Longrightarrow> a_state (auto_run s) = AUTO_STATE_RUNNING \<Longrightarrow> \<not> pass_over s \<Longrightarrow>
      a_cmd_idx (auto_run s) \<ge> a_n_commands (auto_run s) \<Longrightarrow>
      t = s\<lparr>auto_run := (auto_run s)\<lparr>a_tx_seconds_spent := r, a_state := AUTO_STATE_DONE, a_status_msg := m\<rparr>\<rparr> \<Longrightarrow> P"
    and "\<And>r. auto_tcmd_active s \<Longrightarrow> a_state (auto_run s) = AUTO_STATE_RUNNING \<Longrightarrow> \<not> pass_over s \<Longrightarrow>
      a_cmd_idx (auto_run s) < a_n_commands (auto_run s) \<Longrightarrow> clk_ns clk < a_next_send_ns (auto_run s) \<or> tx_pending s \<Longrightarrow>
      t = s\<lparr>auto_run := (auto_run s)\<lparr>a_tx_seconds_spent := r\<rparr>\<rparr> \<Longrightarrow> P"
    and "\<And>r m st wire err. auto_tcmd_active s \<Longrightarrow> a_state (auto_run s) = AUTO_STATE_RUNNING \<Longrightarrow> \<not> pass_over s \<Longrightarrow>
      a_cmd_idx (auto_run s) < a_n_commands (auto_run s) \<Longrightarrow> a_next_send_ns (auto_run s) \<le> clk_ns clk \<Longrightarrow> \<not> tx_pending s \<Longrightarrow>
      sso_pseudo_expand (a_list (auto_run s) ! a_cmd_idx (auto_run s))
        \<lparr>now_ms = clk_utc_ms clk, tssent_ms = sso_pass_tssent_ms s\<rparr> 512 160 = (st, wire, err) \<Longrightarrow>
      (st \<noteq> SSO_PSEUDO_OK \<and> st \<noteq> SSO_PSEUDO_NOT_PSEUDO) \<or> length wire > TCMD_RF_MAX_LEN \<Longrightarrow>
      t = s\<lparr>auto_run := skip_command clk m ((auto_run s)\<lparr>a_tx_seconds_spent := r\<rparr>)\<rparr> \<Longrightarrow> P"
    and "\<And>r st wire err. auto_tcmd_active s \<Longrightarrow> a_state (auto_run s) = AUTO_STATE_RUNNING \<Longrightarrow> \<not> pass_over s \<Longrightarrow>
      a_cmd_idx (auto_run s) < a_n_commands (auto_run s) \<Longrightarrow> a_next_send_ns (auto_run s) \<le> clk_ns clk \<Longrightarrow> \<not> tx_pending s \<Longrightarrow>
      sso_pseudo_expand (a_list (auto_run s) ! a_cmd_idx (auto_run s))
        \<lparr>now_ms = clk_utc_ms clk, tssent_ms = sso_pass_tssent_ms s\<rparr> 512 160 = (st, wire, err) \<Longrightarrow>
      st = SSO_PSEUDO_OK \<or> st = SSO_PSEUDO_NOT_PSEUDO \<Longrightarrow> length wire \<le> TCMD_RF_MAX_LEN \<Longrightarrow>
      t = s\<lparr>tx_request := auto_request s (auto_run s) (a_list (auto_run s) ! a_cmd_idx (auto_run s)) wire (st = SSO_PSEUDO_OK),
        tx_request_staged_ns := clk_ns clk, auto_run := advance_send clk wire ((auto_run s)\<lparr>a_tx_seconds_spent := r\<rparr>)\<rparr> \<Longrightarrow> P"
  shows P
proof (cases "auto_tcmd_active s \<and> a_state (auto_run s) = AUTO_STATE_RUNNING")
  case False
  then show ?thesis using assms(2) by (simp add: t_def auto_tcmd_tick_def)
next
  case run: True
  let ?a = "(auto_run s)\<lparr>a_tx_seconds_spent := run_elapsed clk (auto_run s)\<rparr>"
  obtain st wire err where x: "sso_pseudo_expand (a_list (auto_run s) ! a_cmd_idx (auto_run s))
        \<lparr>now_ms = clk_utc_ms clk, tssent_ms = sso_pass_tssent_ms s\<rparr> 512 160 = (st, wire, err)"
    by (metis prod_cases3)
  have req: "auto_request (s\<lparr>auto_run := ?a\<rparr>) ?a raw wire b = auto_request s (auto_run s) raw wire b" for raw b
    by (simp add: auto_request_def)
  have po: "pass_over (s\<lparr>auto_run := ?a\<rparr>) = pass_over s" "tx_pending (s\<lparr>auto_run := ?a\<rparr>) = tx_pending s"
    by (simp_all add: pass_over_def tx_pending_def)
  note tick = t_def [THEN meta_eq_to_obj_eq, unfolded auto_tcmd_tick_def, simplified run po Let_def, simplified po req x]
  show ?thesis
    using tick run x by (auto simp: not_less not_le req intro: assms(3-7) split: if_splits)
qed


lemma auto_ok_tick: "auto_ok s \<Longrightarrow> auto_ok (auto_tcmd_tick clk s)"
proof (cases rule: auto_tick_cases [of clk s])
  case (skip r m st wire err)
  assume ok: "auto_ok s"
  have "cleared s (auto_run s) \<and> position_ok (auto_run s)" using auto_ok_engaged [OF ok skip(1)] skip(2) by simp
  then show ?thesis
    using ok skip(1,2,4) by (intro auto_okI [OF ok])
      (auto simp: skip(9) skip_command_def form_ok_def cleared_def position_ok_def)
next
  case (send r st wire err)
  assume ok: "auto_ok s"
  have "cleared s (auto_run s) \<and> position_ok (auto_run s)" using auto_ok_engaged [OF ok send(1)] send(2) by simp
  then show ?thesis
    using ok send(1,2,4) by (intro auto_okI [OF ok])
      (auto simp: send(10) advance_send_def form_ok_def cleared_def position_ok_def Let_def)
qed (auto simp: auto_ok_def form_ok_def cleared_def position_ok_def)

lemma auto_step_ok: "auto_ok s \<Longrightarrow> auto_ok (auto_step s e)"
proof (cases e)
  case (AKey clk csi k)
  assume "auto_ok s"
  then show ?thesis unfolding AKey by (rule auto_ok_key)
qed (simp_all add: auto_ok_tick auto_ok_open, simp_all add: auto_ok_def cleared_def)

interpretation auto_run: preserved auto_step auto_ok
  by unfold_locales (rule auto_step_ok)

lemma tick_stages:
  assumes "\<not> tx_pending s" "tx_pending (auto_tcmd_tick clk s)"
  obtains st wire err where "auto_tcmd_active s" "a_state (auto_run s) = AUTO_STATE_RUNNING" "\<not> pass_over s"
    "a_cmd_idx (auto_run s) < a_n_commands (auto_run s)"
    "sso_pseudo_expand (a_list (auto_run s) ! a_cmd_idx (auto_run s))
        \<lparr>now_ms = clk_utc_ms clk, tssent_ms = sso_pass_tssent_ms s\<rparr> 512 160 = (st, wire, err)"
    "st = SSO_PSEUDO_OK \<or> st = SSO_PSEUDO_NOT_PSEUDO" "length wire \<le> TCMD_RF_MAX_LEN"
    "tx_request (auto_tcmd_tick clk s) =
       auto_request s (auto_run s) (a_list (auto_run s) ! a_cmd_idx (auto_run s)) wire (st = SSO_PSEUDO_OK)"
    "auto_run (auto_tcmd_tick clk s) = advance_send clk wire ((auto_run s)\<lparr>a_tx_seconds_spent := run_elapsed clk (auto_run s)\<rparr>)"
proof (cases rule: auto_tick_cases [of clk s])
  case (send r st wire err)
  have "auto_run (auto_tcmd_tick clk s) = advance_send clk wire ((auto_run s)\<lparr>a_tx_seconds_spent := run_elapsed clk (auto_run s)\<rparr>)"
    using send(1-9) by (auto simp: auto_tcmd_tick_def Let_def pass_over_def tx_pending_def)
  then show ?thesis using that [OF send(1-4) send(7-9)] send(10) by simp
qed (use assms in \<open>simp_all add: tx_pending_def\<close>)

text \<open>
  C8: An unattended run transmits only when it is cleared to. After any sequence of keys,
  ticks, openings, burst completions and tracker updates, a tick that finds no burst outstanding
  and stages one finds the run started with allow-tx ticked, the power in range, the lint gate
  open and the satellite not past the horizon; and the staged payload fits one radio frame.
\<close>

theorem auto_stage_safe:
  assumes "auto_ok s" and "t = foldl auto_step s es" and "\<not> tx_pending t" and "tx_pending (auto_tcmd_tick clk t)"
    and "sha1_works sha1" and "key \<noteq> []"
  shows "a_allow_tx (auto_run t) \<and> \<not> pass_over t \<and>
    0 \<le> rq_tx_gain_db (tx_request (auto_tcmd_tick clk t)) \<and> rq_tx_gain_db (tx_request (auto_tcmd_tick clk t)) \<le> 89.75 \<and>
    tcmd_lint_gate_decision (a_lint_errors (auto_run t)) (a_lint_dangers (auto_run t)) (ignore_tc_errors t) (ignore_dangerous_tcmds t)
      = TCMD_GATE_PROCEED \<and>
    tx_burst_build_frame sha1 (rq_payload (tx_request (auto_tcmd_tick clk t))) (rq_csp_hdr (tx_request (auto_tcmd_tick clk t)))
      (Some key) 4200 \<noteq> None"
proof -
  have ok: "auto_ok t" using auto_run.run_good [OF assms(1)] assms(2) by simp
  obtain st wire err where g: "auto_tcmd_active t" "a_state (auto_run t) = AUTO_STATE_RUNNING" "\<not> pass_over t"
    "length wire \<le> TCMD_RF_MAX_LEN"
    and rq: "tx_request (auto_tcmd_tick clk t) =
       auto_request t (auto_run t) (a_list (auto_run t) ! a_cmd_idx (auto_run t)) wire (st = SSO_PSEUDO_OK)"
    using tick_stages [OF assms(3,4)] by metis
  have cl: "cleared t (auto_run t)" using auto_ok_engaged [OF ok g(1)] g(2) by simp
  have hdr: "csp_v1_fits frontiersat_csp" by code_simp
  have "tx_burst_build_frame sha1 (bytes_of (take 2048 wire)) frontiersat_csp (Some key) 4200 \<noteq> None"
    using build_frame_iff [OF assms(5,6) hdr] g(4) by (simp add: bytes_of_def TCMD_RF_MAX_LEN_def)
  then show ?thesis using cl g by (simp add: rq auto_request_def Let_def cleared_def)
qed


section \<open>Every command, in order, the set number of times\<close>

text \<open>A command the tick will send rather than skip, whatever the clock.\<close>

definition keyable :: "string \<Rightarrow> bool" where
  "keyable c \<longleftrightarrow> (if sso_pseudo_is_directed c then fst (sso_pseudo_expand c lint_ctx 512 160) = SSO_PSEUDO_OK else length c \<le> 215)"

lemma expand_status:
  assumes "sso_pseudo_is_directed c" "LLONG_MIN \<le> t" "t \<le> LLONG_MAX"
  shows "fst (sso_pseudo_expand c \<lparr>now_ms = a, tssent_ms = t\<rparr> 512 160) = SSO_PSEUDO_OK \<longleftrightarrow> keyable c"
proof -
  have len: "\<not> 512 \<le> length (sync_command (add_ll a 500) t)" if "LLONG_MIN \<le> t" "t \<le> LLONG_MAX" for a t
    using length_show_int [of "add_ll a 500"] length_show_int [of t] add_ll_range [of a 500] that
    by (simp add: sync_command_def)
  have ex: "fst (expand_sync_sat_time_to_ground args \<lparr>now_ms = a, tssent_ms = t\<rparr> 512) = SSO_PSEUDO_OK"
    if "LLONG_MIN \<le> t" "t \<le> LLONG_MAX" for args a t
    using len [OF that, of a] unfolding expand_sync_sat_time_to_ground_def sync_command_def SSO_TIME_SYNC_BUDGET_MS_def
    by (simp add: Let_def)
  have ctx: "lint_ctx = \<lparr>now_ms = 1700000000000, tssent_ms = 1699999980000\<rparr>" by (simp add: lint_ctx_def)
  have ll: "LLONG_MIN \<le> 1699999980000" "1699999980000 \<le> LLONG_MAX" by (simp_all add: LLONG_MIN_def LLONG_MAX_def)
  show ?thesis
    using assms(1) ex [OF assms(2,3)] ex [OF ll] unfolding keyable_def ctx
    by (auto simp: sso_pseudo_expand_def Let_def spec_find_def SSO_PSEUDO_SPEC_def split: prod.splits option.splits)
       (metis fst_conv)+
qed

lemma expand_keyable:
  assumes "sso_pseudo_expand c \<lparr>now_ms = a, tssent_ms = t\<rparr> 512 160 = (st, wire, err)" "LLONG_MIN \<le> t" "t \<le> LLONG_MAX"
  shows "keyable c \<longleftrightarrow> (st = SSO_PSEUDO_OK \<or> st = SSO_PSEUDO_NOT_PSEUDO) \<and> length wire \<le> TCMD_RF_MAX_LEN"
proof (cases "sso_pseudo_is_directed c")
  case True
  have np: "st \<noteq> SSO_PSEUDO_NOT_PSEUDO"
    using True assms(1)
    by (auto simp: sso_pseudo_expand_def Let_def spec_find_def SSO_PSEUDO_SPEC_def expand_sync_sat_time_to_ground_def
        split: if_splits option.splits prod.splits)
  have "length wire \<le> 215" if "st = SSO_PSEUDO_OK"
  proof -
    have "wire = sync_command (add_ll a 500) t" using expand_ok_shape [of c _ 512 160 wire err] assms(1) that by fastforce
    then show ?thesis
      using length_show_int [of "add_ll a 500"] length_show_int [of t] add_ll_range [of a 500] assms(2,3)
      by (simp add: sync_command_def)
  qed
  then show ?thesis using expand_status [OF True assms(2,3), of a] assms(1) np by (auto simp: TCMD_RF_MAX_LEN_def)
next
  case False
  then show ?thesis using assms(1) by (auto simp: keyable_def sso_pseudo_expand_def snprintf_def TCMD_RF_MAX_LEN_def)
qed

text \<open>The sends still to be made from the run's position.\<close>

definition remaining :: "auto_tcmd \<Rightarrow> string list" where
  "remaining a =
     (if a_cmd_idx a < a_n_commands a
      then replicate (a_repeats_total a - a_repeat_idx a) (a_list a ! a_cmd_idx a) @
           concat (map (replicate (a_repeats_total a)) (drop (a_cmd_idx a + 1) (a_list a)))
      else [])"

lemma remaining_next:
  "a_cmd_idx a < a_n_commands a \<Longrightarrow> 0 < a_repeats_total a \<Longrightarrow>
   concat (map (replicate (a_repeats_total a)) (drop (a_cmd_idx a + 1) (a_list a))) =
   remaining (a\<lparr>a_cmd_idx := a_cmd_idx a + 1, a_repeat_idx := 0\<rparr>)"
  by (auto simp: remaining_def Cons_nth_drop_Suc [symmetric])

lemma remaining_update [simp]:
  "remaining (a\<lparr>a_tx_seconds_spent := r\<rparr>) = remaining a" "remaining (a\<lparr>a_state := x\<rparr>) = remaining a"
  "remaining (a\<lparr>a_status_msg := m\<rparr>) = remaining a"
  by (simp_all add: remaining_def)

lemma remaining_skip:
  assumes "position_ok a" "a_cmd_idx a < a_n_commands a"
  shows "remaining a = replicate (a_repeats_total a - a_repeat_idx a) (a_list a ! a_cmd_idx a) @ remaining (skip_command clk m a)"
proof -
  have "remaining (skip_command clk m a) = remaining (a\<lparr>a_cmd_idx := a_cmd_idx a + 1, a_repeat_idx := 0\<rparr>)"
    by (simp add: remaining_def skip_command_def)
  then show ?thesis
    using remaining_next [OF assms(2)] assms by (simp add: remaining_def position_ok_def)
qed

lemma remaining_send:
  assumes "position_ok a" "a_cmd_idx a < a_n_commands a"
  shows "remaining a = a_list a ! a_cmd_idx a # remaining (advance_send clk wire a)"
proof (cases "a_repeat_idx a + 1 \<ge> a_repeats_total a")
  case True
  then have one: "a_repeats_total a - a_repeat_idx a = 1" using assms(1) by (auto simp: position_ok_def)
  have "remaining (advance_send clk wire a) = remaining (a\<lparr>a_cmd_idx := a_cmd_idx a + 1, a_repeat_idx := 0\<rparr>)"
    using True by (simp add: remaining_def advance_send_def Let_def)
  then show ?thesis using remaining_next [OF assms(2)] assms one by (simp add: remaining_def position_ok_def)
next
  case False
  then have "a_repeats_total a - a_repeat_idx a = Suc (a_repeats_total a - (a_repeat_idx a + 1))" by simp
  then show ?thesis using False assms(2) by (simp add: remaining_def advance_send_def Let_def)
qed

text \<open>The commands the ticks of a history stage.\<close>

fun auto_trace :: "state \<Rightarrow> auto_event list \<Rightarrow> string list" where
  "auto_trace s [] = []"
| "auto_trace s (e # es) =
     (case e of ATick clk \<Rightarrow> if \<not> tx_pending s \<and> tx_pending (auto_tcmd_tick clk s)
                             then [a_list (auto_run s) ! a_cmd_idx (auto_run s)] else []
      | _ \<Rightarrow> []) @ auto_trace (auto_step s e) es"

text \<open>The run left to itself: ticks, completed bursts, tracker updates.\<close>

fun run_event :: "auto_event \<Rightarrow> bool" where
  "run_event (ATick clk) = True" | "run_event AServiced = True" | "run_event (ATrack el m) = True" | "run_event _ = False"

definition in_run :: "state \<Rightarrow> bool" where
  "in_run s \<longleftrightarrow> auto_ok s \<and> range_ok s \<and> auto_tcmd_active s \<and>
     a_state (auto_run s) \<in> {AUTO_STATE_RUNNING, AUTO_STATE_DONE, AUTO_STATE_PASS_OVER} \<and>
     (a_state (auto_run s) = AUTO_STATE_DONE \<longrightarrow> remaining (auto_run s) = [])"

lemma tick_range [simp]: "range_ok (auto_tcmd_tick clk s) = range_ok s" "auto_tcmd_active (auto_tcmd_tick clk s) = auto_tcmd_active s"
  by (cases rule: auto_tick_cases [of clk s]; simp add: range_ok_def)+

lemma tick_remaining:
  assumes "in_run s"
  shows "in_run (auto_tcmd_tick clk s) \<and>
    filter keyable (remaining (auto_run s)) =
      auto_trace s [ATick clk] @ filter keyable (remaining (auto_run (auto_tcmd_tick clk s)))"
proof -
  have ok: "auto_ok (auto_tcmd_tick clk s)" and r: "LLONG_MIN \<le> sso_pass_tssent_ms s" "sso_pass_tssent_ms s \<le> LLONG_MAX"
    using assms auto_ok_tick by (auto simp: in_run_def range_ok_def)
  show ?thesis
  proof (cases rule: auto_tick_cases [of clk s])
    case (skip r' m st wire err)
    have pos: "position_ok (auto_run s)" using auto_ok_engaged [of s] assms skip(1,2) by (simp add: in_run_def)
    have "\<not> keyable (a_list (auto_run s) ! a_cmd_idx (auto_run s))"
      using expand_keyable [OF skip(7) r] skip(8) by auto
    then show ?thesis
      using assms ok skip(1,2) remaining_skip [of "(auto_run s)\<lparr>a_tx_seconds_spent := r'\<rparr>" clk m] pos skip(4)
      by (simp add: in_run_def skip(9) tx_pending_def skip(6) [unfolded tx_pending_def] position_ok_def)
        (simp add: skip_command_def range_ok_def)
  next
    case (send r' st wire err)
    have pos: "position_ok (auto_run s)" using auto_ok_engaged [of s] assms send(1,2) by (simp add: in_run_def)
    have "keyable (a_list (auto_run s) ! a_cmd_idx (auto_run s))"
      using expand_keyable [OF send(7) r] send(8,9) by auto
    moreover have "rq_pending (auto_request s (auto_run s) c w b)" for c w b by (simp add: auto_request_def Let_def)
    ultimately show ?thesis
      using assms ok send(1,2) remaining_send [of "(auto_run s)\<lparr>a_tx_seconds_spent := r'\<rparr>" clk wire] pos send(4)
      by (simp add: in_run_def send(10) tx_pending_def send(6) [unfolded tx_pending_def] position_ok_def)
        (simp add: advance_send_def range_ok_def Let_def)
  next
    case idle
    then show ?thesis using assms by (simp add: in_run_def tx_pending_def)
  next
    case (finish r' m)
    then show ?thesis using assms ok by (simp add: in_run_def tx_pending_def remaining_def range_ok_def)
  qed (use assms ok in \<open>auto simp: in_run_def tx_pending_def range_ok_def\<close>)
qed


lemma run_event_remaining:
  assumes "in_run s" "run_event e"
  shows "in_run (auto_step s e) \<and>
    filter keyable (remaining (auto_run s)) = auto_trace s [e] @ filter keyable (remaining (auto_run (auto_step s e)))"
proof (cases e)
  case (ATick clk)
  then show ?thesis using tick_remaining [OF assms(1), of clk] by simp
qed (use assms in \<open>auto simp: in_run_def auto_ok_def cleared_def range_ok_def\<close>)

lemma auto_trace_step: "auto_trace s (e # es) = auto_trace s [e] @ auto_trace (auto_step s e) es"
  by simp

lemma run_remaining:
  "in_run s \<Longrightarrow> list_all run_event es \<Longrightarrow> in_run (foldl auto_step s es) \<and>
    filter keyable (remaining (auto_run s)) = auto_trace s es @ filter keyable (remaining (auto_run (foldl auto_step s es)))"
proof (induction es arbitrary: s)
  case (Cons e es)
  have "in_run (auto_step s e)"
    and e: "filter keyable (remaining (auto_run s)) = auto_trace s [e] @ filter keyable (remaining (auto_run (auto_step s e)))"
    using run_event_remaining [OF Cons.prems(1), of e] Cons.prems(2) by auto
  then show ?case using Cons.IH [of "auto_step s e"] Cons.prems(2) auto_trace_step [of s e es] by simp
qed simp


section \<open>A run ends\<close>

lemma tick_progress:
  assumes "in_run s" "a_state (auto_run s) = AUTO_STATE_RUNNING" "\<not> tx_pending s" "a_next_send_ns (auto_run s) \<le> clk_ns clk"
    "\<not> pass_over s" "t = auto_tcmd_tick clk s"
  shows "(a_state (auto_run t) = AUTO_STATE_DONE \<and> remaining (auto_run s) = []) \<or>
    (a_state (auto_run t) = AUTO_STATE_RUNNING \<and> length (remaining (auto_run t)) < length (remaining (auto_run s)) \<and>
     a_next_send_ns (auto_run t) \<le> clk_ns clk + \<lfloor>a_interval_s_val (auto_run s) * 10 ^ 9\<rfloor> \<and>
     a_interval_s_val (auto_run t) = a_interval_s_val (auto_run s))"
proof -
  have act: "auto_tcmd_active s" using assms(1) by (simp add: in_run_def)
  have pos: "position_ok (auto_run s)" using auto_ok_engaged [of s] assms(1,2) by (simp add: in_run_def)
  have iv: "0 \<le> \<lfloor>a_interval_s_val (auto_run s) * 10 ^ 9\<rfloor>" using pos by (simp add: position_ok_def)
  show ?thesis
  proof (cases rule: auto_tick_cases [of clk s])
    case (skip r m st wire err)
    have p: "position_ok ((auto_run s)\<lparr>a_tx_seconds_spent := r\<rparr>)" using pos by (simp add: position_ok_def)
    have "0 < a_repeats_total (auto_run s) - a_repeat_idx (auto_run s)" using pos by (simp add: position_ok_def)
    then have "length (remaining (auto_run t)) < length (remaining (auto_run s))"
      using remaining_skip [OF p, of clk m] skip(4) by (simp add: assms(6) skip(9))
    then show ?thesis using skip(2) iv by (simp add: assms(6) skip(9) skip_command_def)
  next
    case (send r st wire err)
    have p: "position_ok ((auto_run s)\<lparr>a_tx_seconds_spent := r\<rparr>)" using pos by (simp add: position_ok_def)
    then have "length (remaining (auto_run t)) < length (remaining (auto_run s))"
      using remaining_send [OF p, of clk wire] send(4) by (simp add: assms(6) send(10))
    then show ?thesis using send(2) by (simp add: assms(6) send(10) advance_send_def Let_def)
  qed (use assms act in \<open>auto simp: remaining_def\<close>)
qed

text \<open>A round of the main loop: the burst of the last send has completed, then the tick.\<close>

definition auto_round :: "state \<Rightarrow> clock \<Rightarrow> state" where
  "auto_round s clk = auto_step (auto_step s AServiced) (ATick clk)"

fun spaced :: "int \<Rightarrow> int \<Rightarrow> clock list \<Rightarrow> bool" where
  "spaced gap earliest [] = True"
| "spaced gap earliest (clk # clks) = (earliest \<le> clk_ns clk \<and> spaced gap (clk_ns clk + gap) clks)"

lemma tick_track [simp]: "pass_over (auto_tcmd_tick clk s) = pass_over s"
  by (cases rule: auto_tick_cases [of clk s]) (simp_all add: pass_over_def)

lemma spaced_weaken: "spaced gap e clks \<Longrightarrow> e' \<le> e \<Longrightarrow> spaced gap e' clks"
  by (cases clks) auto

lemma tick_stays_done: "a_state (auto_run s) = AUTO_STATE_DONE \<Longrightarrow> auto_round s clk = auto_step s AServiced"
  by (simp add: auto_round_def auto_tcmd_tick_def)

lemma rounds_done: "a_state (auto_run s) = AUTO_STATE_DONE \<Longrightarrow> a_state (auto_run (foldl auto_round s clks)) = AUTO_STATE_DONE"
  by (induction clks arbitrary: s) (simp_all add: tick_stays_done)

text \<open>
  C17: An unattended run always ends. With bursts completing, the satellite in view and rounds
  of the main loop at least the interval apart, one more round than there are sends remaining
  brings the run to its done state.
\<close>

theorem auto_run_completes:
  assumes "in_run s" and "a_state (auto_run s) = AUTO_STATE_RUNNING" and "\<not> pass_over s"
    and "spaced \<lfloor>a_interval_s_val (auto_run s) * 10 ^ 9\<rfloor> (a_next_send_ns (auto_run s)) clks"
    and "length (remaining (auto_run s)) < length clks"
  shows "a_state (auto_run (foldl auto_round s clks)) = AUTO_STATE_DONE"
  using assms
proof (induction clks arbitrary: s)
  case (Cons clk clks)
  let ?s = "auto_step s AServiced"
  let ?t = "auto_round s clk"
  have s: "in_run ?s" using run_event_remaining [OF Cons.prems(1), of AServiced] by simp
  have t: "?t = auto_tcmd_tick clk ?s" by (simp add: auto_round_def)
  have inr: "in_run ?t" using tick_remaining [OF s] by (simp add: t)
  have "pass_over ?s = pass_over s" by (simp add: pass_over_def)
  then have po: "\<not> pass_over ?t" using Cons.prems(3) unfolding t tick_track by simp
  have "(a_state (auto_run ?t) = AUTO_STATE_DONE \<and> remaining (auto_run ?s) = []) \<or>
    (a_state (auto_run ?t) = AUTO_STATE_RUNNING \<and> length (remaining (auto_run ?t)) < length (remaining (auto_run ?s)) \<and>
     a_next_send_ns (auto_run ?t) \<le> clk_ns clk + \<lfloor>a_interval_s_val (auto_run ?s) * 10 ^ 9\<rfloor> \<and>
     a_interval_s_val (auto_run ?t) = a_interval_s_val (auto_run ?s))"
    using Cons.prems by (intro tick_progress [OF s _ _ _ _ t]) (auto simp: tx_pending_def pass_over_def)
  then show ?case
  proof
    assume "a_state (auto_run ?t) = AUTO_STATE_DONE \<and> remaining (auto_run ?s) = []"
    then show ?thesis using rounds_done by simp
  next
    assume run: "a_state (auto_run ?t) = AUTO_STATE_RUNNING \<and> length (remaining (auto_run ?t)) < length (remaining (auto_run ?s)) \<and>
     a_next_send_ns (auto_run ?t) \<le> clk_ns clk + \<lfloor>a_interval_s_val (auto_run ?s) * 10 ^ 9\<rfloor> \<and>
     a_interval_s_val (auto_run ?t) = a_interval_s_val (auto_run ?s)"
    moreover from run Cons.prems(4) have "spaced \<lfloor>a_interval_s_val (auto_run ?t) * 10 ^ 9\<rfloor> (a_next_send_ns (auto_run ?t)) clks"
      by (auto intro: spaced_weaken)
    ultimately show ?thesis using Cons.IH [of ?t] inr po Cons.prems(5) by simp
  qed
qed simp


section \<open>Pausing\<close>

text \<open>A parked run: the window is closed and the command list kept.\<close>

definition parked :: "state \<Rightarrow> state \<Rightarrow> bool" where
  "parked s t \<longleftrightarrow> \<not> auto_tcmd_active t \<and> a_state (auto_run t) = AUTO_STATE_PAUSED \<and> a_commands (auto_run t) \<noteq> None \<and>
     remaining (auto_run t) = remaining (auto_run s) \<and> st_ipc t = st_ipc s \<and> tx_compose_active t = tx_compose_active s"

lemma remaining_run [simp]:
  "remaining (a\<lparr>a_start_ns := x\<rparr>) = remaining a" "remaining (a\<lparr>a_pause_ns := x\<rparr>) = remaining a"
  "remaining (a\<lparr>a_next_send_ns := x\<rparr>) = remaining a"
  by (simp_all add: remaining_def)

lemma pause_parks:
  assumes "auto_tcmd_active s" "a_commands (auto_run s) \<noteq> None" "a_state (auto_run s) = AUTO_STATE_RUNNING"
  shows "parked s (foldl auto_step s [AKey c None (KChar 27), AKey d None (KChar 112)])"
proof -
  define p where "p = auto_step s (AKey c None (KChar 27))"
  have p: "auto_tcmd_active p" "a_commands (auto_run p) \<noteq> None" "a_state (auto_run p) = AUTO_STATE_PAUSE_PROMPT"
    "remaining (auto_run p) = remaining (auto_run s)" "st_ipc p = st_ipc s" "tx_compose_active p = tx_compose_active s"
    using assms by (simp_all add: p_def auto_tcmd_handle_key_def auto_esc_def)
  then have e: "auto_step p (AKey d None (KChar 112)) = auto_tcmd_close (auto_tcmd_pause d p)"
    by (simp add: auto_tcmd_handle_key_def is_letter_def)
  show ?thesis
    unfolding foldl_Cons foldl_Nil p_def [symmetric] e
    using p by (simp add: parked_def auto_tcmd_close_def auto_tcmd_pause_def auto_tcmd_log_def emit_def Let_def)
qed

lemma parked_event:
  assumes "parked s t" "run_event e"
  shows "parked s (auto_step t e) \<and> auto_trace t [e] = []"
proof (cases e)
  case (ATick clk)
  then show ?thesis using assms by (simp add: parked_def auto_tcmd_tick_def)
qed (use assms in \<open>auto simp: parked_def\<close>)

lemma parked_events:
  "parked s t \<Longrightarrow> list_all run_event es \<Longrightarrow> parked s (foldl auto_step t es) \<and> auto_trace t es = []"
proof (induction es arbitrary: t)
  case (Cons e es)
  then have "parked s (auto_step t e)" "auto_trace t [e] = []" using parked_event [of s t e] by auto
  then show ?case using Cons.IH [of "auto_step t e"] Cons.prems(2) auto_trace_step [of t e es] by simp
qed simp

lemma parked_resumes:
  assumes "parked s t" "st_ipc s" "\<not> tx_compose_active s"
  shows "let u = foldl auto_step t [AOpen content dn True, AKey c None (KChar 114)]
    in auto_tcmd_active u \<and> a_state (auto_run u) = AUTO_STATE_RUNNING \<and> remaining (auto_run u) = remaining (auto_run s)"
proof -
  define p where "p = auto_step t (AOpen content dn True)"
  have p: "auto_tcmd_active p" "a_state (auto_run p) = AUTO_STATE_RESUME_PROMPT" "remaining (auto_run p) = remaining (auto_run s)"
    using assms by (simp_all add: p_def parked_def auto_tcmd_open_def Let_def)
  then have e: "auto_step p (AKey c None (KChar 114)) = auto_tcmd_resume c p"
    by (simp add: auto_tcmd_handle_key_def is_letter_def)
  show ?thesis
    unfolding foldl_Cons foldl_Nil p_def [symmetric] e
    using p by (simp add: auto_tcmd_resume_def auto_tcmd_log_def emit_def Let_def)
qed

text \<open>
  C18: Pausing loses and repeats nothing. Esc and P close the window and park the run;
  nothing is sent while it is parked, whatever ticks and tracker updates happen; and opening
  the window again and pressing R continues with exactly the sends that remained, even when
  the file has changed meanwhile.
\<close>

theorem auto_pause_resume:
  assumes "in_run s" and "a_state (auto_run s) = AUTO_STATE_RUNNING" and "st_ipc s" and "\<not> tx_compose_active s"
    and "list_all run_event es"
    and "paused = foldl auto_step s [AKey c None (KChar 27), AKey d None (KChar 112)]"
    and "resumed = foldl auto_step (foldl auto_step paused es) [AOpen content dn True, AKey e None (KChar 114)]"
  shows "auto_trace paused es = [] \<and> auto_tcmd_active resumed \<and> a_state (auto_run resumed) = AUTO_STATE_RUNNING \<and>
    remaining (auto_run resumed) = remaining (auto_run s)"
proof -
  have "auto_tcmd_active s" "a_commands (auto_run s) \<noteq> None" using assms(1) by (auto simp: in_run_def auto_ok_def)
  then have "parked s paused" using pause_parks assms(2,6) by blast
  then have "parked s (foldl auto_step paused es)" "auto_trace paused es = []" using parked_events assms(5) by blast+
  then show ?thesis using parked_resumes [of s _ content dn e] assms(3,4,7) by (simp add: Let_def)
qed

section \<open>Witnesses\<close>

definition demo_running :: state where
  "demo_running = demo_state\<lparr>tx_compose_active := False, auto_tcmd_active := True,
     auto_run := demo_auto\<lparr>a_state := AUTO_STATE_RUNNING, a_repeats_total := 2, a_interval_s_val := 3 / 2\<rparr>\<rparr>"

lemma demo_atof: "atof ''60'' = 60"
  by (simp add: atof_def dec_value_def isdigit_def chr_code_def)

lemma demo_in_run: "in_run demo_running"
proof -
  have "tf_ok 12 (''60'', 2)" "tf_ok 8 (''2'', 1)" "tf_ok 12 (''1.5'', 3)" by (simp_all add: tf_ok_def)
  then show ?thesis
    by (simp add: in_run_def demo_running_def demo_state_def demo_auto_def auto_ok_def form_ok_def cleared_def position_ok_def
        demo_atof tcmd_lint_gate_decision_def range_ok_def LLONG_MIN_def LLONG_MAX_def a_list_def)
qed

lemma demo_tick_stages: "\<not> tx_pending demo_running" "tx_pending (auto_tcmd_tick demo_clock demo_running)"
proof -
  have "\<not> sso_pseudo_is_directed ''CTS1+hello_world()!''" by code_simp
  then have x: "sso_pseudo_expand ''CTS1+hello_world()!'' ctx 512 160 = (SSO_PSEUDO_NOT_PSEUDO, ''CTS1+hello_world()!'', [])" for ctx
    by (simp add: sso_pseudo_expand_def snprintf_def)
  show "\<not> tx_pending demo_running" by (simp add: tx_pending_def demo_running_def demo_state_def)
  show "tx_pending (auto_tcmd_tick demo_clock demo_running)"
    by (simp add: auto_tcmd_tick_def demo_running_def demo_state_def demo_auto_def pass_over_def tx_pending_def a_list_def
        demo_clock_def x TCMD_RF_MAX_LEN_def auto_request_def Let_def)
qed

theorem auto_stage_safe_witness:
  "tx_pending (auto_tcmd_tick demo_clock demo_running) \<and>
   tx_burst_build_frame demo_sha1 (rq_payload (tx_request (auto_tcmd_tick demo_clock demo_running)))
     (rq_csp_hdr (tx_request (auto_tcmd_tick demo_clock demo_running))) (Some [1, 2]) 4200 \<noteq> None"
proof -
  have ok: "auto_ok demo_running" using demo_in_run by (simp add: in_run_def)
  show ?thesis
    using auto_stage_safe [OF ok, of demo_running "[]" demo_clock demo_sha1 "[1, 2]"] demo_tick_stages demo_sha1_works by simp
qed


definition demo_clocks :: "clock list" where
  "demo_clocks = map (\<lambda>i. demo_clock\<lparr>clk_ns := 5000000000 * i\<rparr>) [1, 2, 3, 4, 5]"

theorem auto_run_completes_witness:
  "a_state (auto_run (foldl auto_round demo_running demo_clocks)) = AUTO_STATE_DONE"
  by (rule auto_run_completes [OF demo_in_run])
    (simp_all add: demo_running_def demo_state_def demo_auto_def pass_over_def demo_clocks_def remaining_def a_list_def floor_eq_iff)

theorem auto_pause_resume_witness:
  "remaining (auto_run (foldl auto_step (foldl auto_step (foldl auto_step demo_running
       [AKey demo_clock None (KChar 27), AKey demo_clock None (KChar 112)]) [ATick demo_clock])
       [AOpen None True True, AKey demo_clock None (KChar 114)])) = remaining (auto_run demo_running)"
proof -
  have "a_state (auto_run demo_running) = AUTO_STATE_RUNNING" "st_ipc demo_running" "\<not> tx_compose_active demo_running"
    "list_all run_event [ATick demo_clock]" by (simp_all add: demo_running_def demo_state_def)
  from auto_pause_resume [OF demo_in_run this refl refl] show ?thesis by blast
qed

end
