(* ===== verification/Uplink.thy ===== *)
theory Uplink
  imports Auto_Tcmd Tx_Service
begin

text \<open>
  The uplink as a whole: the operator's main loop of \<^verbatim>\<open>src/apps/main.c\<close> (the compose window,
  the auto-telecommand run, the request servicer) and the TX thread of \<^verbatim>\<open>rx_session.c\<close>,
  interleaved step by step. Two facts span the components: every burst the TX thread runs is
  signed with the station's key, and the log file says sent exactly for the bursts that went
  on the air.
\<close>

section \<open>The system\<close>

record uplink =
  up_state :: state
  up_pc :: tx_pc
  up_ran :: "(tx_job \<times> tx_burst_result \<times> string) list"

inductive uplink_step :: "sha1_fun \<Rightarrow> uplink \<Rightarrow> uplink \<Rightarrow> bool" for sha1 where
  compose: "uplink_step sha1 u (u\<lparr>up_state := compose_step (up_state u) e\<rparr>)"
| auto: "e \<noteq> AServiced \<Longrightarrow> uplink_step sha1 u (u\<lparr>up_state := auto_step (up_state u) e\<rparr>)"
| service: "uplink_step sha1 u (u\<lparr>up_state := tx_burst_service_request clk (up_state u)\<rparr>)"
| take: "up_pc u = TxWaiting \<Longrightarrow> st_rx_session (up_state u) = Some rxs \<Longrightarrow> tx_thread_take rxs = Some (rxs', job) \<Longrightarrow>
    uplink_step sha1 u (u\<lparr>up_state := (up_state u)\<lparr>st_rx_session := Some rxs'\<rparr>, up_pc := TxRunning job\<rparr>)"
| run: "up_pc u = TxRunning job \<Longrightarrow> st_rx_session (up_state u) = Some rxs \<Longrightarrow> tx_thread_run sha1 core job = (br, summary) \<Longrightarrow>
    rxs' = (if br = TX_BURST_OK then worker_record_sent_tcmd ts rxs (job_req job) else rxs) \<Longrightarrow>
    uplink_step sha1 u (u\<lparr>up_state := (up_state u)\<lparr>st_rx_session := Some rxs'\<rparr>, up_pc := TxFinished job br summary,
      up_ran := up_ran u @ [(job, br, summary)]\<rparr>)"
| publish: "up_pc u = TxFinished job br summary \<Longrightarrow> st_rx_session (up_state u) = Some rxs \<Longrightarrow>
    uplink_step sha1 u (u\<lparr>up_state := (up_state u)\<lparr>st_rx_session := Some (tx_thread_publish rxs br summary)\<rparr>, up_pc := TxWaiting\<rparr>)"
| lose: "st_rx_session (up_state u) = Some rxs \<Longrightarrow>
    uplink_step sha1 u (u\<lparr>up_state := (up_state u)\<lparr>st_rx_session := Some (rxs\<lparr>device_lost := True\<rparr>)\<rparr>\<rparr>)"
| stop: "st_rx_session (up_state u) = Some rxs \<Longrightarrow>
    uplink_step sha1 u (u\<lparr>up_state := (up_state u)\<lparr>st_rx_session := Some (rxs\<lparr>stop_requested := True\<rparr>)\<rparr>\<rparr>)"
| exit: "up_pc u = TxWaiting \<Longrightarrow> st_rx_session (up_state u) = Some rxs \<Longrightarrow> stop_requested rxs \<Longrightarrow>
    uplink_step sha1 u (u\<lparr>up_pc := TxExited\<rparr>)"

text \<open>What the program starts from: nothing staged, an idle slot, a key that fits its 64-byte buffer, a log file that can be written.\<close>

definition uplink_start :: "uplink \<Rightarrow> bool" where
  "uplink_start u \<longleftrightarrow>
     \<not> tx_inflight (up_state u) \<and> length (tx_hmac_key (up_state u)) \<le> 64 \<and> can_log (up_state u) \<and>
     log_file (up_state u) = [] \<and> up_pc u = TxWaiting \<and> up_ran u = [] \<and>
     (case st_rx_session (up_state u) of None \<Rightarrow> True | Some rxs \<Rightarrow> slot_ok rxs \<and> slot_phase rxs = Idle)"

inductive uplink_reach :: "sha1_fun \<Rightarrow> uplink \<Rightarrow> bool" for sha1 where
  start: "uplink_start u \<Longrightarrow> uplink_reach sha1 u"
| step: "uplink_reach sha1 u \<Longrightarrow> uplink_step sha1 u u' \<Longrightarrow> uplink_reach sha1 u'"

section \<open>What the operator's windows leave alone\<close>

definition op_frame :: "state \<Rightarrow> state \<Rightarrow> bool" where
  "op_frame s t \<longleftrightarrow>
     tx_inflight t = tx_inflight s \<and> st_rx_session t = st_rx_session s \<and> st_can_tx t = st_can_tx s \<and>
     tx_hmac_key t = tx_hmac_key s \<and> tx_dry_run t = tx_dry_run s \<and> log_file t = log_file s \<and>
     (can_log s \<longrightarrow> can_log t) \<and> (tx_pending s \<longrightarrow> tx_request t = tx_request s)"

lemma op_frame_refl [simp, intro]: "op_frame s s"
  by (simp add: op_frame_def)

lemma op_frame_trans [trans]: "op_frame s t \<Longrightarrow> op_frame t u \<Longrightarrow> op_frame s u"
  by (auto simp: op_frame_def tx_pending_def)

lemma op_frame_ui:
  "op_frame s (s\<lparr>auto_run := a\<rparr>)" "op_frame s (s\<lparr>auto_tcmd_active := b\<rparr>)" "op_frame s (s\<lparr>tx_comp := c\<rparr>)"
  "op_frame s (s\<lparr>tx_compose_active := b\<rparr>)" "op_frame s (s\<lparr>tx_compose_last_edit_ns := n\<rparr>)"
  "op_frame s (s\<lparr>tx_history := h\<rparr>)" "op_frame s (s\<lparr>st_elevation := e, st_minutes_until_visible := m\<rparr>)"
  "op_frame s (s\<lparr>tx_last_payload := p, tx_last_power := q, tx_last_allow_tx := b\<rparr>)"
  "op_frame s (s\<lparr>tx_log := l\<rparr>)" "op_frame s (s\<lparr>tx_request_staged_ns := n\<rparr>)"
  "\<not> tx_pending s \<Longrightarrow> op_frame s (s\<lparr>tx_request := r\<rparr>)"
  by (simp_all add: op_frame_def log_file_def can_log_def tx_pending_def)

lemma op_frame_emit: "log_line e = [] \<Longrightarrow> op_frame s (emit e s)"
  by (simp add: op_frame_def emit_def log_file_def can_log_def)

lemmas op_frame_defs = op_frame_def log_file_def can_log_def emit_def tx_pending_def

lemma op_frame_auto_log: "op_frame s (auto_tcmd_log a m s)"
  by (simp add: auto_tcmd_log_def Let_def op_frame_defs)

lemma op_frame_preview: "op_frame s (tx_compose_broadcast_preview clk c s)"
  by (auto simp: tx_compose_broadcast_preview_def Let_def tx_log_push_def tx_compose_fill_event_def sso_event_init_def
      op_frame_defs)

lemma op_frame_commit: "tx_compose_commit clk c s = (s1, r) \<Longrightarrow> op_frame s s1"
  by (auto simp: tx_compose_commit_def Let_def op_frame_defs split: if_splits prod.splits)

lemma op_frame_remember: "op_frame s (tx_compose_remember c (tx_history_push p s))" "op_frame s (tx_compose_remember c s)"
  by (simp_all add: tx_compose_remember_def tx_history_push_def op_frame_defs)

lemma op_frame_touch: "op_frame s t \<Longrightarrow> op_frame s (t\<lparr>tx_comp := c, tx_compose_last_edit_ns := n\<rparr>)"
  by (simp add: op_frame_defs)

lemma op_frame_compose_key: "op_frame s (fst (tx_compose_handle_key clk csi k s))"
  using op_frame_remember op_frame_touch [OF op_frame_refl] op_frame_touch [OF op_frame_commit]
    op_frame_trans [OF op_frame_commit op_frame_remember(1)]
  by (auto simp: tx_compose_handle_key_def Let_def split: if_splits option.splits prod.splits)

lemma op_frame_compose: "op_frame s (compose_step s e)"
proof (cases e)
  case (CPump clk)
  have "op_frame s (t\<lparr>tx_comp := c\<rparr>)" if "op_frame s t" for t c
    using op_frame_trans [OF that op_frame_ui(3)] .
  then show ?thesis using op_frame_preview by (simp add: CPump tx_compose_pump_def Let_def)
next
  case (COpen clk w)
  then show ?thesis by (simp add: tx_compose_open_def Let_def op_frame_defs)
qed (simp_all add: op_frame_compose_key tx_compose_close_def op_frame_ui)

lemma op_frame_log_run:
  "op_frame s (auto_tcmd_log a m (s\<lparr>auto_run := r\<rparr>))" "op_frame s (emit (OutAudit a m) (s\<lparr>auto_run := r\<rparr>))"
  using op_frame_trans [OF op_frame_ui(1) op_frame_auto_log] op_frame_trans [OF op_frame_ui(1) op_frame_emit] by simp_all

lemma op_frame_close: "op_frame s t \<Longrightarrow> op_frame s (auto_tcmd_close t)"
  by (simp add: auto_tcmd_close_def Let_def op_frame_defs)

lemma op_frame_run_ops:
  "op_frame s (auto_tcmd_start clk s)" "op_frame s (auto_tcmd_stop why s)" "op_frame s (auto_tcmd_pause clk s)"
  "op_frame s (auto_tcmd_abort s)" "op_frame s (auto_tcmd_resume clk s)" "op_frame s (auto_tcmd_restart clk s)"
  by (auto simp: auto_tcmd_start_def auto_tcmd_stop_def auto_tcmd_pause_def auto_tcmd_abort_def auto_tcmd_resume_def
      auto_tcmd_restart_def Let_def op_frame_log_run op_frame_auto_log op_frame_ui split: option.splits)

lemma op_frame_auto_key: "op_frame s (auto_step s (AKey clk csi k))"
  by (auto simp: auto_tcmd_handle_key_def Let_def op_frame_run_ops op_frame_ui intro!: op_frame_close split: prod.splits)

lemma op_frame_open: "op_frame s (auto_tcmd_open content devnull_ok window_ok s)"
proof -
  obtain s1 r where r: "auto_tcmd_reload content devnull_ok s = (s1, r)" by fastforce
  have "op_frame s s1" using reload_result [OF r] op_frame_ui(1) by auto
  then show ?thesis
    using op_frame_trans [OF _ op_frame_ui(1)] op_frame_trans [OF _ op_frame_ui(2)]
    by (auto simp: auto_tcmd_open_def Let_def r op_frame_ui split: bool.splits)
qed

lemma op_frame_tick: "op_frame s (auto_tcmd_tick clk s)"
proof (cases rule: auto_tick_cases [of clk s])
  case (send r st wire err)
  then show ?thesis by (simp add: op_frame_defs)
qed (simp_all add: op_frame_ui)

lemma op_frame_auto: "e \<noteq> AServiced \<Longrightarrow> op_frame s (auto_step s e)"
proof (cases e)
  case (AKey clk csi k)
  then show ?thesis using op_frame_auto_key by simp
qed (simp_all add: op_frame_open op_frame_tick op_frame_ui)

section \<open>The invariant\<close>

definition sent_log :: "state \<Rightarrow> string list" where
  "sent_log s = map ev_ascii (filter (\<lambda>evt. ev_type evt = SSO_EVT_TX_COMMAND_SENT) (log_file s))"

definition aired :: "(tx_job \<times> tx_burst_result \<times> string) list \<Rightarrow> string list" where
  "aired rs = map (\<lambda>(job, br, summary). snprintf 256 summary) (filter (\<lambda>(job, br, summary). br = TX_BURST_OK) rs)"

definition session_owed :: "rx_session option \<Rightarrow> string list" where
  "session_owed r = (case r of None \<Rightarrow> []
     | Some rxs \<Rightarrow> if burst_complete rxs \<and> burst_result rxs = RX_BURST_OK then [burst_summary rxs] else [])"

definition owed_sent :: "tx_pc \<Rightarrow> rx_session option \<Rightarrow> string list" where
  "owed_sent pc r =
     (case pc of TxFinished job br summary \<Rightarrow> if br = TX_BURST_OK then [snprintf 256 summary] else []
      | _ \<Rightarrow> session_owed r)"

definition thread_job :: "tx_pc \<Rightarrow> tx_job option" where
  "thread_job pc = (case pc of TxRunning job \<Rightarrow> Some job | TxFinished job br summary \<Rightarrow> Some job | _ \<Rightarrow> None)"

text \<open>The session's slot mirrors the operator's request: it is busy exactly while a burst is in flight, with that request and key.\<close>

definition session_inv :: "state \<Rightarrow> tx_pc \<Rightarrow> bool" where
  "session_inv s pc \<longleftrightarrow>
     (case st_rx_session s of None \<Rightarrow> \<not> tx_inflight s \<and> thread_job pc = None
      | Some rxs \<Rightarrow>
          slot_ok rxs \<and> (burst_in_flight rxs \<longleftrightarrow> thread_job pc \<noteq> None) \<and>
          (tx_inflight s \<longleftrightarrow> slot_phase rxs \<noteq> Idle) \<and>
          (burst_req_pending rxs \<longrightarrow> burst_req rxs = tx_request s \<and> burst_hmac_key rxs = tx_hmac_key s)) \<and>
     (case thread_job pc of None \<Rightarrow> True | Some job \<Rightarrow> job_req job = tx_request s \<and> job_key job = tx_hmac_key s)"

definition ran_ok :: "sha1_fun \<Rightarrow> state \<Rightarrow> tx_job \<times> tx_burst_result \<times> string \<Rightarrow> bool" where
  "ran_ok sha1 s r \<longleftrightarrow> job_key (fst r) = tx_hmac_key s \<and> refusal s = None \<and> (\<exists>core. tx_thread_run sha1 core (fst r) = snd r)"

definition uplink_inv :: "sha1_fun \<Rightarrow> uplink \<Rightarrow> bool" where
  "uplink_inv sha1 u \<longleftrightarrow>
     can_log (up_state u) \<and> length (tx_hmac_key (up_state u)) \<le> 64 \<and> session_inv (up_state u) (up_pc u) \<and>
     (tx_inflight (up_state u) \<longrightarrow> tx_pending (up_state u) \<and> refusal (up_state u) = None) \<and>
     list_all (ran_ok sha1 (up_state u)) (up_ran u) \<and>
     sent_log (up_state u) @ owed_sent (up_pc u) (st_rx_session (up_state u)) = aired (up_ran u)"

lemma inv_start: "uplink_start u \<Longrightarrow> uplink_inv sha1 u"
  by (auto simp: uplink_start_def uplink_inv_def session_inv_def thread_job_def sent_log_def owed_sent_def session_owed_def aired_def slot_phase_def
      split: option.splits if_splits)

lemma refusal_frame: "op_frame s t \<Longrightarrow> refusal t = refusal s"
  by (simp add: op_frame_def refusal_def rx_only_def)

lemma session_inv_idle:
  assumes "session_inv s pc" "\<not> tx_inflight s"
  shows "thread_job pc = None" "st_rx_session s = Some rxs \<Longrightarrow> slot_ok rxs \<and> slot_phase rxs = Idle"
    "st_rx_session s = Some rxs \<Longrightarrow> \<not> burst_req_pending rxs"
  using assms by (auto simp: session_inv_def slot_phase_def split: option.splits if_splits)

lemma session_inv_frame:
  assumes "session_inv s pc" "op_frame s t" "tx_inflight s \<Longrightarrow> tx_request t = tx_request s"
  shows "session_inv t pc"
proof -
  have f: "tx_inflight t = tx_inflight s" "st_rx_session t = st_rx_session s" "tx_hmac_key t = tx_hmac_key s"
    using assms(2) by (simp_all add: op_frame_def)
  show ?thesis
  proof (cases "tx_inflight s")
    case True
    show ?thesis using assms(1) unfolding session_inv_def f assms(3) [OF True] .
  next
    case False
    note idle = session_inv_idle [OF assms(1) this]
    then show ?thesis using assms(1) f by (cases "st_rx_session s") (simp_all add: session_inv_def)
  qed
qed

lemma inv_operator:
  assumes "uplink_inv sha1 u" "op_frame (up_state u) t"
  shows "uplink_inv sha1 (u\<lparr>up_state := t\<rparr>)"
proof -
  have f: "tx_inflight t = tx_inflight (up_state u)" "st_rx_session t = st_rx_session (up_state u)" "tx_hmac_key t = tx_hmac_key (up_state u)"
    "log_file t = log_file (up_state u)" "can_log (up_state u) \<longrightarrow> can_log t" "refusal t = refusal (up_state u)"
    using assms(2) refusal_frame by (auto simp: op_frame_def)
  have busy: "tx_request t = tx_request (up_state u) \<and> tx_pending t" if "tx_inflight (up_state u)"
    using assms that by (auto simp: uplink_inv_def op_frame_def tx_pending_def)
  have "session_inv t (up_pc u)"
    using assms busy session_inv_frame [of "up_state u" "up_pc u" t] by (simp add: uplink_inv_def)
  moreover have "ran_ok sha1 t = ran_ok sha1 (up_state u)" by (rule ext) (simp add: ran_ok_def f)
  ultimately show ?thesis
    using assms(1) busy by (simp add: uplink_inv_def f sent_log_def)
qed

section \<open>The servicer keeps the invariant\<close>

lemma finish_sent_log:
  "can_log s \<Longrightarrow> sent_log (finish_request clk oc air sm w s) = sent_log s @ (if air then [snprintf 256 sm] else [])"
  by (simp add: sent_log_def)

lemma inv_finish:
  assumes "uplink_inv sha1 u" "\<not> tx_inflight (up_state u)"
  shows "uplink_inv sha1 (u\<lparr>up_state := finish_request clk oc False sm w (up_state u)\<rparr>)"
proof -
  let ?s = "up_state u"
  let ?t = "finish_request clk oc False sm w ?s"
  have c: "can_log ?s" using assms(1) by (simp add: uplink_inv_def)
  have "session_inv ?s (up_pc u)" using assms(1) by (simp add: uplink_inv_def)
  from session_inv_idle [OF this assms(2)] have "session_inv ?t (up_pc u)"
    using assms by (cases "st_rx_session ?s") (simp_all add: uplink_inv_def session_inv_def)
  moreover have "refusal ?t = refusal ?s" by (simp add: refusal_def)
  moreover from this have "ran_ok sha1 ?t = ran_ok sha1 ?s" by (intro ext) (simp add: ran_ok_def)
  ultimately show ?thesis
    using assms c by (simp add: uplink_inv_def finish_sent_log)
qed

lemma key_copied: "k \<noteq> [] \<Longrightarrow> length k \<le> 64 \<Longrightarrow> burst_key_copy (Some k) = k"
  by (simp add: burst_key_copy_def)

lemma inv_submit:
  assumes "uplink_inv sha1 u" "tx_pending (up_state u)" "refusal (up_state u) = None"
    "st_rx_session (up_state u) = Some rxs" "\<not> tx_inflight (up_state u)"
  shows "\<exists>rxs'. rx_session_submit_burst rxs (tx_request (up_state u)) (Some (tx_hmac_key (up_state u))) = (rxs', True) \<and>
    uplink_inv sha1 (u\<lparr>up_state := (up_state u)\<lparr>st_rx_session := Some rxs', tx_inflight := True, tx_burst_submit_ns := n\<rparr>\<rparr>)"
proof -
  let ?s = "up_state u"
  let ?t = "\<lambda>rxs'. ?s\<lparr>st_rx_session := Some rxs', tx_inflight := True, tx_burst_submit_ns := n\<rparr>"
  have inv: "slot_ok rxs" "slot_phase rxs = Idle" "thread_job (up_pc u) = None"
    using assms session_inv_idle [of ?s "up_pc u"] by (auto simp: uplink_inv_def)
  then have idle: "\<not> burst_req_pending rxs" "\<not> burst_in_flight rxs" "\<not> burst_complete rxs"
    by (auto simp: slot_phase_def split: if_splits)
  have key: "burst_key_copy (Some (tx_hmac_key ?s)) = tx_hmac_key ?s"
    using assms(1,3) by (intro key_copied) (auto simp: uplink_inv_def refusal_def split: if_splits)
  let ?r = "burst_post rxs (tx_request ?s) (Some (tx_hmac_key ?s))"
  have r: "rx_session_submit_burst rxs (tx_request ?s) (Some (tx_hmac_key ?s)) = (?r, True)"
    by (simp add: rx_session_submit_burst_def idle)
  have "session_inv (?t ?r) (up_pc u)"
    using inv idle key by (simp add: session_inv_def burst_post_def slot_ok_def slot_phase_def)
  moreover have "session_owed (st_rx_session (?t ?r)) = session_owed (st_rx_session ?s)"
    using idle assms(4) by (simp add: session_owed_def burst_post_def)
  then have "owed_sent (up_pc u) (st_rx_session (?t ?r)) = owed_sent (up_pc u) (st_rx_session ?s)"
    by (simp only: owed_sent_def)
  moreover have ref: "refusal (?t ?r) = refusal ?s" using assms(4) by (simp add: refusal_def rx_only_def)
  moreover from this have "ran_ok sha1 (?t ?r) = ran_ok sha1 ?s" by (intro ext) (simp add: ran_ok_def)
  moreover have "sent_log (?t ?r) = sent_log ?s" "can_log (?t ?r) = can_log ?s" "tx_pending (?t ?r) = tx_pending ?s"
    by (simp_all add: sent_log_def log_file_def can_log_def tx_pending_def)
  ultimately have "uplink_inv sha1 (u\<lparr>up_state := ?t ?r\<rparr>)"
    using assms(1-3) by (simp add: uplink_inv_def)
  with r show ?thesis by blast
qed

lemma inv_deliver:
  assumes "uplink_inv sha1 u" "st_rx_session (up_state u) = Some rxs" "burst_complete rxs"
    "t = (up_state u)\<lparr>st_rx_session := Some (rxs\<lparr>burst_complete := False\<rparr>), tx_inflight := False\<rparr>"
    "burst_timing clk t = (t', w)"
  shows "uplink_inv sha1 (u\<lparr>up_state := finish_request clk oc (burst_result rxs = RX_BURST_OK)
    (snprintf SSO_TX_SUMMARY_N (burst_summary rxs)) w t'\<rparr>)"
proof -
  let ?s = "up_state u"
  let ?f = "finish_request clk oc (burst_result rxs = RX_BURST_OK) (snprintf SSO_TX_SUMMARY_N (burst_summary rxs)) w t'"
  have inv: "session_inv ?s (up_pc u)" "can_log ?s" using assms(1) by (simp_all add: uplink_inv_def)
  then have slot: "slot_ok rxs" "burst_in_flight rxs = (thread_job (up_pc u) \<noteq> None)"
    using assms(2) by (simp_all add: session_inv_def)
  then have pc: "thread_job (up_pc u) = None" "\<not> burst_in_flight rxs" "\<not> burst_req_pending rxs"
    using assms(3) by (auto simp: slot_ok_def)
  have t': "t' = fst (burst_timing clk t)" using assms(5) by simp
  have t: "can_log t" "rx_only t = rx_only ?s" "log_file t = log_file ?s"
    using assms(2) inv(2) by (simp_all add: assms(4) can_log_def rx_only_def log_file_def)
  then have c: "can_log t'" and l: "log_file t' = log_file ?s" by (simp_all add: t' log_file_def)
  have fields: "st_rx_session t' = Some (rxs\<lparr>burst_complete := False\<rparr>)" "\<not> tx_inflight t'" "tx_hmac_key t' = tx_hmac_key ?s"
    by (simp_all add: t' assms(4))
  have ref: "refusal ?f = refusal ?s"
    using assms(2) by (simp add: t' refusal_def t(2)) (simp add: assms(4))
  have "session_inv ?f (up_pc u)"
    using slot(1) pc by (simp add: session_inv_def fields slot_ok_def slot_phase_def)
  moreover have "sent_log ?f @ owed_sent (up_pc u) (st_rx_session ?f) = sent_log ?s @ owed_sent (up_pc u) (st_rx_session ?s)"
    using pc(1) slot(1) assms(2,3) c
    by (simp add: fields owed_sent_def session_owed_def sent_log_def l slot_ok_def
        SSO_TX_SUMMARY_N_def thread_job_def split: tx_pc.splits)
  moreover have "ran_ok sha1 ?f = ran_ok sha1 ?s" by (rule ext) (simp only: ran_ok_def ref finish_fields fields)
  ultimately show ?thesis
    using assms(1) c fields(2,3) by (simp add: uplink_inv_def)
qed

lemma inv_service:
  assumes "uplink_inv sha1 u"
  shows "uplink_inv sha1 (u\<lparr>up_state := tx_burst_service_request clk (up_state u)\<rparr>)"
proof (cases "tx_pending (up_state u)")
  case False
  then show ?thesis using assms by (simp add: tx_burst_service_request_def)
next
  case pending: True
  let ?s = "up_state u"
  show ?thesis
  proof (cases "refusal ?s")
    case (Some oc)
    then have "\<not> tx_inflight ?s" using assms by (auto simp: uplink_inv_def)
    then show ?thesis using inv_finish [OF assms] by (simp add: service_refusal [OF pending Some])
  next
    case None
    then obtain rxs where go: "st_rx_session ?s = Some rxs" "\<not> tx_dry_run ?s" "tx_hmac_key ?s \<noteq> []" "\<not> rx_only ?s"
      by (auto simp: refusal_def split: if_splits)
    show ?thesis
    proof (cases "tx_inflight ?s")
      case False
      obtain rxs' where "rx_session_submit_burst rxs (tx_request ?s) (Some (tx_hmac_key ?s)) = (rxs', True)"
        "uplink_inv sha1 (u\<lparr>up_state := ?s\<lparr>st_rx_session := Some rxs', tx_inflight := True, tx_burst_submit_ns := clk_ns clk\<rparr>\<rparr>)"
        using inv_submit [OF assms pending None go(1) False] by blast
      then show ?thesis using pending go False by (simp add: tx_burst_service_request_def Let_def)
    next
      case True
      obtain t' w where "burst_timing clk (?s\<lparr>st_rx_session := Some (rxs\<lparr>burst_complete := False\<rparr>), tx_inflight := False\<rparr>) = (t', w)"
        by fastforce
      with inv_deliver [OF assms go(1) _ refl this] show ?thesis
        using assms pending go True by (simp add: tx_burst_service_request_def rx_session_poll_burst_def Let_def)
    qed
  qed
qed

section \<open>The TX thread keeps the invariant\<close>

lemma inv_thread:
  assumes "uplink_inv sha1 u" "st_rx_session (up_state u) = Some rxs"
    "session_inv ((up_state u)\<lparr>st_rx_session := Some rxs'\<rparr>) pc" "list_all (ran_ok sha1 (up_state u)) new"
    "owed_sent pc (Some rxs') = owed_sent (up_pc u) (Some rxs) @ aired new"
  shows "uplink_inv sha1 (u\<lparr>up_state := (up_state u)\<lparr>st_rx_session := Some rxs'\<rparr>, up_pc := pc, up_ran := up_ran u @ new\<rparr>)"
proof -
  let ?t = "(up_state u)\<lparr>st_rx_session := Some rxs'\<rparr>"
  have "refusal ?t = refusal (up_state u)" using assms(2) by (simp add: refusal_def rx_only_def)
  moreover from this have "ran_ok sha1 ?t = ran_ok sha1 (up_state u)" by (intro ext) (simp add: ran_ok_def)
  moreover have "sent_log ?t = sent_log (up_state u)" "can_log ?t = can_log (up_state u)" "tx_pending ?t = tx_pending (up_state u)"
    by (simp_all add: sent_log_def log_file_def can_log_def tx_pending_def)
  moreover have "aired (up_ran u @ new) = aired (up_ran u) @ aired new" by (simp add: aired_def)
  ultimately show ?thesis
    using assms by (simp add: uplink_inv_def flip: append_assoc)
qed

lemma record_flags [simp]:
  "burst_req_pending (worker_record_sent_tcmd ts rxs req) = burst_req_pending rxs"
  "burst_in_flight (worker_record_sent_tcmd ts rxs req) = burst_in_flight rxs"
  "burst_complete (worker_record_sent_tcmd ts rxs req) = burst_complete rxs"
  "burst_summary (worker_record_sent_tcmd ts rxs req) = burst_summary rxs"
  by (simp_all add: worker_record_sent_tcmd_def Let_def split: option.splits)

lemma inv_pc_flags:
  assumes "session_inv s pc" "st_rx_session s = Some rxs"
  shows "slot_ok rxs" "burst_in_flight rxs = (thread_job pc \<noteq> None)" "tx_inflight s = (slot_phase rxs \<noteq> Idle)"
    "burst_req_pending rxs \<Longrightarrow> burst_req rxs = tx_request s \<and> burst_hmac_key rxs = tx_hmac_key s"
    "thread_job pc = Some job \<Longrightarrow> job_req job = tx_request s \<and> job_key job = tx_hmac_key s \<and> tx_inflight s"
  using assms by (auto simp: session_inv_def slot_phase_def)

lemma inv_take:
  assumes "uplink_inv sha1 u" "up_pc u = TxWaiting" "st_rx_session (up_state u) = Some rxs" "tx_thread_take rxs = Some (rxs', job)"
  shows "uplink_inv sha1 (u\<lparr>up_state := (up_state u)\<lparr>st_rx_session := Some rxs'\<rparr>, up_pc := TxRunning job\<rparr>)"
proof -
  have "session_inv (up_state u) (up_pc u)" using assms(1) by (simp add: uplink_inv_def)
  note f = inv_pc_flags [OF this assms(3)]
  have "session_inv ((up_state u)\<lparr>st_rx_session := Some rxs'\<rparr>) (TxRunning job)"
    using f assms(2,4) by (auto simp: session_inv_def tx_thread_take_def thread_job_def slot_ok_def slot_phase_def split: if_splits)
  moreover have "owed_sent (TxRunning job) (Some rxs') = owed_sent (up_pc u) (Some rxs)"
    using assms(2,4) by (auto simp: owed_sent_def session_owed_def tx_thread_take_def split: if_splits)
  ultimately show ?thesis
    using inv_thread [OF assms(1,3), of rxs' "TxRunning job" "[]"] by (simp add: aired_def)
qed

lemma inv_run:
  assumes "uplink_inv sha1 u" "up_pc u = TxRunning job" "st_rx_session (up_state u) = Some rxs"
    "tx_thread_run sha1 core job = (br, summary)"
    "rxs' = (if br = TX_BURST_OK then worker_record_sent_tcmd ts rxs (job_req job) else rxs)"
  shows "uplink_inv sha1 (u\<lparr>up_state := (up_state u)\<lparr>st_rx_session := Some rxs'\<rparr>, up_pc := TxFinished job br summary,
    up_ran := up_ran u @ [(job, br, summary)]\<rparr>)"
proof -
  have inv: "session_inv (up_state u) (up_pc u)" using assms(1) by (simp add: uplink_inv_def)
  note f = inv_pc_flags [OF this assms(3)]
  have "slot_ok rxs'" "slot_phase rxs' = slot_phase rxs" "burst_in_flight rxs'" "\<not> burst_req_pending rxs'" "\<not> burst_complete rxs"
    using f(1,2) assms(2,5) by (auto simp: thread_job_def slot_ok_def)
  moreover from this have "session_inv ((up_state u)\<lparr>st_rx_session := Some rxs'\<rparr>) (TxFinished job br summary)"
    using f(3) f(5) [of job] assms(2) by (simp add: session_inv_def thread_job_def)
  moreover have "ran_ok sha1 (up_state u) (job, br, summary)"
    using f(5) [of job] assms(1,2,4) by (auto simp: ran_ok_def uplink_inv_def thread_job_def)
  ultimately show ?thesis
    by (intro inv_thread [OF assms(1,3)]) (simp_all add: owed_sent_def session_owed_def aired_def assms(2))
qed

lemma inv_publish:
  assumes "uplink_inv sha1 u" "up_pc u = TxFinished job br summary" "st_rx_session (up_state u) = Some rxs"
  shows "uplink_inv sha1 (u\<lparr>up_state := (up_state u)\<lparr>st_rx_session := Some (tx_thread_publish rxs br summary)\<rparr>, up_pc := TxWaiting\<rparr>)"
proof -
  let ?r = "tx_thread_publish rxs br summary"
  have "session_inv (up_state u) (up_pc u)" using assms(1) by (simp add: uplink_inv_def)
  note f = inv_pc_flags [OF this assms(3)]
  have "session_inv ((up_state u)\<lparr>st_rx_session := Some ?r\<rparr>) TxWaiting"
    using f(1,2,3) f(5) [of job] assms(2)
    by (simp add: session_inv_def tx_thread_publish_def thread_job_def slot_ok_def slot_phase_def)
  moreover have "rx_of_tx br = RX_BURST_OK \<longleftrightarrow> br = TX_BURST_OK" by (cases br) simp_all
  then have "owed_sent TxWaiting (Some ?r) = owed_sent (up_pc u) (Some rxs)"
    by (simp add: owed_sent_def session_owed_def tx_thread_publish_def assms(2) SSO_TX_SUMMARY_N_def)
  ultimately show ?thesis
    using inv_thread [OF assms(1,3), of ?r TxWaiting "[]"] by (simp add: aired_def)
qed

lemma inv_flags:
  assumes "uplink_inv sha1 u" "st_rx_session (up_state u) = Some rxs"
    "rxs' = rxs\<lparr>device_lost := b\<rparr> \<or> rxs' = rxs\<lparr>stop_requested := b\<rparr>"
  shows "uplink_inv sha1 (u\<lparr>up_state := (up_state u)\<lparr>st_rx_session := Some rxs'\<rparr>\<rparr>)"
proof -
  have "session_inv (up_state u) (up_pc u)" using assms(1) by (simp add: uplink_inv_def)
  then have "session_inv ((up_state u)\<lparr>st_rx_session := Some rxs'\<rparr>) (up_pc u)"
    using assms(2,3) by (auto simp: session_inv_def split: option.splits)
  moreover have "session_owed (Some rxs') = session_owed (Some rxs)" using assms(3) by (auto simp: session_owed_def)
  then have "owed_sent (up_pc u) (Some rxs') = owed_sent (up_pc u) (Some rxs)" by (simp only: owed_sent_def)
  ultimately show ?thesis
    using inv_thread [OF assms(1,2), of rxs' "up_pc u" "[]"] by (simp add: aired_def)
qed

lemma inv_exit: "uplink_inv sha1 u \<Longrightarrow> up_pc u = TxWaiting \<Longrightarrow> uplink_inv sha1 (u\<lparr>up_pc := TxExited\<rparr>)"
proof -
  have "thread_job TxExited = thread_job TxWaiting" by (simp add: thread_job_def)
  then have "session_inv s TxExited = session_inv s TxWaiting" for s by (simp only: session_inv_def)
  moreover assume "uplink_inv sha1 u" "up_pc u = TxWaiting"
  ultimately show ?thesis by (simp add: uplink_inv_def owed_sent_def)
qed

lemma inv_step: "uplink_step sha1 u u' \<Longrightarrow> uplink_inv sha1 u \<Longrightarrow> uplink_inv sha1 u'"
  by (induction rule: uplink_step.induct)
    (simp_all add: inv_operator op_frame_compose op_frame_auto inv_service inv_take inv_run inv_publish
      inv_flags [OF _ _ disjI1 [OF refl]] inv_flags [OF _ _ disjI2 [OF refl]] inv_exit)

lemma uplink_reach_inv: "uplink_reach sha1 u \<Longrightarrow> uplink_inv sha1 u"
  by (induction rule: uplink_reach.induct) (auto intro: inv_start inv_step)

section \<open>What goes on the air, and what the log says about it\<close>

text \<open>The samples of \<open>bp\<close> carry \<open>payload\<close> in a frame that a receiver with the key accepts as authentic.\<close>

definition carries :: "sha1_fun \<Rightarrow> u8 list \<Rightarrow> burst_params \<Rightarrow> u8 list \<Rightarrow> bool" where
  "carries sha1 key bp payload \<longleftrightarrow>
     (let r = ax100_unframe sha1 (drop 32 (iq_frame (bp_plan bp))) (uplink_opts key) 300
      in out_hmac_ok r = 1 \<and> map_option (drop 4) (out_packet r) = Some payload)"

lemma params_carry:
  assumes "tx_burst_params sha1 req (Some key) = Some bp" "key \<noteq> []"
  shows "carries sha1 key bp (rq_payload req)"
proof -
  have "tx_burst_build_frame sha1 (rq_payload req) (rq_csp_hdr req) (Some key) 4200 = Some (iq_frame (bp_plan bp))"
    using assms(1) by (auto simp: tx_burst_params_def build_iq_def Let_def split: option.splits if_splits)
  from frame_received [OF this assms(2)] show ?thesis by (auto simp: carries_def Let_def)
qed

lemma run_ok_keyed:
  "tx_thread_run sha1 core job = (TX_BURST_OK, summary) \<Longrightarrow> job_key job \<noteq> [] \<Longrightarrow>
   \<exists>bp. tx_burst_params sha1 (job_req job) (Some (job_key job)) = Some bp \<and> carries sha1 (job_key job) bp (rq_payload (job_req job))"
  by (auto simp: tx_thread_run_def tx_burst_run_def Let_def params_carry split: if_splits option.splits)

lemma refusal_None:
  "refusal s = None \<Longrightarrow> tx_hmac_key s \<noteq> [] \<and> \<not> tx_dry_run s \<and> \<not> rx_only s"
  by (auto simp: refusal_def split: if_splits)

text \<open>
  C1: Nothing unsigned is ever transmitted. However the compose window, the auto run, the
  servicer and the TX thread interleave, every burst the TX thread has run was submitted on a
  station with a key, outside a dry run, on a radio that can transmit, with exactly that key;
  and a burst reported on the air carried the samples of a frame that a receiver with that key
  accepts as authentic and from which it reads the payload that was requested.
\<close>

theorem uplink_signed:
  assumes "uplink_reach sha1 u" and "(job, br, summary) \<in> set (up_ran u)" and "s = up_state u"
  shows "tx_hmac_key s \<noteq> [] \<and> \<not> tx_dry_run s \<and> \<not> rx_only s \<and> job_key job = tx_hmac_key s \<and>
    (br = TX_BURST_OK \<longrightarrow> (\<exists>bp. tx_burst_params sha1 (job_req job) (Some (tx_hmac_key s)) = Some bp \<and>
       carries sha1 (tx_hmac_key s) bp (rq_payload (job_req job))))"
proof -
  have "ran_ok sha1 s (job, br, summary)"
    using uplink_reach_inv [OF assms(1)] assms(2,3) by (auto simp: uplink_inv_def list_all_iff)
  then show ?thesis using refusal_None [of s] run_ok_keyed [of sha1 _ job summary] by (auto simp: ran_ok_def)
qed

text \<open>
  C2: The log file tells the truth. Its sent lines, in order, are the summaries of the bursts
  the TX thread ran with success; at most the burst still in flight is missing, and when none
  is in flight the two lists are equal.
\<close>

theorem uplink_log_truthful:
  assumes "uplink_reach sha1 u" and "s = up_state u"
  shows "prefix (sent_log s) (aired (up_ran u)) \<and> length (aired (up_ran u)) \<le> length (sent_log s) + 1 \<and>
    (\<not> tx_inflight s \<longrightarrow> sent_log s = aired (up_ran u))"
proof -
  have inv: "uplink_inv sha1 u" by (rule uplink_reach_inv [OF assms(1)])
  then have eq: "sent_log s @ owed_sent (up_pc u) (st_rx_session s) = aired (up_ran u)" and si: "session_inv s (up_pc u)"
    by (simp_all add: uplink_inv_def assms(2))
  have "length (owed_sent (up_pc u) (st_rx_session s)) \<le> 1"
    by (simp add: owed_sent_def session_owed_def split: tx_pc.splits option.splits)
  moreover have "owed_sent (up_pc u) (st_rx_session s) = []" if "\<not> tx_inflight s"
    using session_inv_idle [OF si that]
    by (auto simp: owed_sent_def session_owed_def thread_job_def slot_phase_def split: tx_pc.splits option.splits if_splits)
  moreover have "length (aired (up_ran u)) = length (sent_log s) + length (owed_sent (up_pc u) (st_rx_session s))"
    using arg_cong [OF eq, of length] by simp
  moreover have "prefix (sent_log s) (aired (up_ran u))" using eq by (metis prefix_def)
  ultimately show ?thesis using eq by auto
qed

section \<open>Witnesses\<close>

text \<open>A staged telecommand is submitted, taken by the TX thread and run.\<close>

definition demo_start :: uplink where
  "demo_start = \<lparr>up_state = demo_state\<lparr>tx_request := demo_request\<rparr>, up_pc = TxWaiting, up_ran = []\<rparr>"

definition demo_job :: tx_job where
  "demo_job = \<lparr>job_req = demo_request, job_key = [1, 2, 3], job_lost = False\<rparr>"

lemma demo_uplink_start: "uplink_start demo_start"
  by (simp add: uplink_start_def demo_start_def demo_state_def can_log_def log_file_def slot_ok_def slot_phase_def
      demo_rxs_def SSO_TX_SUMMARY_N_def)

lemma demo_runs: "\<exists>summary. tx_thread_run demo_sha1 (Some (\<lambda>bp. True)) demo_job = (TX_BURST_OK, summary)"
proof -
  have "csp_v1_fits demo_hdr" by code_simp
  moreover have "length (rq_payload demo_request) \<le> 215" by (simp add: demo_request_def bytes_of_def)
  moreover have "rq_csp_hdr demo_request = demo_hdr" by (simp add: demo_request_def)
  ultimately obtain frame where
    "tx_burst_build_frame demo_sha1 (rq_payload demo_request) (rq_csp_hdr demo_request) (Some [1, 2, 3]) 4200 = Some frame"
    using build_frame_iff [OF demo_sha1_works, of "[1, 2, 3]" demo_hdr "rq_payload demo_request"] by auto
  then obtain bp where "tx_burst_params demo_sha1 demo_request (Some [1, 2, 3]) = Some bp"
    by (simp add: tx_burst_params_def build_iq_def Let_def)
  then show ?thesis by (simp add: tx_thread_run_def tx_burst_run_def Let_def demo_job_def)
qed

lemma demo_uplink_reach:
  "\<exists>u summary. uplink_reach demo_sha1 u \<and> up_ran u = [(demo_job, TX_BURST_OK, summary)] \<and> tx_hmac_key (up_state u) = [1, 2, 3]"
proof -
  let ?u = "demo_start\<lparr>up_state := tx_burst_service_request demo_clock (up_state demo_start)\<rparr>"
  let ?r = "burst_post demo_rxs demo_request (Some [1, 2, 3])"
  have u: "st_rx_session (up_state ?u) = Some ?r" "up_pc ?u = TxWaiting" "up_ran ?u = []" "tx_hmac_key (up_state ?u) = [1, 2, 3]"
    by (simp_all add: demo_start_def tx_burst_service_request_def demo_state_def tx_pending_def demo_request_def rx_only_def
        rx_session_submit_burst_def demo_rxs_def Let_def)
  obtain rxs' where t: "tx_thread_take ?r = Some (rxs', demo_job)"
    by (simp add: tx_thread_take_def burst_post_def demo_rxs_def demo_job_def burst_key_copy_def)
  obtain summary where r: "tx_thread_run demo_sha1 (Some (\<lambda>bp. True)) demo_job = (TX_BURST_OK, summary)" using demo_runs by blast
  have "uplink_reach demo_sha1 ?u"
    by (rule uplink_reach.step [OF uplink_reach.start [OF demo_uplink_start] uplink_step.service])
  from uplink_reach.step [OF this uplink_step.take [OF u(2,1) t]]
  have v: "uplink_reach demo_sha1 (?u\<lparr>up_state := (up_state ?u)\<lparr>st_rx_session := Some rxs'\<rparr>, up_pc := TxRunning demo_job\<rparr>)" .
  show ?thesis
    using uplink_reach.step [OF v uplink_step.run [OF _ _ r refl]] u(3,4) by fastforce
qed

theorem uplink_signed_witness:
  "\<exists>u summary bp. uplink_reach demo_sha1 u \<and> up_ran u = [(demo_job, TX_BURST_OK, summary)] \<and>
     tx_burst_params demo_sha1 demo_request (Some [1, 2, 3]) = Some bp \<and>
     carries demo_sha1 [1, 2, 3] bp (rq_payload demo_request)"
proof -
  obtain u summary where u: "uplink_reach demo_sha1 u" "up_ran u = [(demo_job, TX_BURST_OK, summary)]" "tx_hmac_key (up_state u) = [1, 2, 3]"
    using demo_uplink_reach by blast
  have "(demo_job, TX_BURST_OK, summary) \<in> set (up_ran u)" using u(2) by simp
  from uplink_signed [OF u(1) this refl] show ?thesis using u by (auto simp: demo_job_def)
qed

theorem uplink_log_truthful_witness:
  "\<exists>u. uplink_reach demo_sha1 u \<and> length (aired (up_ran u)) = 1 \<and> length (aired (up_ran u)) \<le> length (sent_log (up_state u)) + 1"
proof -
  obtain u summary where u: "uplink_reach demo_sha1 u" "up_ran u = [(demo_job, TX_BURST_OK, summary)]"
    using demo_uplink_reach by blast
  have "length (aired (up_ran u)) = 1" by (simp add: u(2) aired_def)
  then show ?thesis using uplink_log_truthful [OF u(1) refl] u(1) by blast
qed

end
