(* ===== verification/IPC_Json.thy ===== *)
theory IPC_Json
  imports C_String "HOL-Library.Monad_Syntax"
begin

text \<open>
  The flat-object JSON writer and reader of \<^verbatim>\<open>src/src/ipc/sso_ipc_codec.c\<close>. The writer appends
  to a bounded buffer, here the text written so far and the room \<open>cap\<close> it must stay in; the
  reader scans the line for one key at a time, here on the rest of the line instead of a
  pointer. Doubles are exact rationals, printed with \<open>%.6g\<close> and read by \<open>strtod\<close>; infinities and
  NaN do not occur. The main lemma says that looking a key up in a written object finds what
  was written under it.
\<close>

section \<open>The writer\<close>

definition json_append :: "nat \<Rightarrow> string \<Rightarrow> string \<Rightarrow> string option" where
  "json_append cap out s = (if length out + length s > cap then None else Some (out @ s))"

definition hex_digit_char :: "nat \<Rightarrow> char" where
  "hex_digit_char d = (if d < 10 then char_of (48 + d) else char_of (87 + d))"

definition json_escape :: "char \<Rightarrow> string" where
  "json_escape c =
     (if c = CHR 0x22 then [CHR 0x5C, CHR 0x22]
      else if c = CHR 0x5C then [CHR 0x5C, CHR 0x5C]
      else if c = CHR 0x0A then [CHR 0x5C, CHR ''n'']
      else if c = CHR 0x0D then [CHR 0x5C, CHR ''r'']
      else if c = CHR 0x09 then [CHR 0x5C, CHR ''t'']
      else if chr_code c < 32
      then [CHR 0x5C, CHR ''u'', CHR ''0'', CHR ''0'', hex_digit_char (chr_code c div 16), hex_digit_char (chr_code c mod 16)]
      else [c])"

fun json_append_chars :: "nat \<Rightarrow> string \<Rightarrow> string \<Rightarrow> string option" where
  "json_append_chars cap out [] = Some out"
| "json_append_chars cap out (c # s) = do { out1 \<leftarrow> json_append cap out (json_escape c); json_append_chars cap out1 s }"

definition json_append_escaped :: "nat \<Rightarrow> string \<Rightarrow> string \<Rightarrow> string option" where
  "json_append_escaped cap out s =
     do { out1 \<leftarrow> json_append cap out [CHR 0x22];
          out2 \<leftarrow> json_append_chars cap out1 s;
          json_append cap out2 [CHR 0x22] }"

text \<open>The text so far and whether no field has been written yet.\<close>

type_synonym json_state = "string \<times> bool"

definition json_key :: "nat \<Rightarrow> json_state \<Rightarrow> string \<Rightarrow> string option" where
  "json_key cap st key =
     do { out1 \<leftarrow> (if snd st then Some (fst st) else json_append cap (fst st) '','');
          out2 \<leftarrow> json_append cap out1 [CHR 0x22];
          out3 \<leftarrow> json_append cap out2 key;
          json_append cap out3 [CHR 0x22, CHR '':''] }"

definition json_field_str :: "nat \<Rightarrow> json_state \<Rightarrow> string \<Rightarrow> string \<Rightarrow> json_state option" where
  "json_field_str cap st key val =
     (if val = [] then Some st
      else do { out1 \<leftarrow> json_key cap st key; out2 \<leftarrow> json_append_escaped cap out1 val; Some (out2, False) })"

definition json_field_int :: "nat \<Rightarrow> json_state \<Rightarrow> string \<Rightarrow> int \<Rightarrow> json_state option" where
  "json_field_int cap st key val =
     do { out1 \<leftarrow> json_key cap st key; out2 \<leftarrow> json_append cap out1 (snprintf 32 (show_int val)); Some (out2, False) }"

text \<open>
  \<open>%.6g\<close>: six significant digits, ties to even, trailing zeros dropped, the exponent form
  below \<open>1e-4\<close> and from \<open>1e6\<close>. \<open>exp10 a\<close> is the exponent of the leading digit of \<open>a > 0\<close>.
\<close>

definition exp10 :: "rat \<Rightarrow> int" where
  "exp10 a = (if a \<ge> 1 then int (length (show_nat (nat \<lfloor>a\<rfloor>))) - 1 else - int (length (show_nat (nat (\<lceil>1 / a\<rceil> - 1)))))"

definition pow10 :: "int \<Rightarrow> rat" where
  "pow10 e = (if e \<ge> 0 then 10 ^ nat e else 1 / 10 ^ nat (- e))"

definition round_even :: "rat \<Rightarrow> nat" where
  "round_even a =
     (let f = nat \<lfloor>a\<rfloor>; r = a - of_nat f
      in if r < 1 / 2 \<or> (r = 1 / 2 \<and> even f) then f else f + 1)"

definition pad_left :: "nat \<Rightarrow> string \<Rightarrow> string" where
  "pad_left n s = replicate (n - length s) CHR ''0'' @ s"

text \<open>A fraction without its trailing zeros, and without the point when nothing is left.\<close>

definition strip_frac :: "string \<Rightarrow> string" where
  "strip_frac ds = (let t = rev (dropWhile (\<lambda>c. c = CHR ''0'') (rev ds)) in if t = [] then [] else CHR ''.'' # t)"

definition g6_body :: "nat \<Rightarrow> int \<Rightarrow> string" where
  "g6_body m x =
     (if -4 \<le> x \<and> x < 6
      then let k = nat (5 - x); ds = pad_left (k + 1) (show_nat m); ip = take (length ds - k) ds
           in ip @ strip_frac (drop (length ds - k) ds)
      else let ds = pad_left 6 (show_nat m)
           in take 1 ds @ strip_frac (drop 1 ds) @ ''e'' @ (if x < 0 then ''-'' else ''+'') @ pad_left 2 (show_nat (nat (abs x))))"

definition fmt_g6 :: "rat \<Rightarrow> string" where
  "fmt_g6 v =
     (if v = 0 then ''0''
      else
        let a = abs v; x0 = exp10 a; m0 = round_even (a * pow10 (5 - x0));
            body = (if m0 = 1000000 then g6_body 100000 (x0 + 1) else g6_body m0 x0)
        in if v < 0 then CHR ''-'' # body else body)"

definition json_field_double :: "nat \<Rightarrow> json_state \<Rightarrow> string \<Rightarrow> rat \<Rightarrow> json_state option" where
  "json_field_double cap st key val =
     do { out1 \<leftarrow> json_key cap st key; out2 \<leftarrow> json_append cap out1 (snprintf 40 (fmt_g6 val)); Some (out2, False) }"

definition json_field_bool :: "nat \<Rightarrow> json_state \<Rightarrow> string \<Rightarrow> bool \<Rightarrow> json_state option" where
  "json_field_bool cap st key val =
     do { out1 \<leftarrow> json_key cap st key; out2 \<leftarrow> json_append cap out1 (if val then ''true'' else ''false''); Some (out2, False) }"

definition json_field_raw :: "nat \<Rightarrow> json_state \<Rightarrow> string \<Rightarrow> string \<Rightarrow> json_state option" where
  "json_field_raw cap st key raw =
     (if raw = [] then Some st
      else do { out1 \<leftarrow> json_key cap st key; out2 \<leftarrow> json_append cap out1 raw; Some (out2, False) })"

section \<open>The reader\<close>

definition json_ws :: "char \<Rightarrow> bool" where
  "json_ws c \<longleftrightarrow> c = CHR '' '' \<or> c = CHR 0x09 \<or> c = CHR 0x0A \<or> c = CHR 0x0D"

definition json_skip_ws :: "string \<Rightarrow> string" where
  "json_skip_ws p = dropWhile json_ws p"

text \<open>The loop of \<^verbatim>\<open>json_skip_string\<close>, past the opening quote: a backslash skips the next character.\<close>

fun json_string_rest :: "string \<Rightarrow> string option" where
  "json_string_rest [] = None"
| "json_string_rest (c # p) =
     (if c = CHR 0x5C then (case p of [] \<Rightarrow> None | d # q \<Rightarrow> json_string_rest q)
      else if c = CHR 0x22 then Some p else json_string_rest p)"

definition json_skip_string :: "string \<Rightarrow> string option" where
  "json_skip_string p = (case p of [] \<Rightarrow> None | c # q \<Rightarrow> if c \<noteq> CHR 0x22 then None else json_string_rest q)"

lemma json_string_rest_length: "json_string_rest p = Some q \<Longrightarrow> length q < length p"
proof (induction p rule: json_string_rest.induct)
  case (2 c p)
  then show ?case by (fastforce split: if_splits list.splits)
qed simp

lemma json_skip_string_length: "json_skip_string p = Some q \<Longrightarrow> length q < length p"
  by (auto simp: json_skip_string_def split: list.splits if_splits dest: json_string_rest_length)

text \<open>The loop over an object or array: only its own kind of bracket counts, outside strings.\<close>

function json_skip_nested :: "char \<Rightarrow> char \<Rightarrow> int \<Rightarrow> string \<Rightarrow> string option" where
  "json_skip_nested open_c close_c depth p =
     (case p of [] \<Rightarrow> None
      | c # q \<Rightarrow>
          if c = CHR 0x22 then
            (case json_skip_string p of None \<Rightarrow> None | Some r \<Rightarrow> json_skip_nested open_c close_c depth r)
          else if c = open_c then json_skip_nested open_c close_c (depth + 1) q
          else if c = close_c then (if depth - 1 = 0 then Some q else json_skip_nested open_c close_c (depth - 1) q)
          else json_skip_nested open_c close_c depth q)"
  by pat_completeness auto
termination
  by (relation "measure (\<lambda>(_, _, _, p). length p)") (auto dest: json_skip_string_length)

declare json_skip_nested.simps [simp del]

definition json_stop :: "char \<Rightarrow> bool" where
  "json_stop c \<longleftrightarrow> c = CHR '','' \<or> c = CHR ''}'' \<or> c = CHR '']'' \<or> json_ws c"

definition json_skip_value :: "string \<Rightarrow> string option" where
  "json_skip_value p0 =
     (case json_skip_ws p0 of [] \<Rightarrow> None
      | c # q \<Rightarrow>
          if c = CHR 0x22 then json_skip_string (c # q)
          else if c = CHR ''{'' then json_skip_nested CHR ''{'' CHR ''}'' 0 (c # q)
          else if c = CHR ''['' then json_skip_nested CHR ''['' CHR '']'' 0 (c # q)
          else Some (dropWhile (\<lambda>d. \<not> json_stop d) (c # q)))"

definition escape_char :: "char \<Rightarrow> char" where
  "escape_char e =
     (if e = CHR ''n'' then CHR 0x0A else if e = CHR ''r'' then CHR 0x0D else if e = CHR ''t'' then CHR 0x09 else e)"

text \<open>The text an escaped string stands for; \<open>\u\<close> escapes become a question mark.\<close>

fun json_unescape :: "string \<Rightarrow> string" where
  "json_unescape [] = []"
| "json_unescape (c # s) =
     (if c = CHR 0x5C \<and> s \<noteq> []
      then (if hd s = CHR ''u''
            then CHR ''?'' # json_unescape (if length (tl s) \<ge> 4 then drop 4 (tl s) else tl s)
            else escape_char (hd s) # json_unescape (tl s))
      else c # json_unescape s)"

text \<open>Success and the contents of the zeroed buffer: what did not fit is missing.\<close>

definition json_unescape_into :: "string \<Rightarrow> nat \<Rightarrow> bool \<times> string" where
  "json_unescape_into s out_size = (length (json_unescape s) < out_size, take (out_size - 1) (json_unescape s))"

datatype 'a json_result = Found 'a | Absent | Malformed

lemma length_json_skip_ws: "length (json_skip_ws p) \<le> length p"
  by (simp add: json_skip_ws_def length_dropWhile_le)

lemma json_skip_nested_length:
  "json_skip_nested op cl d p = Some q \<Longrightarrow> length q < length p"
proof (induction op cl d p rule: json_skip_nested.induct)
  case (1 op cl d p)
  then show ?case
    by (subst (asm) (5) json_skip_nested.simps)
      (fastforce split: list.splits if_splits option.splits dest: json_skip_string_length)
qed

lemma json_skip_value_length: "json_skip_value p = Some q \<Longrightarrow> length q \<le> length p"
proof -
  assume a: "json_skip_value p = Some q"
  have "length q \<le> length (json_skip_ws p)"
  proof (cases "json_skip_ws p")
    case (Cons c r)
    have "length (dropWhile P (c # r)) \<le> length (c # r)" for P by (rule length_dropWhile_le)
    then show ?thesis
      using a Cons json_skip_string_length [of "c # r" q] json_skip_nested_length [of _ _ 0 "c # r" q]
      by (auto simp: json_skip_value_def simp del: dropWhile.simps length_Cons split: if_splits dest: less_imp_le)
  qed (use a in \<open>simp add: json_skip_value_def\<close>)
  then show ?thesis using length_json_skip_ws [of p] by simp
qed

lemma json_find_less:
  assumes "json_skip_string (json_skip_ws p0) = Some kp" "json_skip_value (json_skip_ws (tl (json_skip_ws kp))) = Some ve"
  shows "length (json_skip_ws ve) < length p0"
  using json_skip_string_length [OF assms(1)] json_skip_value_length [OF assms(2)]
    length_json_skip_ws [of p0] length_json_skip_ws [of "tl (json_skip_ws kp)"] length_json_skip_ws [of kp] length_json_skip_ws [of ve] by simp

text \<open>The loop of \<^verbatim>\<open>json_get_field\<close>, past the opening brace: whether the value is a string, and its text.\<close>

function json_find :: "string \<Rightarrow> string \<Rightarrow> (bool \<times> string) json_result" where
  "json_find key p0 =
     (let p = json_skip_ws p0
      in case json_skip_string p of
           None \<Rightarrow> (if p = [] \<or> hd p = CHR ''}'' then Absent else Malformed)
         | Some kp \<Rightarrow>
             let name = take (length p - length kp - 2) (tl p); kp1 = json_skip_ws kp
             in if kp1 = [] \<or> hd kp1 \<noteq> CHR '':'' then Malformed
                else
                  let vs = json_skip_ws (tl kp1); is_str = (vs \<noteq> [] \<and> hd vs = CHR 0x22)
                  in case json_skip_value vs of None \<Rightarrow> Malformed
                     | Some ve \<Rightarrow>
                         let val = take (length vs - length ve) vs
                         in if name = key then Found (is_str, if is_str then butlast (tl val) else val)
                            else let q = json_skip_ws ve
                                 in json_find key (if q \<noteq> [] \<and> hd q = CHR '','' then tl q else q))"
  by pat_completeness auto
termination
  by (relation "measure (\<lambda>(_, p). length p)") (auto simp: less_imp_diff_less dest: json_find_less)

declare json_find.simps [simp del]

definition json_get_field :: "string \<Rightarrow> string \<Rightarrow> (bool \<times> string) json_result" where
  "json_get_field json key =
     (let p = json_skip_ws json in if p = [] \<or> hd p \<noteq> CHR ''{'' then Absent else json_find key (tl p))"

text \<open>The typed getters: the return code and, for a string, what the zeroed buffer holds after the call.\<close>

definition json_get_string :: "string \<Rightarrow> string \<Rightarrow> nat \<Rightarrow> int \<times> string" where
  "json_get_string json key out_size =
     (case json_get_field json key of Absent \<Rightarrow> (0, []) | Malformed \<Rightarrow> (-1, [])
      | Found (is_str, val) \<Rightarrow>
          if \<not> is_str then (-1, [])
          else case json_unescape_into val out_size of (ok, buf) \<Rightarrow> (if ok then 1 else -1, buf))"

text \<open>\<open>strtol\<close> and \<open>strtod\<close> on a whole buffer; \<open>None\<close> when no number is read.\<close>

definition number_body :: "string \<Rightarrow> bool \<times> string" where
  "number_body s =
     (let t = dropWhile isspace s
      in if t \<noteq> [] \<and> hd t \<in> {CHR ''-'', CHR ''+''} then (hd t = CHR ''-'', tl t) else (False, t))"

definition strtol :: "string \<Rightarrow> int option" where
  "strtol s =
     (case number_body s of (neg, t) \<Rightarrow>
        let ds = takeWhile isdigit t; v = int (dec_value ds)
        in if ds = [] then None else Some (min LLONG_MAX (max LLONG_MIN (if neg then - v else v))))"

definition strtod :: "string \<Rightarrow> rat option" where
  "strtod s =
     (case number_body s of (neg, t) \<Rightarrow>
        let ip = takeWhile isdigit t; r1 = drop (length ip) t;
            fp = (if r1 \<noteq> [] \<and> hd r1 = CHR ''.'' then takeWhile isdigit (tl r1) else []);
            r2 = (if r1 \<noteq> [] \<and> hd r1 = CHR ''.'' then drop (length fp) (tl r1) else r1);
            ex = (if r2 \<noteq> [] \<and> hd r2 \<in> {CHR ''e'', CHR ''E''}
                  then let sg = (tl r2 \<noteq> [] \<and> hd (tl r2) \<in> {CHR ''-'', CHR ''+''});
                           ed = takeWhile isdigit (if sg then tl (tl r2) else tl r2)
                       in if sg \<and> hd (tl r2) = CHR ''-'' then - int (dec_value ed) else int (dec_value ed)
                  else 0);
            v = of_nat (dec_value (ip @ fp)) / 10 ^ length fp * pow10 ex
        in if ip = [] \<and> fp = [] then None else Some (if neg then - v else v))"

definition json_get_number :: "(string \<Rightarrow> 'a option) \<Rightarrow> string \<Rightarrow> string \<Rightarrow> 'a json_result" where
  "json_get_number conv json key =
     (case json_get_field json key of Absent \<Rightarrow> Absent | Malformed \<Rightarrow> Malformed
      | Found (is_str, val) \<Rightarrow>
          if length val \<ge> 40 then Malformed
          else (case conv val of None \<Rightarrow> Malformed | Some v \<Rightarrow> Found v))"

definition json_get_int :: "string \<Rightarrow> string \<Rightarrow> int json_result" where
  "json_get_int = json_get_number strtol"

definition json_get_double :: "string \<Rightarrow> string \<Rightarrow> rat json_result" where
  "json_get_double = json_get_number strtod"

definition json_get_bool :: "string \<Rightarrow> string \<Rightarrow> bool json_result" where
  "json_get_bool json key =
     (case json_get_field json key of Absent \<Rightarrow> Absent | Malformed \<Rightarrow> Malformed
      | Found (is_str, val) \<Rightarrow>
          if val = ''true'' then Found True else if val = ''false'' then Found False else Malformed)"

definition json_get_raw :: "string \<Rightarrow> string \<Rightarrow> nat \<Rightarrow> int \<times> string" where
  "json_get_raw json key out_size =
     (case json_get_field json key of Absent \<Rightarrow> (0, []) | Malformed \<Rightarrow> (-1, [])
      | Found (is_str, val) \<Rightarrow>
          if is_str
          then (if length val + 2 \<ge> out_size then (-1, []) else (1, CHR 0x22 # val @ [CHR 0x22]))
          else (if length val \<ge> out_size then (-1, []) else (1, val)))"

section \<open>Written objects\<close>

text \<open>A field as the encoder writes it, one after the other.\<close>

datatype jval = JStr string | JInt int | JDouble rat | JBool bool | JRaw string

fun put_field :: "nat \<Rightarrow> json_state \<Rightarrow> string \<times> jval \<Rightarrow> json_state option" where
  "put_field cap st (key, JStr s) = json_field_str cap st key s"
| "put_field cap st (key, JInt i) = json_field_int cap st key i"
| "put_field cap st (key, JDouble d) = json_field_double cap st key d"
| "put_field cap st (key, JBool b) = json_field_bool cap st key b"
| "put_field cap st (key, JRaw r) = json_field_raw cap st key r"

fun put_fields :: "nat \<Rightarrow> json_state \<Rightarrow> (string \<times> jval) list \<Rightarrow> json_state option" where
  "put_fields cap st [] = Some st"
| "put_fields cap st (f # fs) = do { st1 \<leftarrow> put_field cap st f; put_fields cap st1 fs }"

definition escaped :: "string \<Rightarrow> string" where
  "escaped s = concat (map json_escape s)"

fun jtext :: "jval \<Rightarrow> string" where
  "jtext (JStr s) = CHR 0x22 # escaped s @ [CHR 0x22]"
| "jtext (JInt i) = snprintf 32 (show_int i)"
| "jtext (JDouble d) = snprintf 40 (fmt_g6 d)"
| "jtext (JBool b) = (if b then ''true'' else ''false'')"
| "jtext (JRaw r) = r"

definition skipped :: "jval \<Rightarrow> bool" where
  "skipped v \<longleftrightarrow> v = JStr [] \<or> v = JRaw []"

definition visible :: "(string \<times> jval) list \<Rightarrow> (string \<times> jval) list" where
  "visible fs = filter (\<lambda>f. \<not> skipped (snd f)) fs"

definition field_text :: "string \<times> jval \<Rightarrow> string" where
  "field_text f = CHR 0x22 # fst f @ CHR 0x22 # CHR '':'' # jtext (snd f)"

fun render :: "(string \<times> jval) list \<Rightarrow> string" where
  "render [] = []"
| "render (f # fs) = field_text f @ (if fs = [] then [] else CHR '','' # render fs)"

lemma json_append_Some: "json_append cap out s = Some r \<longleftrightarrow> r = out @ s \<and> length r \<le> cap"
  by (auto simp: json_append_def)

lemma json_append_chars_Some:
  "json_append_chars cap out s = Some r \<Longrightarrow> r = out @ escaped s \<and> (length out \<le> cap \<longrightarrow> length r \<le> cap)"
  by (induction s arbitrary: out) (fastforce simp: escaped_def json_append_Some bind_eq_Some_conv)+

lemma json_append_escaped_Some:
  "json_append_escaped cap out s = Some r \<Longrightarrow> r = out @ jtext (JStr s) \<and> length r \<le> cap"
  by (auto simp: json_append_escaped_def json_append_Some bind_eq_Some_conv dest!: json_append_chars_Some)

lemma json_key_Some:
  "json_key cap st key = Some r \<Longrightarrow> r = fst st @ (if snd st then [] else '','') @ CHR 0x22 # key @ [CHR 0x22, CHR '':''] \<and> length r \<le> cap"
  by (auto simp: json_key_def json_append_Some bind_eq_Some_conv split: if_splits)

lemmas json_field_defs = json_field_str_def json_field_int_def json_field_double_def json_field_bool_def json_field_raw_def

lemma put_field_Some:
  assumes "put_field cap st f = Some st'" "length (fst st) \<le> cap"
  shows "st' = (if skipped (snd f) then st else (fst st @ (if snd st then [] else '','') @ field_text f, False)) \<and> length (fst st') \<le> cap"
proof -
  obtain key v where f: "f = (key, v)" by (cases f)
  show ?thesis
    using assms by (cases v) (auto simp: f json_field_defs skipped_def field_text_def json_append_Some bind_eq_Some_conv
        split: if_splits dest!: json_key_Some json_append_escaped_Some)
qed

lemma render_append_one: "render (fs @ [f]) = (if fs = [] then field_text f else render fs @ CHR '','' # field_text f)"
  by (induction fs) auto

lemma put_fields_Some:
  assumes "put_fields cap st fs = Some st'" "length (fst st) \<le> cap"
  shows "fst st' = fst st @ (if snd st \<or> visible fs = [] then [] else '','') @ render (visible fs) \<and> length (fst st') \<le> cap"
  using assms
proof (induction fs arbitrary: st)
  case (Cons f fs)
  then obtain st1 where s: "put_field cap st f = Some st1" "put_fields cap st1 fs = Some st'" by (auto simp: bind_eq_Some_conv)
  note one = put_field_Some [OF s(1) Cons.prems(2)]
  show ?case
    using one Cons.IH [OF s(2)] by (auto simp: visible_def)
qed (simp add: visible_def)

section \<open>Reading a written object\<close>

lemma json_string_rest_append: "json_string_rest p = Some q \<Longrightarrow> json_string_rest (p @ r) = Some (q @ r)"
proof (induction p arbitrary: q rule: json_string_rest.induct)
  case (2 c p)
  show ?case
  proof (cases "c = CHR 0x5C")
    case True
    then show ?thesis using 2 by (cases p) auto
  qed (use 2 in \<open>auto split: if_splits\<close>)
qed simp

lemma json_skip_string_append: "json_skip_string p = Some q \<Longrightarrow> json_skip_string (p @ r) = Some (q @ r)"
  by (auto simp: json_skip_string_def json_string_rest_append split: list.splits if_splits)

lemma json_skip_nested_append:
  "json_skip_nested op cl d p = Some q \<Longrightarrow> json_skip_nested op cl d (p @ r) = Some (q @ r)"
proof (induction op cl d p rule: json_skip_nested.induct)
  case (1 op cl d p)
  show ?case
  proof (cases p)
    case (Cons c p')
    then show ?thesis
      using 1 json_skip_string_append [of p _ r] json_skip_nested.simps [of op cl d "c # p'"] json_skip_nested.simps [of op cl d "c # p' @ r"]
      by (cases "c = CHR 0x22"; cases "c = op"; cases "c = cl") (simp_all split: option.splits if_splits)
  qed (use 1 in \<open>simp add: json_skip_nested.simps\<close>)
qed

lemma skip_escaped: "json_string_rest (escaped s @ CHR 0x22 # r) = Some r"
proof (induction s)
  case (Cons c s)
  have h: "hex_digit_char d \<noteq> CHR 0x5C \<and> hex_digit_char d \<noteq> CHR 0x22" if "d < 16" for d
  proof -
    have "of_char (hex_digit_char d) = (if d < 10 then 48 + d else 87 + d)" using that by (simp add: hex_digit_char_def)
    then have "of_char (hex_digit_char d) \<noteq> (92 :: nat) \<and> of_char (hex_digit_char d) \<noteq> (34 :: nat)" using that by presburger
    then show ?thesis by auto
  qed
  have "chr_code c div 16 < 16" if "chr_code c < 32" using that by simp
  then show ?case using Cons h by (auto simp: escaped_def json_escape_def)
qed (simp add: escaped_def)

definition plain_key :: "string \<Rightarrow> bool" where
  "plain_key k \<longleftrightarrow> list_all (\<lambda>c. c \<noteq> CHR 0x22 \<and> c \<noteq> CHR 0x5C) k"

lemma skip_plain_key: "plain_key k \<Longrightarrow> json_string_rest (k @ CHR 0x22 # r) = Some r"
  by (induction k) (auto simp: plain_key_def)

text \<open>The shape of a number or a boolean on the wire, and what a raw value must be: one complete array or object.\<close>

definition bare :: "string \<Rightarrow> bool" where
  "bare t \<longleftrightarrow> t \<noteq> [] \<and> list_all (\<lambda>c. isalnum c \<or> c \<in> {CHR ''-'', CHR ''+'', CHR ''.''}) t"

definition raw_ok :: "string \<Rightarrow> bool" where
  "raw_ok r \<longleftrightarrow> (r \<noteq> [] \<longrightarrow> hd r \<in> {CHR ''['', CHR ''{''} \<and> json_skip_value r = Some [])"

fun jval_ok :: "jval \<Rightarrow> bool" where
  "jval_ok (JRaw r) = raw_ok r"
| "jval_ok v = True"

definition wire_end :: "string \<Rightarrow> bool" where
  "wire_end r \<longleftrightarrow> r \<noteq> [] \<and> hd r \<in> {CHR '','', CHR ''}''}"

lemma bare_char: "isalnum c \<or> c \<in> {CHR ''-'', CHR ''+'', CHR ''.''} \<Longrightarrow>
  \<not> json_stop c \<and> \<not> json_ws c \<and> c \<noteq> CHR 0x22 \<and> c \<noteq> CHR ''{'' \<and> c \<noteq> CHR ''[''"
  by (auto simp: json_stop_def json_ws_def isalnum_def isdigit_def isupper_def islower_def chr_code_def)

lemma skip_bare:
  assumes "bare t" "wire_end r"
  shows "json_skip_value (t @ r) = Some r" "json_skip_ws (t @ r) = t @ r" "hd t \<noteq> CHR 0x22"
proof -
  obtain c u where t: "t = c # u" using assms(1) by (cases t) (auto simp: bare_def)
  have c: "\<not> json_stop c \<and> \<not> json_ws c \<and> c \<noteq> CHR 0x22 \<and> c \<noteq> CHR ''{'' \<and> c \<noteq> CHR ''[''"
    using assms(1) bare_char [of c] by (simp add: bare_def t)
  have "dropWhile (\<lambda>d. \<not> json_stop d) (t @ r) = r"
  proof -
    have "dropWhile (\<lambda>d. \<not> json_stop d) (t @ r) = dropWhile (\<lambda>d. \<not> json_stop d) r"
      using assms(1) bare_char by (intro dropWhile_append2) (auto simp: bare_def list_all_iff)
    also have "\<dots> = r" using assms(2) by (cases r) (auto simp: wire_end_def json_stop_def)
    finally show ?thesis .
  qed
  then show "json_skip_value (t @ r) = Some r" "json_skip_ws (t @ r) = t @ r" "hd t \<noteq> CHR 0x22"
    using c by (simp_all add: t json_skip_value_def json_skip_ws_def)
qed

lemma skip_raw:
  assumes "raw_ok t" "t \<noteq> []"
  shows "json_skip_value (t @ r) = Some r" "json_skip_ws (t @ r) = t @ r" "hd t \<noteq> CHR 0x22"
proof -
  obtain c u where t: "t = c # u" using assms(2) by (cases t) auto
  have c: "c = CHR ''['' \<or> c = CHR ''{''" using assms(1) by (auto simp: raw_ok_def t)
  then have "json_skip_nested c (if c = CHR ''['' then CHR '']'' else CHR ''}'') 0 t = Some []"
    using assms by (auto simp: raw_ok_def json_skip_value_def json_skip_ws_def json_ws_def t)
  from json_skip_nested_append [OF this, of r]
  show "json_skip_value (t @ r) = Some r" "json_skip_ws (t @ r) = t @ r" "hd t \<noteq> CHR 0x22"
    using c by (auto simp: t json_skip_value_def json_skip_ws_def json_ws_def)
qed

lemma skip_jstr:
  "json_skip_value (jtext (JStr s) @ r) = Some r" "json_skip_ws (jtext (JStr s) @ r) = jtext (JStr s) @ r"
  by (simp_all add: json_skip_value_def json_skip_ws_def json_ws_def json_skip_string_def skip_escaped)

lemma bare_take: "bare t \<Longrightarrow> 0 < n \<Longrightarrow> bare (take n t)"
  by (cases t; cases n) (auto simp: bare_def list_all_iff dest: in_set_takeD)

lemma show_nat_alnum: "list_all (\<lambda>c. isalnum c \<or> c \<in> {CHR ''-'', CHR ''+'', CHR ''.''}) (show_nat n)"
  by (auto simp: list_all_iff isalnum_def dest: show_nat_digits)

lemma bare_show_int: "bare (show_int i)"
  using show_nat_alnum by (simp add: bare_def show_int_def)

lemma list_all_pad_left: "list_all P s \<Longrightarrow> P CHR ''0'' \<Longrightarrow> list_all P (pad_left n s)"
  by (auto simp: pad_left_def list_all_iff)

lemma list_all_strip_frac: "list_all P ds \<Longrightarrow> P CHR ''.'' \<Longrightarrow> list_all P (strip_frac ds)"
  by (auto simp: strip_frac_def Let_def list_all_iff dest: set_dropWhileD)

lemma list_all_sub: "list_all P s \<Longrightarrow> list_all P (take n s)" "list_all P s \<Longrightarrow> list_all P (drop n s)"
  by (auto simp: list_all_iff dest: in_set_takeD in_set_dropD)

lemma fmt_g6_body: "v \<noteq> 0 \<Longrightarrow> \<exists>m x. fmt_g6 v = (if v < 0 then CHR ''-'' # g6_body m x else g6_body m x)"
  by (cases "round_even (abs v * pow10 (5 - exp10 (abs v))) = 1000000") (auto simp: fmt_g6_def Let_def)

lemma g6_body_digit: "\<exists>c t. g6_body m x = c # t \<and> isdigit c"
proof -
  have d: "list_all isdigit (pad_left n (show_nat m))" for n
    by (rule list_all_pad_left) (auto simp: list_all_iff isdigit_def chr_code_def dest: show_nat_digits)
  have first: "\<exists>c t. take n ds @ rest = c # t \<and> isdigit c" if "list_all isdigit ds" "0 < n" "ds \<noteq> []" for n ds rest
    using that by (cases ds; cases n) auto
  have "length (pad_left (k + 1) (show_nat m)) > k" "pad_left (k + 1) (show_nat m) \<noteq> []" for k
    by (auto simp: pad_left_def)
  moreover have "pad_left 6 (show_nat m) \<noteq> []" by (simp add: pad_left_def)
  ultimately show ?thesis
    using first [OF d] by (auto simp: g6_body_def Let_def)
qed

lemma g6_body_bare: "bare (g6_body m x)"
proof -
  let ?P = "\<lambda>c. isalnum c \<or> c \<in> {CHR ''-'', CHR ''+'', CHR ''.''}"
  have z: "?P CHR ''0''" "?P CHR ''.''" "?P CHR ''e''" by (simp_all add: isalnum_def isdigit_def islower_def chr_code_def)
  have p: "list_all ?P (pad_left n (show_nat k))" for n k by (intro list_all_pad_left show_nat_alnum z)
  have "list_all ?P (g6_body m x)"
    using z by (auto simp: g6_body_def Let_def simp del: insert_iff intro!: list_all_sub list_all_strip_frac p)
  moreover have "g6_body m x \<noteq> []" using g6_body_digit [of m x] by auto
  ultimately show ?thesis by (simp add: bare_def)
qed

lemma bare_fmt_g6: "bare (fmt_g6 v)"
proof (cases "v = 0")
  case True
  then show ?thesis by (simp add: fmt_g6_def bare_def isalnum_def isdigit_def chr_code_def)
next
  case False
  then obtain m x where "fmt_g6 v = (if v < 0 then CHR ''-'' # g6_body m x else g6_body m x)" using fmt_g6_body by blast
  then show ?thesis using g6_body_bare [of m x] by (simp add: bare_def)
qed

lemma skip_jtext:
  assumes "jval_ok v" "\<not> skipped v" "wire_end r"
  shows "json_skip_value (jtext v @ r) = Some r" "json_skip_ws (jtext v @ r) = jtext v @ r"
    "jtext v \<noteq> []" "hd (jtext v) = CHR 0x22 \<longleftrightarrow> (\<exists>s. v = JStr s)"
proof -
  have b: "bare (jtext v)" if "\<forall>s. v \<noteq> JStr s" "\<forall>s. v \<noteq> JRaw s"
    using that bare_take bare_show_int bare_fmt_g6
    by (cases v) (auto simp: snprintf_def bare_def isalnum_def islower_def chr_code_def)
  show "json_skip_value (jtext v @ r) = Some r" "json_skip_ws (jtext v @ r) = jtext v @ r"
    "jtext v \<noteq> []" "hd (jtext v) = CHR 0x22 \<longleftrightarrow> (\<exists>s. v = JStr s)"
    using assms b skip_bare(1,2) [of "jtext v" r] skip_bare(3) [of "jtext v"] skip_raw(1,2) [of "jtext v" r] skip_raw(3) [of "jtext v"] skip_jstr
    by (cases v; simp add: skipped_def bare_def; fail)+
qed

definition jbody :: "jval \<Rightarrow> bool \<times> string" where
  "jbody v = (case v of JStr s \<Rightarrow> (True, escaped s) | _ \<Rightarrow> (False, jtext v))"

definition lookup_result :: "(string \<times> jval) list \<Rightarrow> string \<Rightarrow> (bool \<times> string) json_result" where
  "lookup_result fs key = (case map_of fs key of None \<Rightarrow> Absent | Some v \<Rightarrow> Found (jbody v))"

lemma find_field:
  assumes "plain_key k" "jval_ok v" "\<not> skipped v" "wire_end r"
  shows "json_find key (field_text (k, v) @ r) =
    (if k = key then Found (jbody v) else json_find key (if hd r = CHR '','' then tl r else r))"
proof -
  let ?p = "field_text (k, v) @ r"
  note sk = skip_jtext [OF assms(2,3,4)]
  have ws: "json_skip_ws ?p = ?p" "json_skip_ws (CHR '':'' # q) = CHR '':'' # q" for q
    by (simp_all add: field_text_def json_skip_ws_def json_ws_def)
  have str: "json_skip_string ?p = Some (CHR '':'' # jtext v @ r)"
    using skip_plain_key [OF assms(1)] by (simp add: field_text_def json_skip_string_def)
  have name: "take (length ?p - length (CHR '':'' # jtext v @ r) - 2) (tl ?p) = k"
    by (simp add: field_text_def)
  have r: "json_skip_ws r = r" "r \<noteq> []" using assms(4) by (cases r; auto simp: wire_end_def json_skip_ws_def json_ws_def)+
  have val: "take (length (jtext v @ r) - length r) (jtext v @ r) = jtext v" by simp
  have is_str: "(jtext v @ r \<noteq> [] \<and> hd (jtext v @ r) = CHR 0x22) = (\<exists>s. v = JStr s)"
    using sk(3,4) by simp
  have body: "((\<exists>s. v = JStr s), if \<exists>s. v = JStr s then butlast (tl (jtext v)) else jtext v) = jbody v"
    by (cases v) (simp_all add: jbody_def)
  show ?thesis
    by (subst json_find.simps)
      (simp only: Let_def ws str name option.case list.sel sk(1,2) val is_str body r simp_thms if_True if_False list.distinct)
qed

lemma find_render:
  assumes "list_all (\<lambda>f. plain_key (fst f) \<and> jval_ok (snd f) \<and> \<not> skipped (snd f)) fs"
  shows "json_find key (render fs @ CHR ''}'' # u) = lookup_result fs key"
  using assms
proof (induction fs)
  case Nil
  then show ?case
    by (subst json_find.simps) (simp add: json_skip_ws_def json_ws_def json_skip_string_def lookup_result_def)
next
  case (Cons f fs)
  obtain k v where f: "f = (k, v)" by (cases f)
  let ?r = "(if fs = [] then [] else CHR '','' # render fs) @ CHR ''}'' # u"
  have "wire_end ?r" by (simp add: wire_end_def)
  then have "json_find key (field_text (k, v) @ ?r) =
    (if k = key then Found (jbody v) else json_find key (if hd ?r = CHR '','' then tl ?r else ?r))"
    using Cons.prems by (intro find_field) (simp_all add: f)
  moreover have "(if hd ?r = CHR '','' then tl ?r else ?r) = render fs @ CHR ''}'' # u" by simp
  ultimately show ?case
    using Cons by (simp only: f render.simps append_assoc) (simp add: lookup_result_def)
qed

definition object_text :: "(string \<times> jval) list \<Rightarrow> string" where
  "object_text fs = CHR ''{'' # render (visible fs) @ [CHR ''}'', CHR 0x0A]"

definition fields_ok :: "(string \<times> jval) list \<Rightarrow> bool" where
  "fields_ok fs \<longleftrightarrow> list_all (\<lambda>f. plain_key (fst f) \<and> jval_ok (snd f)) fs"

lemma get_field_tail:
  "fields_ok fs \<Longrightarrow> json_get_field (CHR ''{'' # render (visible fs) @ CHR ''}'' # u) key = lookup_result (visible fs) key"
  by (simp add: json_get_field_def json_skip_ws_def json_ws_def find_render fields_ok_def visible_def list_all_iff)

lemma get_field_object: "fields_ok fs \<Longrightarrow> json_get_field (object_text fs) key = lookup_result (visible fs) key"
  unfolding object_text_def by (rule get_field_tail)

text \<open>What a control character other than newline, return and tab turns into on the way.\<close>

definition demote :: "char \<Rightarrow> char" where
  "demote c = (if chr_code c < 32 \<and> c \<noteq> CHR 0x0A \<and> c \<noteq> CHR 0x0D \<and> c \<noteq> CHR 0x09 then CHR ''?'' else c)"

lemma unescape_escaped: "json_unescape (escaped s) = map demote s"
proof (induction s)
  case (Cons c s)
  have "json_unescape (json_escape c @ t) = demote c # json_unescape t" for t
    by (auto simp: json_escape_def demote_def escape_char_def chr_code_def)
  then show ?case using Cons by (simp add: escaped_def)
qed (simp add: escaped_def)

lemma strtol_show_int:
  assumes "LLONG_MIN \<le> i" "i \<le> LLONG_MAX"
  shows "strtol (snprintf 32 (show_int i)) = Some i \<and> length (snprintf 32 (show_int i)) < 40"
proof -
  have dig: "takeWhile isdigit (show_nat n) = show_nat n" for n
    using show_nat_digits by (simp add: takeWhile_eq_all_conv)
  have l: "length (show_nat (nat (abs i))) \<le> 20"
    using assms by (intro length_show_nat) (auto simp: LLONG_MIN_def LLONG_MAX_def)
  have "length (show_int i) \<le> 21" using l by (simp add: show_int_def abs_if split: if_splits)
  then have sn: "snprintf 32 (show_int i) = show_int i" by (simp add: snprintf_def)
  have hd: "\<not> isspace (hd (show_nat n)) \<and> hd (show_nat n) \<noteq> CHR ''-'' \<and> hd (show_nat n) \<noteq> CHR ''+''" for n
    using show_nat_digits [of "hd (show_nat n)" n] by (auto simp: isdigit_def isspace_def chr_code_def)
  have dw: "dropWhile isspace (show_nat n) = show_nat n" for n
    using hd [of n] by (cases "show_nat n") auto
  have "number_body (show_int i) = (i < 0, show_nat (nat (abs i)))"
    using hd [of "nat i"] dw by (simp add: number_body_def show_int_def Let_def isspace_def chr_code_def)
  then have "strtol (show_int i) = Some (min LLONG_MAX (max LLONG_MIN i))"
    by (simp add: strtol_def dig Let_def)
  then show ?thesis using assms sn \<open>length (show_int i) \<le> 21\<close> by simp
qed

definition g6 :: "rat \<Rightarrow> rat" where
  "g6 v = (case strtod (snprintf 40 (fmt_g6 v)) of None \<Rightarrow> 0 | Some w \<Rightarrow> w)"

lemma strtod_digit:
  assumes "isdigit c"
  shows "strtod (c # t) \<noteq> None" "strtod (CHR ''-'' # c # t) \<noteq> None"
proof -
  have "\<not> isspace c" "c \<noteq> CHR ''-''" "c \<noteq> CHR ''+''"
    using assms by (auto simp: isdigit_def isspace_def chr_code_def)
  moreover have "\<not> isspace CHR ''-''" by (simp add: isspace_def chr_code_def)
  ultimately have "number_body (c # t) = (False, c # t)" "number_body (CHR ''-'' # c # t) = (True, c # t)"
    by (simp_all add: number_body_def)
  then show "strtod (c # t) \<noteq> None" "strtod (CHR ''-'' # c # t) \<noteq> None"
    using assms by (simp_all add: strtod_def Let_def)
qed

lemma strtod_fmt_g6: "strtod (snprintf 40 (fmt_g6 v)) = Some (g6 v)"
proof -
  have "\<exists>c t. isdigit c \<and> (snprintf 40 (fmt_g6 v) = c # t \<or> snprintf 40 (fmt_g6 v) = CHR ''-'' # c # t)"
  proof (cases "v = 0")
    case True
    then show ?thesis by (simp add: fmt_g6_def snprintf_def isdigit_def chr_code_def)
  next
    case False
    then obtain m x where "fmt_g6 v = (if v < 0 then CHR ''-'' # g6_body m x else g6_body m x)" using fmt_g6_body by blast
    moreover obtain c t where "g6_body m x = c # t" "isdigit c" using g6_body_digit by blast
    ultimately show ?thesis by (auto simp: snprintf_def)
  qed
  then have "strtod (snprintf 40 (fmt_g6 v)) \<noteq> None" using strtod_digit by metis
  then show ?thesis by (auto simp: g6_def)
qed

section \<open>The typed getters on a written object\<close>

abbreviation jlookup :: "(string \<times> jval) list \<Rightarrow> string \<Rightarrow> jval option" where
  "jlookup fs key \<equiv> map_of (visible fs) key"

lemma get_string_object:
  assumes "fields_ok fs"
  shows "jlookup fs key = None \<Longrightarrow> json_get_string (object_text fs) key n = (0, [])"
    and "jlookup fs key = Some (JStr s) \<Longrightarrow> json_get_string (object_text fs) key n =
      (if length s < n then 1 else -1, take (n - 1) (map demote s))"
  using get_field_object [OF assms, of key]
  by (simp_all add: json_get_string_def lookup_result_def jbody_def json_unescape_into_def unescape_escaped)

lemma get_int_object:
  assumes "fields_ok fs"
  shows "jlookup fs key = None \<Longrightarrow> json_get_int (object_text fs) key = Absent"
    and "jlookup fs key = Some (JInt i) \<Longrightarrow> LLONG_MIN \<le> i \<Longrightarrow> i \<le> LLONG_MAX \<Longrightarrow> json_get_int (object_text fs) key = Found i"
  using get_field_object [OF assms, of key] strtol_show_int [of i]
  by (simp_all add: json_get_int_def json_get_number_def lookup_result_def jbody_def)

lemma get_double_object:
  assumes "fields_ok fs"
  shows "jlookup fs key = None \<Longrightarrow> json_get_double (object_text fs) key = Absent"
    and "jlookup fs key = Some (JDouble d) \<Longrightarrow> json_get_double (object_text fs) key = Found (g6 d)"
  using get_field_object [OF assms, of key] strtod_fmt_g6 [of d] length_snprintf [of 40 "fmt_g6 d"]
  by (simp_all add: json_get_double_def json_get_number_def lookup_result_def jbody_def)

lemma get_bool_object:
  assumes "fields_ok fs"
  shows "jlookup fs key = None \<Longrightarrow> json_get_bool (object_text fs) key = Absent"
    and "jlookup fs key = Some (JBool b) \<Longrightarrow> json_get_bool (object_text fs) key = Found b"
  using get_field_object [OF assms, of key]
  by (simp_all add: json_get_bool_def lookup_result_def jbody_def)

lemma get_raw_object:
  assumes "fields_ok fs"
  shows "jlookup fs key = None \<Longrightarrow> json_get_raw (object_text fs) key n = (0, [])"
    and "jlookup fs key = Some (JRaw r) \<Longrightarrow> length r < n \<Longrightarrow> json_get_raw (object_text fs) key n = (1, r)"
  using get_field_object [OF assms, of key]
  by (simp_all add: json_get_raw_def lookup_result_def jbody_def)

lemmas get_object = get_string_object get_int_object get_double_object get_bool_object get_raw_object

section \<open>When an object fits\<close>

lemma put_field_None:
  assumes "length (fst st @ (if snd st then [] else '','') @ field_text f) \<le> cap" "\<not> skipped (snd f)"
  shows "put_field cap st f \<noteq> None"
proof -
  obtain key v where f: "f = (key, v)" by (cases f)
  have chars: "json_append_chars cap out s \<noteq> None" if "length (out @ escaped s) \<le> cap" for out s
    using that by (induction s arbitrary: out) (auto simp: escaped_def json_append_def)
  have esc: "json_append_escaped cap out s \<noteq> None" if len: "length (out @ jtext (JStr s)) \<le> cap" for out s
  proof -
    obtain r where r: "json_append_chars cap (out @ [CHR 0x22]) s = Some r"
      using len chars [of "out @ [CHR 0x22]" s] by auto
    then show ?thesis
      using len json_append_chars_Some [OF r] by (simp add: json_append_escaped_def json_append_def)
  qed
  have key: "json_key cap st key = Some (fst st @ (if snd st then [] else '','') @ CHR 0x22 # key @ [CHR 0x22, CHR '':''])"
    using assms(1) by (cases "snd st") (auto simp: json_key_def json_append_def f field_text_def)
  show ?thesis
  proof (cases v)
    case (JStr s)
    then show ?thesis
      using assms(1) esc [of "fst st @ (if snd st then [] else '','') @ CHR 0x22 # key @ [CHR 0x22, CHR '':'']" s]
      by (auto simp: f json_field_str_def key field_text_def)
  qed (use assms(1) in \<open>auto simp: f json_field_defs key field_text_def json_append_def\<close>)
qed

lemma put_fields_iff:
  assumes "length (fst st) \<le> cap"
  shows "put_fields cap st fs \<noteq> None \<longleftrightarrow>
    length (fst st @ (if snd st \<or> visible fs = [] then [] else '','') @ render (visible fs)) \<le> cap"
  using assms
proof (induction fs arbitrary: st)
  case (Cons f fs)
  show ?case
  proof (cases "skipped (snd f)")
    case True
    then have "put_field cap st f = Some st" by (cases f; cases "snd f") (auto simp: skipped_def json_field_defs)
    then show ?thesis using Cons True by (simp add: visible_def)
  next
    case False
    let ?t = "(fst st @ (if snd st then [] else '','') @ field_text f, False)"
    show ?thesis
    proof (cases "length (fst ?t) \<le> cap")
      case True
      then obtain st1 where "put_field cap st f = Some st1" using put_field_None [of st f cap] False by auto
      then have "put_field cap st f = Some ?t" using put_field_Some [of cap st f st1] Cons.prems False by auto
      then show ?thesis using Cons.IH [of ?t] True False by (auto simp: visible_def)
    next
      case b: False
      then have "put_field cap st f = None"
        using put_field_Some [of cap st f] Cons.prems False by (cases "put_field cap st f") auto
      then show ?thesis using b False by (auto simp: visible_def)
    qed
  qed
qed (simp add: visible_def)

section \<open>Looking fields up\<close>

lemma jlookup_Nil [simp]: "jlookup [] key = None"
  by (simp add: visible_def)

lemma jlookup_Cons [simp]: "jlookup ((k, v) # fs) key = (if k = key \<and> \<not> skipped v then Some v else jlookup fs key)"
  by (simp add: visible_def)

lemma jlookup_append [simp]: "jlookup (fs @ gs) key = (case jlookup fs key of None \<Rightarrow> jlookup gs key | Some v \<Rightarrow> Some v)"
  by (simp add: visible_def map_add_def cong: option.case_cong)

lemma jlookup_if [simp]: "jlookup (if c then fs else gs) key = (if c then jlookup fs key else jlookup gs key)"
  by simp

text \<open>A single conditional field, as most of them are.\<close>

lemma jlookup_opt [simp]:
  "jlookup ((if c then [(k, v)] else []) @ fs) key = (if k = key \<and> c \<and> \<not> skipped v then Some v else jlookup fs key)"
  by simp

lemma skipped_simps [simp]:
  "skipped (JStr s) \<longleftrightarrow> s = []" "skipped (JRaw s) \<longleftrightarrow> s = []" "\<not> skipped (JInt i)" "\<not> skipped (JDouble d)" "\<not> skipped (JBool b)"
  by (simp_all add: skipped_def)

lemma fields_ok_simps [simp]:
  "fields_ok []" "fields_ok ((k, v) # fs) \<longleftrightarrow> plain_key k \<and> jval_ok v \<and> fields_ok fs"
  "fields_ok (fs @ gs) \<longleftrightarrow> fields_ok fs \<and> fields_ok gs"
  "fields_ok (if c then fs else gs) \<longleftrightarrow> (if c then fields_ok fs else fields_ok gs)"
  by (simp_all add: fields_ok_def)

end
