(* ===== verification/IPC_Event.thy ===== *)
theory IPC_Event
  imports Tx_State IPC_Json
begin

text \<open>
  \<^verbatim>\<open>src/src/ipc/sso_ipc_codec.c\<close>: the event table and the encoding of an event as one line of
  JSON. The record extends the event of the TX log by the other fields of \<^verbatim>\<open>sso_event_t\<close>, in
  the order of the header; \<open>event_fields\<close> lists what the encoder writes, in its order and under
  its conditions, and the decoder is the sequence of getters of \<^verbatim>\<open>sso_event_decode\<close>.
\<close>

section \<open>Events\<close>

definition SSO_RX_PT_SLOTS :: nat where "SSO_RX_PT_SLOTS = 6"
definition SSO_RX_PT_PAYLOAD_MAX :: nat where "SSO_RX_PT_PAYLOAD_MAX = 64"
definition SSO_RX_PT_SUMMARY_MAX :: nat where "SSO_RX_PT_SUMMARY_MAX = 160"
definition SSO_RIBBON_MAX :: nat where "SSO_RIBBON_MAX = 60"
definition SSO_AUDIO_B64_MAX :: nat where "SSO_AUDIO_B64_MAX = 5465"

record rx_pt =
  pt_count :: int
  pt_payload_len :: int
  pt_payload :: "u8 list"
  pt_summary :: string

record ipc_event = sso_event +
  ev_role :: string
  ev_user :: string
  ev_operator_user :: string
  ev_prev :: string
  ev_new_user :: string
  ev_by :: string
  ev_to :: string
  ev_forced :: bool
  ev_reason :: string
  ev_pass_folder :: string
  ev_has_state :: bool
  ev_satellite :: string
  ev_source :: string
  ev_az :: rat
  ev_el :: rat
  ev_freq_hz :: int
  ev_doppler_hz :: rat
  ev_rx_status :: string
  ev_tx_status :: string
  ev_roster_json :: string
  ev_tle_path :: string
  ev_target_az :: rat
  ev_target_el :: rat
  ev_flip :: bool
  ev_in_pass :: bool
  ev_tracking :: bool
  ev_has_rotator :: bool
  ev_jul_utc :: rat
  ev_idesg :: string
  ev_epoch_min :: rat
  ev_min_visible :: rat
  ev_min_above_0 :: rat
  ev_min_above_30 :: rat
  ev_max_el :: rat
  ev_pred_az :: rat
  ev_pred_el :: rat
  ev_alt_km :: rat
  ev_lat_deg :: rat
  ev_lon_deg :: rat
  ev_speed_kms :: rat
  ev_range_km :: rat
  ev_range_rate_kms :: rat
  ev_auto_tcmd_on :: bool
  ev_auto_tcmd_sent :: int
  ev_auto_tcmd_total :: int
  ev_auto_tcmd_state :: string
  ev_snr_db :: rat
  ev_packets :: int
  ev_last_packet_ts :: string
  ev_last_packet_summary :: string
  ev_tx_allow_high_power :: bool
  ev_tx_allow_hf_tx :: bool
  ev_cmd_text :: string
  ev_cmd_status :: string
  ev_rx_have_session :: bool
  ev_rx_rec_active :: bool
  ev_rx_freq_hz :: rat
  ev_rx_peak_dbfs :: rat
  ev_rx_rms_dbfs :: rat
  ev_rx_frames_total :: int
  ev_rx_frames_pcm :: int
  ev_rx_frames_vit :: int
  ev_rx_last_frame_summary :: string
  ev_rx_age_s :: rat
  ev_rx_pt :: "rx_pt list"
  ev_rx_ribbon_n :: int
  ev_rx_ribbon :: string
  ev_rx_ribbon_peak :: "u8 list"
  ev_rx_warning :: string
  ev_audio_enable :: bool
  ev_audio_quality :: rat
  ev_audio_state :: string
  ev_audio_seq :: int
  ev_audio_start :: bool
  ev_audio_sr :: int
  ev_audio_ch :: int
  ev_audio_b64 :: string

section \<open>The event type table\<close>

definition g_event_types :: "(sso_event_type \<times> string) list" where
  "g_event_types =
     [(SSO_EVT_HELLO, ''hello''), (SSO_EVT_WELCOME, ''welcome''), (SSO_EVT_STATE, ''state''),
      (SSO_EVT_OPERATOR_CHANGED, ''operator-changed''), (SSO_EVT_HANDOFF_OFFER, ''handoff-offer''),
      (SSO_EVT_HANDOFF_ACCEPTED, ''handoff-accepted''), (SSO_EVT_HANDOFF_DECLINED, ''handoff-declined''),
      (SSO_EVT_RX_STATS, ''rx-stats''), (SSO_EVT_TX_COMMAND_SENT, ''tx-command-sent''), (SSO_EVT_BYE, ''bye''),
      (SSO_EVT_YIELD_REQUEST, ''yield-request''), (SSO_EVT_TX_COMMAND_PREVIEW, ''tx-preview''),
      (SSO_EVT_TX_REQUEST, ''tx-request''), (SSO_EVT_TX_NOT_SENT, ''tx-not-sent''), (SSO_EVT_CMD_PREVIEW, ''cmd-preview''),
      (SSO_EVT_CMD_EXECUTED, ''cmd-executed''), (SSO_EVT_AUDIO_CTL, ''audio-ctl''),
      (SSO_EVT_AUDIO_STATUS, ''audio-status''), (SSO_EVT_AUDIO, ''audio'')]"

definition sso_event_type_name :: "sso_event_type \<Rightarrow> string" where
  "sso_event_type_name ty = (case map_of g_event_types ty of None \<Rightarrow> ''?'' | Some name \<Rightarrow> name)"

definition sso_event_type_from_name :: "string \<Rightarrow> sso_event_type" where
  "sso_event_type_from_name name =
     (case find (\<lambda>(ty, nm). nm = name) g_event_types of None \<Rightarrow> SSO_EVT_UNKNOWN | Some (ty, nm) \<Rightarrow> ty)"

section \<open>Encoding\<close>

abbreviation given :: "bool \<Rightarrow> (string \<times> jval) list \<Rightarrow> (string \<times> jval) list" where
  "given c fs \<equiv> (if c then fs else [])"

definition header_fields :: "ipc_event \<Rightarrow> (string \<times> jval) list" where
  "header_fields e =
     [(''t'', JStr (sso_event_type_name (ev_type e))), (''ts'', JStr (ev_ts e)), (''from'', JStr (ev_from e)),
      (''role'', JStr (ev_role e)), (''user'', JStr (ev_user e)), (''operator'', JStr (ev_operator_user e)),
      (''prev'', JStr (ev_prev e)), (''new'', JStr (ev_new_user e)), (''by'', JStr (ev_by e)), (''to'', JStr (ev_to e))] @
     given (ev_forced e) [(''forced'', JBool True)] @
     [(''reason'', JStr (ev_reason e)), (''pass_folder'', JStr (ev_pass_folder e))]"

definition state_fields :: "ipc_event \<Rightarrow> (string \<times> jval) list" where
  "state_fields e =
     [(''sat'', JStr (ev_satellite e)), (''source'', JStr (ev_source e)), (''az'', JDouble (ev_az e)), (''el'', JDouble (ev_el e))] @
     given (ev_freq_hz e \<noteq> 0) [(''freq'', JInt (ev_freq_hz e))] @
     given (ev_doppler_hz e \<noteq> 0) [(''doppler'', JDouble (ev_doppler_hz e))] @
     [(''rx_status'', JStr (ev_rx_status e)), (''tx_status'', JStr (ev_tx_status e)), (''tle_path'', JStr (ev_tle_path e)),
      (''target_az'', JDouble (ev_target_az e)), (''target_el'', JDouble (ev_target_el e))] @
     given (ev_flip e) [(''flip'', JBool True)] @
     given (ev_in_pass e) [(''in_pass'', JBool True)] @
     given (ev_tracking e) [(''tracking'', JBool True)] @
     given (ev_jul_utc e \<noteq> 0) [(''jul'', JDouble (ev_jul_utc e))] @
     given (ev_has_rotator e) [(''has_rot'', JBool True)]"

definition predict_fields :: "ipc_event \<Rightarrow> (string \<times> jval) list" where
  "predict_fields e =
     [(''idesg'', JStr (ev_idesg e)), (''ep_min'', JDouble (ev_epoch_min e)), (''mv'', JDouble (ev_min_visible e)),
      (''ma0'', JDouble (ev_min_above_0 e)), (''ma30'', JDouble (ev_min_above_30 e)), (''max_el'', JDouble (ev_max_el e)),
      (''p_az'', JDouble (ev_pred_az e)), (''p_el'', JDouble (ev_pred_el e)), (''alt'', JDouble (ev_alt_km e)),
      (''lat'', JDouble (ev_lat_deg e)), (''lon'', JDouble (ev_lon_deg e)), (''spd'', JDouble (ev_speed_kms e)),
      (''rng'', JDouble (ev_range_km e)), (''rrate'', JDouble (ev_range_rate_kms e)), (''roster'', JRaw (ev_roster_json e))]"

definition auto_fields :: "ipc_event \<Rightarrow> (string \<times> jval) list" where
  "auto_fields e =
     given (ev_auto_tcmd_on e)
       [(''at_on'', JBool True), (''at_sent'', JInt (ev_auto_tcmd_sent e)), (''at_tot'', JInt (ev_auto_tcmd_total e)),
        (''at_st'', JStr (ev_auto_tcmd_state e))] @
     [(''rx_warn'', JStr (ev_rx_warning e))]"

definition rx_fields :: "ipc_event \<Rightarrow> (string \<times> jval) list" where
  "rx_fields e =
     [(''rx_has'', JBool True)] @
     given (ev_rx_rec_active e) [(''rx_rec'', JBool True)] @
     [(''rx_fhz'', JDouble (ev_rx_freq_hz e)), (''rx_pk'', JDouble (ev_rx_peak_dbfs e)), (''rx_rm'', JDouble (ev_rx_rms_dbfs e)),
      (''rx_fr'', JInt (ev_rx_frames_total e))] @
     given (ev_rx_frames_pcm e \<noteq> 0) [(''rx_fr_pcm'', JInt (ev_rx_frames_pcm e))] @
     given (ev_rx_frames_vit e \<noteq> 0) [(''rx_fr_vt'', JInt (ev_rx_frames_vit e))] @
     [(''rx_lf'', JStr (ev_rx_last_frame_summary e))] @
     given (ev_rx_age_s e \<ge> 0) [(''rx_age'', JDouble (ev_rx_age_s e))]"

definition hd_char :: "nat \<Rightarrow> char" where
  "hd_char d = (if d < 10 then char_of (48 + d) else char_of (55 + d))"

definition hex_upper :: "u8 list \<Rightarrow> string" where
  "hex_upper bs = concat (map (\<lambda>b. [hd_char (unat (drop_bit 4 b AND 0xF)), hd_char (unat (b AND 0xF))]) bs)"

definition slot_key :: "nat \<Rightarrow> char \<Rightarrow> string" where
  "slot_key s c = snprintf 16 (''rx_pt'' @ show_nat s @ [CHR ''_'', c])"

definition slot_fields :: "nat \<Rightarrow> rx_pt \<Rightarrow> (string \<times> jval) list" where
  "slot_fields s pt =
     (if pt_count pt = 0 then []
      else [(slot_key s CHR ''c'', JInt (pt_count pt))] @
        given (pt_payload_len pt > 0)
          [(slot_key s CHR ''l'', JInt (pt_payload_len pt)),
           (slot_key s CHR ''p'', JStr (hex_upper (take (min (nat (pt_payload_len pt)) SSO_RX_PT_PAYLOAD_MAX) (pt_payload pt))))] @
        [(slot_key s CHR ''s'', JStr (pt_summary pt))])"

definition slots_fields :: "rx_pt list \<Rightarrow> (string \<times> jval) list" where
  "slots_fields pts = concat (map (\<lambda>s. slot_fields s (pts ! s)) [0..<SSO_RX_PT_SLOTS])"

definition ribbon_fields :: "ipc_event \<Rightarrow> (string \<times> jval) list" where
  "ribbon_fields e =
     given (ev_rx_ribbon_n e > 0)
       [(''rx_rb'', JStr (ev_rx_ribbon e)), (''rx_rb_p'', JStr (hex_upper (take (nat (ev_rx_ribbon_n e)) (ev_rx_ribbon_peak e))))]"

definition stats_fields :: "ipc_event \<Rightarrow> (string \<times> jval) list" where
  "stats_fields e =
     given (ev_type e = SSO_EVT_RX_STATS)
       [(''snr_db'', JDouble (ev_snr_db e)), (''packets'', JInt (ev_packets e)), (''last_packet_ts'', JStr (ev_last_packet_ts e)),
        (''last_packet_summary'', JStr (ev_last_packet_summary e))]"

definition csp_int :: "u8 \<Rightarrow> int" where
  "csp_int b = uint b"

definition tx_fields :: "ipc_event \<Rightarrow> (string \<times> jval) list" where
  "tx_fields e =
     [(''ascii'', JStr (ev_ascii e)), (''tx_kind'', JStr (ev_tx_payload_kind e)), (''tx_pl'', JStr (ev_tx_payload e))] @
     given (src (ev_tx_csp e) \<noteq> 0) [(''tx_src'', JInt (csp_int (src (ev_tx_csp e))))] @
     given (dst (ev_tx_csp e) \<noteq> 0) [(''tx_dst'', JInt (csp_int (dst (ev_tx_csp e))))] @
     given (dport (ev_tx_csp e) \<noteq> 0) [(''tx_dp'', JInt (csp_int (dport (ev_tx_csp e))))] @
     given (sport (ev_tx_csp e) \<noteq> 0) [(''tx_sp'', JInt (csp_int (sport (ev_tx_csp e))))] @
     given (prio (ev_tx_csp e) \<noteq> 0) [(''tx_prio'', JInt (csp_int (prio (ev_tx_csp e))))] @
     given (ev_tx_freq_hz e \<noteq> 0) [(''tx_freq'', JInt (ev_tx_freq_hz e))] @
     given (ev_tx_gain_db e \<noteq> 0) [(''tx_gain'', JDouble (ev_tx_gain_db e))] @
     given (ev_tx_allow_tx e) [(''tx_allow'', JBool True)] @
     given (ev_tx_allow_high_power e) [(''tx_hp'', JBool True)] @
     given (ev_tx_allow_hf_tx e) [(''tx_hf'', JBool True)] @
     given (ev_tx_repeat e \<noteq> 0) [(''tx_rep'', JInt (ev_tx_repeat e))] @
     given (ev_tx_gap_ms e \<noteq> 0) [(''tx_gap'', JInt (ev_tx_gap_ms e))] @
     [(''tx_st'', JStr (ev_tx_not_sent_reason e)), (''tx_org'', JStr (ev_tx_origin e))]"

definition carries_tx :: "sso_event_type \<Rightarrow> bool" where
  "carries_tx ty \<longleftrightarrow> ty = SSO_EVT_TX_COMMAND_SENT \<or> ty = SSO_EVT_TX_COMMAND_PREVIEW \<or> ty = SSO_EVT_TX_REQUEST \<or> ty = SSO_EVT_TX_NOT_SENT"

definition cmd_fields :: "ipc_event \<Rightarrow> (string \<times> jval) list" where
  "cmd_fields e =
     given (ev_type e = SSO_EVT_CMD_PREVIEW \<or> ev_type e = SSO_EVT_CMD_EXECUTED)
       [(''cmd_text'', JStr (ev_cmd_text e)), (''cmd_status'', JStr (ev_cmd_status e))]"

definition rate_fields :: "ipc_event \<Rightarrow> (string \<times> jval) list" where
  "rate_fields e = given (ev_audio_sr e \<noteq> 0) [(''sr'', JInt (ev_audio_sr e))] @ given (ev_audio_ch e \<noteq> 0) [(''ch'', JInt (ev_audio_ch e))]"

definition audio_fields :: "ipc_event \<Rightarrow> (string \<times> jval) list" where
  "audio_fields e =
     given (ev_type e = SSO_EVT_AUDIO_CTL)
       ([(''enable'', JBool (ev_audio_enable e))] @ given (ev_audio_quality e > 0) [(''q'', JDouble (ev_audio_quality e))]) @
     given (ev_type e = SSO_EVT_AUDIO_STATUS) ([(''state'', JStr (ev_audio_state e))] @ rate_fields e) @
     given (ev_type e = SSO_EVT_AUDIO)
       ([(''seq'', JInt (ev_audio_seq e))] @
        given (ev_audio_start e) ([(''start'', JBool True)] @ rate_fields e) @
        [(''data'', JStr (ev_audio_b64 e))])"

definition event_fields :: "ipc_event \<Rightarrow> (string \<times> jval) list" where
  "event_fields e =
     header_fields e @
     given (ev_has_state e)
       (state_fields e @ predict_fields e @ auto_fields e @
        given (ev_rx_have_session e) (rx_fields e @ slots_fields (ev_rx_pt e) @ ribbon_fields e)) @
     stats_fields e @
     given (carries_tx (ev_type e)) (tx_fields e) @
     cmd_fields e @ audio_fields e"

text \<open>The line written, before its terminator; the fields must stay two characters short of the buffer.\<close>

definition sso_event_encode :: "ipc_event \<Rightarrow> nat \<Rightarrow> string option" where
  "sso_event_encode e out_size =
     (if out_size < 8 then None
      else do { out \<leftarrow> json_append (out_size - 2) [] ''{'';
                st \<leftarrow> put_fields (out_size - 2) (out, True) (event_fields e);
                json_append out_size (fst st) [CHR ''}'', CHR 0x0A] })"

section \<open>Decoding\<close>

definition to_int32 :: "int \<Rightarrow> int" where
  "to_int32 v = (v + 2147483648) mod 4294967296 - 2147483648"

definition found :: "'a json_result \<Rightarrow> 'a \<Rightarrow> 'a" where
  "found r zero = (case r of Found v \<Rightarrow> v | _ \<Rightarrow> zero)"

definition present :: "'a json_result \<Rightarrow> bool" where
  "present r = (case r of Found v \<Rightarrow> True | _ \<Rightarrow> False)"

definition unhex :: "char \<Rightarrow> u8" where
  "unhex c =
     (let n = chr_code c
      in if 48 \<le> n \<and> n \<le> 57 then of_nat (n - 48)
         else if 65 \<le> n \<and> n \<le> 70 then of_nat (n - 65 + 10)
         else if 97 \<le> n \<and> n \<le> 102 then of_nat (n - 97 + 10) else 0)"

fun hex_bytes :: "string \<Rightarrow> u8 list" where
  "hex_bytes (hi # lo # r) = (push_bit 4 (unhex hi) OR unhex lo) # hex_bytes r"
| "hex_bytes _ = []"

text \<open>The decoded bytes at the start of a zeroed array of \<open>n\<close> bytes.\<close>

definition hex_array :: "nat \<Rightarrow> string \<Rightarrow> u8 list" where
  "hex_array n hex = take n (hex_bytes hex @ replicate n 0)"

definition decode_slot :: "string \<Rightarrow> nat \<Rightarrow> rx_pt" where
  "decode_slot line s =
     \<lparr>pt_count = found (json_get_int line (slot_key s CHR ''c'')) 0,
      pt_payload_len = to_int32 (found (json_get_int line (slot_key s CHR ''l'')) 0),
      pt_payload = (case json_get_string line (slot_key s CHR ''p'') (SSO_RX_PT_PAYLOAD_MAX * 2 + 1) of
                      (r, hex) \<Rightarrow> hex_array SSO_RX_PT_PAYLOAD_MAX (if r > 0 then hex else [])),
      pt_summary = snd (json_get_string line (slot_key s CHR ''s'') SSO_RX_PT_SUMMARY_MAX)\<rparr>"

text \<open>The getters whose success marks the event as carrying a state snapshot.\<close>

definition decode_has_state :: "string \<Rightarrow> bool" where
  "decode_has_state line \<longleftrightarrow>
     list_ex (\<lambda>(key, n). fst (json_get_string line key n) > 0)
       [(''sat'', 64), (''source'', 16), (''rx_status'', 160), (''tx_status'', 160), (''tle_path'', 256), (''idesg'', 9)] \<or>
     list_ex (\<lambda>key. present (json_get_double line key))
       [''az'', ''el'', ''doppler'', ''target_az'', ''target_el'', ''jul'', ''ep_min'', ''mv'', ''ma0'', ''ma30'', ''max_el'',
        ''p_az'', ''p_el'', ''alt'', ''lat'', ''lon'', ''spd'', ''rng'', ''rrate''] \<or>
     present (json_get_int line ''freq'') \<or> fst (json_get_raw line ''roster'' 1024) > 0"

definition decode_csp :: "string \<Rightarrow> csp_v1_header" where
  "decode_csp line =
     (let b = (\<lambda>key. word_of_int (found (json_get_int line key) 0))
      in \<lparr>prio = b ''tx_prio'', src = b ''tx_src'', dst = b ''tx_dst'', dport = b ''tx_dp'', sport = b ''tx_sp'', flags = 0\<rparr>)"

text \<open>The ribbon of \<open>-\<close> and \<open>.\<close> characters and how many of them count.\<close>

definition decode_ribbon :: "string \<Rightarrow> int \<times> string" where
  "decode_ribbon line =
     (case json_get_string line ''rx_rb'' (SSO_RIBBON_MAX + 1) of
        (r, rb) \<Rightarrow> (if r > 0 then int (min (length rb) SSO_RIBBON_MAX) else 0, rb))"

definition sso_event_decode :: "string \<Rightarrow> ipc_event option" where
  "sso_event_decode line =
     (let str = (\<lambda>key n. snd (json_get_string line key n));
          dbl = (\<lambda>key. found (json_get_double line key) 0);
          lng = (\<lambda>key. found (json_get_int line key) 0);
          flg = (\<lambda>key. found (json_get_bool line key) False);
          t = json_get_string line ''t'' 32
      in if fst t \<le> 0 then None
         else Some
           \<lparr>ev_type = sso_event_type_from_name (snd t), ev_ts = str ''ts'' 40, ev_from = str ''from'' 64,
            ev_ascii = str ''ascii'' 256, ev_tx_payload_kind = str ''tx_kind'' 8, ev_tx_payload = str ''tx_pl'' 256,
            ev_tx_csp = decode_csp line, ev_tx_freq_hz = lng ''tx_freq'', ev_tx_gain_db = dbl ''tx_gain'',
            ev_tx_allow_tx = flg ''tx_allow'', ev_tx_repeat = to_int32 (lng ''tx_rep''), ev_tx_gap_ms = to_int32 (lng ''tx_gap''),
            ev_tx_not_sent_reason = str ''tx_st'' 24, ev_tx_origin = str ''tx_org'' 16,
            ev_role = str ''role'' 16, ev_user = str ''user'' 64, ev_operator_user = str ''operator'' 64, ev_prev = str ''prev'' 64,
            ev_new_user = str ''new'' 64, ev_by = str ''by'' 64, ev_to = str ''to'' 64, ev_forced = flg ''forced'',
            ev_reason = str ''reason'' 32, ev_pass_folder = str ''pass_folder'' 256,
            ev_has_state = decode_has_state line, ev_satellite = str ''sat'' 64, ev_source = str ''source'' 16,
            ev_az = dbl ''az'', ev_el = dbl ''el'', ev_freq_hz = lng ''freq'', ev_doppler_hz = dbl ''doppler'',
            ev_rx_status = str ''rx_status'' 160, ev_tx_status = str ''tx_status'' 160,
            ev_roster_json = snd (json_get_raw line ''roster'' 1024), ev_tle_path = str ''tle_path'' 256,
            ev_target_az = dbl ''target_az'', ev_target_el = dbl ''target_el'', ev_flip = flg ''flip'', ev_in_pass = flg ''in_pass'',
            ev_tracking = flg ''tracking'', ev_has_rotator = flg ''has_rot'', ev_jul_utc = dbl ''jul'', ev_idesg = str ''idesg'' 9,
            ev_epoch_min = dbl ''ep_min'', ev_min_visible = dbl ''mv'', ev_min_above_0 = dbl ''ma0'', ev_min_above_30 = dbl ''ma30'',
            ev_max_el = dbl ''max_el'', ev_pred_az = dbl ''p_az'', ev_pred_el = dbl ''p_el'', ev_alt_km = dbl ''alt'',
            ev_lat_deg = dbl ''lat'', ev_lon_deg = dbl ''lon'', ev_speed_kms = dbl ''spd'', ev_range_km = dbl ''rng'',
            ev_range_rate_kms = dbl ''rrate'', ev_auto_tcmd_on = flg ''at_on'', ev_auto_tcmd_sent = to_int32 (lng ''at_sent''),
            ev_auto_tcmd_total = to_int32 (lng ''at_tot''), ev_auto_tcmd_state = str ''at_st'' 12,
            ev_snr_db = dbl ''snr_db'', ev_packets = lng ''packets'', ev_last_packet_ts = str ''last_packet_ts'' 40,
            ev_last_packet_summary = str ''last_packet_summary'' 160, ev_tx_allow_high_power = flg ''tx_hp'',
            ev_tx_allow_hf_tx = flg ''tx_hf'', ev_cmd_text = str ''cmd_text'' 160, ev_cmd_status = str ''cmd_status'' 160,
            ev_rx_have_session = flg ''rx_has'', ev_rx_rec_active = flg ''rx_rec'', ev_rx_freq_hz = dbl ''rx_fhz'',
            ev_rx_peak_dbfs = dbl ''rx_pk'', ev_rx_rms_dbfs = dbl ''rx_rm'', ev_rx_frames_total = lng ''rx_fr'',
            ev_rx_frames_pcm = lng ''rx_fr_pcm'', ev_rx_frames_vit = lng ''rx_fr_vt'',
            ev_rx_last_frame_summary = str ''rx_lf'' 80, ev_rx_age_s = found (json_get_double line ''rx_age'') (-1),
            ev_rx_pt = map (decode_slot line) [0..<SSO_RX_PT_SLOTS], ev_rx_ribbon_n = fst (decode_ribbon line),
            ev_rx_ribbon = snd (decode_ribbon line),
            ev_rx_ribbon_peak = (case json_get_string line ''rx_rb_p'' (SSO_RIBBON_MAX * 2 + 1) of
              (r, hex) \<Rightarrow> hex_array SSO_RIBBON_MAX (if r > 0 then hex else [])),
            ev_rx_warning = str ''rx_warn'' 80, ev_audio_enable = flg ''enable'', ev_audio_quality = dbl ''q'',
            ev_audio_state = str ''state'' 16, ev_audio_seq = to_int32 (lng ''seq''), ev_audio_start = flg ''start'',
            ev_audio_sr = to_int32 (lng ''sr''), ev_audio_ch = to_int32 (lng ''ch''),
            ev_audio_b64 = str ''data'' SSO_AUDIO_B64_MAX\<rparr>)"

section \<open>Where each key is\<close>

lemma jlookup_None: "key \<notin> fst ` set fs \<Longrightarrow> jlookup fs key = None"
  by (auto simp: map_of_eq_None_iff visible_def)

definition keys_in :: "string list \<Rightarrow> (string \<times> jval) list \<Rightarrow> bool" where
  "keys_in ks fs = list_all (\<lambda>f. fst f \<in> set ks) fs"

lemma keys_in_None: "keys_in ks fs \<Longrightarrow> key \<notin> set ks \<Longrightarrow> jlookup fs key = None"
  by (rule jlookup_None) (auto simp: keys_in_def list_all_iff)

text \<open>In parts with disjoint keys, a key is found in its own part.\<close>

lemma jlookup_blocks:
  assumes "distinct (concat (map fst bs))" "list_all (\<lambda>(ks, fs). keys_in ks fs) bs"
    "(ks, fs) \<in> set bs" "key \<in> set ks"
  shows "jlookup (concat (map snd bs)) key = jlookup fs key"
  using assms
proof (induction bs)
  case (Cons b bs)
  obtain ks' fs' where b: "b = (ks', fs')" by (cases b)
  have sub: "keys_in ks' fs'" and all: "list_all (\<lambda>(ks, fs). keys_in ks fs) bs"
    and dj: "set ks' \<inter> set (concat (map fst bs)) = {}"
    using Cons.prems(1,2) by (simp_all add: b)
  have "keys_in (concat (map fst bs)) (concat (map snd bs))"
    using all by (auto simp: keys_in_def list_all_iff case_prod_beta)
  then have rest: "jlookup (concat (map snd bs)) key = None" if "key \<in> set ks'"
    using dj that by (intro keys_in_None) blast+
  show ?case
  proof (cases "(ks, fs) = b")
    case True
    then show ?thesis using rest Cons.prems(4) by (simp add: b split: option.split)
  next
    case False
    then have m: "(ks, fs) \<in> set bs" using Cons.prems(3) by simp
    then have "key \<in> set (concat (map fst bs))" using Cons.prems(4) by force
    then have "jlookup fs' key = None" using dj sub by (intro keys_in_None) blast+
    then show ?thesis using Cons.IH m Cons.prems all by (simp add: b)
  qed
qed simp

lemma type_name_ne: "sso_event_type_name ty \<noteq> []"
  by (cases ty) (simp_all add: sso_event_type_name_def g_event_types_def)

definition header_keys :: "string list" where
  "header_keys = [''t'', ''ts'', ''from'', ''role'', ''user'', ''operator'', ''prev'', ''new'', ''by'', ''to'', ''forced'', ''reason'', ''pass_folder'']"

definition state_keys :: "string list" where
  "state_keys = [''sat'', ''source'', ''az'', ''el'', ''freq'', ''doppler'', ''rx_status'', ''tx_status'', ''tle_path'', ''target_az'', ''target_el'', ''flip'', ''in_pass'', ''tracking'', ''jul'', ''has_rot'']"

definition predict_keys :: "string list" where
  "predict_keys = [''idesg'', ''ep_min'', ''mv'', ''ma0'', ''ma30'', ''max_el'', ''p_az'', ''p_el'', ''alt'', ''lat'', ''lon'', ''spd'', ''rng'', ''rrate'', ''roster'']"

definition auto_keys :: "string list" where
  "auto_keys = [''at_on'', ''at_sent'', ''at_tot'', ''at_st'', ''rx_warn'']"

definition rx_keys :: "string list" where
  "rx_keys = [''rx_has'', ''rx_rec'', ''rx_fhz'', ''rx_pk'', ''rx_rm'', ''rx_fr'', ''rx_fr_pcm'', ''rx_fr_vt'', ''rx_lf'', ''rx_age'']"

definition ribbon_keys :: "string list" where
  "ribbon_keys = [''rx_rb'', ''rx_rb_p'']"

definition stats_keys :: "string list" where
  "stats_keys = [''snr_db'', ''packets'', ''last_packet_ts'', ''last_packet_summary'']"

definition tx_keys :: "string list" where
  "tx_keys = [''ascii'', ''tx_kind'', ''tx_pl'', ''tx_src'', ''tx_dst'', ''tx_dp'', ''tx_sp'', ''tx_prio'', ''tx_freq'', ''tx_gain'', ''tx_allow'', ''tx_hp'', ''tx_hf'', ''tx_rep'', ''tx_gap'', ''tx_st'', ''tx_org'']"

definition cmd_keys :: "string list" where
  "cmd_keys = [''cmd_text'', ''cmd_status'']"

definition audio_keys :: "string list" where
  "audio_keys = [''enable'', ''q'', ''state'', ''seq'', ''start'', ''data'', ''sr'', ''ch'']"

definition slot_keys :: "string list" where
  "slot_keys = concat (map (\<lambda>s. map (slot_key s) ''clps'') [0..<SSO_RX_PT_SLOTS])"

text \<open>The parts of the encoding with the keys each may write; no key belongs to two parts.\<close>

definition event_blocks :: "ipc_event \<Rightarrow> (string list \<times> (string \<times> jval) list) list" where
  "event_blocks e =
     [(header_keys, header_fields e),
      (state_keys, given (ev_has_state e) (state_fields e)),
      (predict_keys, given (ev_has_state e) (predict_fields e)),
      (auto_keys, given (ev_has_state e) (auto_fields e)),
      (rx_keys, given (ev_has_state e \<and> ev_rx_have_session e) (rx_fields e)),
      (slot_keys, given (ev_has_state e \<and> ev_rx_have_session e) (slots_fields (ev_rx_pt e))),
      (ribbon_keys, given (ev_has_state e \<and> ev_rx_have_session e) (ribbon_fields e)),
      (stats_keys, stats_fields e),
      (tx_keys, given (carries_tx (ev_type e)) (tx_fields e)),
      (cmd_keys, cmd_fields e),
      (audio_keys, audio_fields e)]"

lemma event_fields_blocks: "event_fields e = concat (map snd (event_blocks e))"
  by (simp add: event_fields_def event_blocks_def)

lemma event_keys_distinct: "distinct (concat (map fst (event_blocks e)))"
proof -
  have "distinct (header_keys @ state_keys @ predict_keys @ auto_keys @ rx_keys @ slot_keys @ ribbon_keys @ stats_keys @ tx_keys @ cmd_keys @ audio_keys)" by code_simp
  then show ?thesis by (simp add: event_blocks_def)
qed

lemma keys_in_given: "keys_in ks (given c fs) \<longleftrightarrow> (c \<longrightarrow> keys_in ks fs)"
  by (simp add: keys_in_def)

lemma keys_in_simps:
  "keys_in ks []" "keys_in ks (f # fs) \<longleftrightarrow> fst f \<in> set ks \<and> keys_in ks fs" "keys_in ks (fs @ gs) \<longleftrightarrow> keys_in ks fs \<and> keys_in ks gs"
  by (simp_all add: keys_in_def)

lemma slots_in: "keys_in slot_keys (slots_fields pts)"
  by (auto simp: keys_in_def list_all_iff slots_fields_def slot_fields_def slot_keys_def split: if_splits)

lemma block_in:
  "keys_in header_keys (header_fields e)"
  "keys_in state_keys (state_fields e)"
  "keys_in predict_keys (predict_fields e)"
  "keys_in auto_keys (auto_fields e)"
  "keys_in rx_keys (rx_fields e)"
  "keys_in ribbon_keys (ribbon_fields e)"
  "keys_in stats_keys (stats_fields e)"
  "keys_in tx_keys (tx_fields e)"
  "keys_in cmd_keys (cmd_fields e)"
  "keys_in audio_keys (audio_fields e)"
  by (simp_all add: keys_in_simps keys_in_given header_fields_def state_fields_def predict_fields_def auto_fields_def rx_fields_def ribbon_fields_def stats_fields_def tx_fields_def cmd_fields_def audio_fields_def rate_fields_def
      header_keys_def state_keys_def predict_keys_def auto_keys_def rx_keys_def ribbon_keys_def stats_keys_def tx_keys_def cmd_keys_def audio_keys_def)

lemma event_block_keys: "list_all (\<lambda>(ks, fs). keys_in ks fs) (event_blocks e)"
  by (simp add: event_blocks_def block_in slots_in keys_in_given)

lemma jlookup_event: "(ks, fs) \<in> set (event_blocks e) \<Longrightarrow> key \<in> set ks \<Longrightarrow> jlookup (event_fields e) key = jlookup fs key"
  unfolding event_fields_blocks
  by (rule jlookup_blocks [OF event_keys_distinct event_block_keys])

lemma key_block:
  "key \<in> set header_keys \<Longrightarrow> jlookup (event_fields e) key = jlookup (header_fields e) key"
  "key \<in> set state_keys \<Longrightarrow> jlookup (event_fields e) key = jlookup (given (ev_has_state e) (state_fields e)) key"
  "key \<in> set predict_keys \<Longrightarrow> jlookup (event_fields e) key = jlookup (given (ev_has_state e) (predict_fields e)) key"
  "key \<in> set auto_keys \<Longrightarrow> jlookup (event_fields e) key = jlookup (given (ev_has_state e) (auto_fields e)) key"
  "key \<in> set rx_keys \<Longrightarrow> jlookup (event_fields e) key = jlookup (given (ev_has_state e \<and> ev_rx_have_session e) (rx_fields e)) key"
  "key \<in> set slot_keys \<Longrightarrow> jlookup (event_fields e) key = jlookup (given (ev_has_state e \<and> ev_rx_have_session e) (slots_fields (ev_rx_pt e))) key"
  "key \<in> set ribbon_keys \<Longrightarrow> jlookup (event_fields e) key = jlookup (given (ev_has_state e \<and> ev_rx_have_session e) (ribbon_fields e)) key"
  "key \<in> set stats_keys \<Longrightarrow> jlookup (event_fields e) key = jlookup (stats_fields e) key"
  "key \<in> set tx_keys \<Longrightarrow> jlookup (event_fields e) key = jlookup (given (carries_tx (ev_type e)) (tx_fields e)) key"
  "key \<in> set cmd_keys \<Longrightarrow> jlookup (event_fields e) key = jlookup (cmd_fields e) key"
  "key \<in> set audio_keys \<Longrightarrow> jlookup (event_fields e) key = jlookup (audio_fields e) key"
  by (erule jlookup_event [rotated], simp add: event_blocks_def)+

lemma header_lookup:
  "jlookup (event_fields e) ''t'' = Some (JStr (sso_event_type_name (ev_type e)))"
  "jlookup (event_fields e) ''ts'' = (if ev_ts e \<noteq> [] then Some (JStr (ev_ts e)) else None)"
  "jlookup (event_fields e) ''from'' = (if ev_from e \<noteq> [] then Some (JStr (ev_from e)) else None)"
  "jlookup (event_fields e) ''role'' = (if ev_role e \<noteq> [] then Some (JStr (ev_role e)) else None)"
  "jlookup (event_fields e) ''user'' = (if ev_user e \<noteq> [] then Some (JStr (ev_user e)) else None)"
  "jlookup (event_fields e) ''operator'' = (if ev_operator_user e \<noteq> [] then Some (JStr (ev_operator_user e)) else None)"
  "jlookup (event_fields e) ''prev'' = (if ev_prev e \<noteq> [] then Some (JStr (ev_prev e)) else None)"
  "jlookup (event_fields e) ''new'' = (if ev_new_user e \<noteq> [] then Some (JStr (ev_new_user e)) else None)"
  "jlookup (event_fields e) ''by'' = (if ev_by e \<noteq> [] then Some (JStr (ev_by e)) else None)"
  "jlookup (event_fields e) ''to'' = (if ev_to e \<noteq> [] then Some (JStr (ev_to e)) else None)"
  "jlookup (event_fields e) ''forced'' = (if ev_forced e then Some (JBool True) else None)"
  "jlookup (event_fields e) ''reason'' = (if ev_reason e \<noteq> [] then Some (JStr (ev_reason e)) else None)"
  "jlookup (event_fields e) ''pass_folder'' = (if ev_pass_folder e \<noteq> [] then Some (JStr (ev_pass_folder e)) else None)"
  by (simp_all add: key_block(1) header_keys_def header_fields_def type_name_ne cong: if_cong)

lemma state_lookup:
  "jlookup (event_fields e) ''sat'' = (if ev_has_state e \<and> ev_satellite e \<noteq> [] then Some (JStr (ev_satellite e)) else None)"
  "jlookup (event_fields e) ''source'' = (if ev_has_state e \<and> ev_source e \<noteq> [] then Some (JStr (ev_source e)) else None)"
  "jlookup (event_fields e) ''az'' = (if ev_has_state e then Some (JDouble (ev_az e)) else None)"
  "jlookup (event_fields e) ''el'' = (if ev_has_state e then Some (JDouble (ev_el e)) else None)"
  "jlookup (event_fields e) ''freq'' = (if ev_has_state e \<and> ev_freq_hz e \<noteq> 0 then Some (JInt (ev_freq_hz e)) else None)"
  "jlookup (event_fields e) ''doppler'' = (if ev_has_state e \<and> ev_doppler_hz e \<noteq> 0 then Some (JDouble (ev_doppler_hz e)) else None)"
  "jlookup (event_fields e) ''rx_status'' = (if ev_has_state e \<and> ev_rx_status e \<noteq> [] then Some (JStr (ev_rx_status e)) else None)"
  "jlookup (event_fields e) ''tx_status'' = (if ev_has_state e \<and> ev_tx_status e \<noteq> [] then Some (JStr (ev_tx_status e)) else None)"
  "jlookup (event_fields e) ''tle_path'' = (if ev_has_state e \<and> ev_tle_path e \<noteq> [] then Some (JStr (ev_tle_path e)) else None)"
  "jlookup (event_fields e) ''target_az'' = (if ev_has_state e then Some (JDouble (ev_target_az e)) else None)"
  "jlookup (event_fields e) ''target_el'' = (if ev_has_state e then Some (JDouble (ev_target_el e)) else None)"
  "jlookup (event_fields e) ''flip'' = (if ev_has_state e \<and> ev_flip e then Some (JBool True) else None)"
  "jlookup (event_fields e) ''in_pass'' = (if ev_has_state e \<and> ev_in_pass e then Some (JBool True) else None)"
  "jlookup (event_fields e) ''tracking'' = (if ev_has_state e \<and> ev_tracking e then Some (JBool True) else None)"
  "jlookup (event_fields e) ''jul'' = (if ev_has_state e \<and> ev_jul_utc e \<noteq> 0 then Some (JDouble (ev_jul_utc e)) else None)"
  "jlookup (event_fields e) ''has_rot'' = (if ev_has_state e \<and> ev_has_rotator e then Some (JBool True) else None)"
  by (simp_all add: key_block(2) state_keys_def state_fields_def cong: if_cong)

lemma predict_lookup:
  "jlookup (event_fields e) ''idesg'' = (if ev_has_state e \<and> ev_idesg e \<noteq> [] then Some (JStr (ev_idesg e)) else None)"
  "jlookup (event_fields e) ''ep_min'' = (if ev_has_state e then Some (JDouble (ev_epoch_min e)) else None)"
  "jlookup (event_fields e) ''mv'' = (if ev_has_state e then Some (JDouble (ev_min_visible e)) else None)"
  "jlookup (event_fields e) ''ma0'' = (if ev_has_state e then Some (JDouble (ev_min_above_0 e)) else None)"
  "jlookup (event_fields e) ''ma30'' = (if ev_has_state e then Some (JDouble (ev_min_above_30 e)) else None)"
  "jlookup (event_fields e) ''max_el'' = (if ev_has_state e then Some (JDouble (ev_max_el e)) else None)"
  "jlookup (event_fields e) ''p_az'' = (if ev_has_state e then Some (JDouble (ev_pred_az e)) else None)"
  "jlookup (event_fields e) ''p_el'' = (if ev_has_state e then Some (JDouble (ev_pred_el e)) else None)"
  "jlookup (event_fields e) ''alt'' = (if ev_has_state e then Some (JDouble (ev_alt_km e)) else None)"
  "jlookup (event_fields e) ''lat'' = (if ev_has_state e then Some (JDouble (ev_lat_deg e)) else None)"
  "jlookup (event_fields e) ''lon'' = (if ev_has_state e then Some (JDouble (ev_lon_deg e)) else None)"
  "jlookup (event_fields e) ''spd'' = (if ev_has_state e then Some (JDouble (ev_speed_kms e)) else None)"
  "jlookup (event_fields e) ''rng'' = (if ev_has_state e then Some (JDouble (ev_range_km e)) else None)"
  "jlookup (event_fields e) ''rrate'' = (if ev_has_state e then Some (JDouble (ev_range_rate_kms e)) else None)"
  "jlookup (event_fields e) ''roster'' = (if ev_has_state e \<and> ev_roster_json e \<noteq> [] then Some (JRaw (ev_roster_json e)) else None)"
  by (simp_all add: key_block(3) predict_keys_def predict_fields_def cong: if_cong)

lemma auto_lookup:
  "jlookup (event_fields e) ''at_on'' = (if ev_has_state e \<and> ev_auto_tcmd_on e then Some (JBool True) else None)"
  "jlookup (event_fields e) ''at_sent'' = (if ev_has_state e \<and> ev_auto_tcmd_on e then Some (JInt (ev_auto_tcmd_sent e)) else None)"
  "jlookup (event_fields e) ''at_tot'' = (if ev_has_state e \<and> ev_auto_tcmd_on e then Some (JInt (ev_auto_tcmd_total e)) else None)"
  "jlookup (event_fields e) ''at_st'' = (if ev_has_state e \<and> ev_auto_tcmd_on e \<and> ev_auto_tcmd_state e \<noteq> [] then Some (JStr (ev_auto_tcmd_state e)) else None)"
  "jlookup (event_fields e) ''rx_warn'' = (if ev_has_state e \<and> ev_rx_warning e \<noteq> [] then Some (JStr (ev_rx_warning e)) else None)"
  by (simp_all add: key_block(4) auto_keys_def auto_fields_def cong: if_cong)

lemma rx_lookup:
  "jlookup (event_fields e) ''rx_has'' = (if ev_has_state e \<and> ev_rx_have_session e then Some (JBool True) else None)"
  "jlookup (event_fields e) ''rx_rec'' = (if ev_has_state e \<and> ev_rx_have_session e \<and> ev_rx_rec_active e then Some (JBool True) else None)"
  "jlookup (event_fields e) ''rx_fhz'' = (if ev_has_state e \<and> ev_rx_have_session e then Some (JDouble (ev_rx_freq_hz e)) else None)"
  "jlookup (event_fields e) ''rx_pk'' = (if ev_has_state e \<and> ev_rx_have_session e then Some (JDouble (ev_rx_peak_dbfs e)) else None)"
  "jlookup (event_fields e) ''rx_rm'' = (if ev_has_state e \<and> ev_rx_have_session e then Some (JDouble (ev_rx_rms_dbfs e)) else None)"
  "jlookup (event_fields e) ''rx_fr'' = (if ev_has_state e \<and> ev_rx_have_session e then Some (JInt (ev_rx_frames_total e)) else None)"
  "jlookup (event_fields e) ''rx_fr_pcm'' = (if ev_has_state e \<and> ev_rx_have_session e \<and> ev_rx_frames_pcm e \<noteq> 0 then Some (JInt (ev_rx_frames_pcm e)) else None)"
  "jlookup (event_fields e) ''rx_fr_vt'' = (if ev_has_state e \<and> ev_rx_have_session e \<and> ev_rx_frames_vit e \<noteq> 0 then Some (JInt (ev_rx_frames_vit e)) else None)"
  "jlookup (event_fields e) ''rx_lf'' = (if ev_has_state e \<and> ev_rx_have_session e \<and> ev_rx_last_frame_summary e \<noteq> [] then Some (JStr (ev_rx_last_frame_summary e)) else None)"
  "jlookup (event_fields e) ''rx_age'' = (if ev_has_state e \<and> ev_rx_have_session e \<and> ev_rx_age_s e \<ge> 0 then Some (JDouble (ev_rx_age_s e)) else None)"
  by (simp_all add: key_block(5) rx_keys_def rx_fields_def cong: if_cong)

lemma ribbon_lookup:
  "jlookup (event_fields e) ''rx_rb'' = (if ev_has_state e \<and> ev_rx_have_session e \<and> ev_rx_ribbon_n e > 0 \<and> ev_rx_ribbon e \<noteq> [] then Some (JStr (ev_rx_ribbon e)) else None)"
  "jlookup (event_fields e) ''rx_rb_p'' = (if ev_has_state e \<and> ev_rx_have_session e \<and> ev_rx_ribbon_n e > 0 \<and> hex_upper (take (nat (ev_rx_ribbon_n e)) (ev_rx_ribbon_peak e)) \<noteq> []
     then Some (JStr (hex_upper (take (nat (ev_rx_ribbon_n e)) (ev_rx_ribbon_peak e)))) else None)"
  by (simp_all add: key_block(7) ribbon_keys_def ribbon_fields_def cong: if_cong)

lemma stats_lookup:
  "jlookup (event_fields e) ''snr_db'' = (if ev_type e = SSO_EVT_RX_STATS then Some (JDouble (ev_snr_db e)) else None)"
  "jlookup (event_fields e) ''packets'' = (if ev_type e = SSO_EVT_RX_STATS then Some (JInt (ev_packets e)) else None)"
  "jlookup (event_fields e) ''last_packet_ts'' = (if ev_type e = SSO_EVT_RX_STATS \<and> ev_last_packet_ts e \<noteq> [] then Some (JStr (ev_last_packet_ts e)) else None)"
  "jlookup (event_fields e) ''last_packet_summary'' = (if ev_type e = SSO_EVT_RX_STATS \<and> ev_last_packet_summary e \<noteq> [] then Some (JStr (ev_last_packet_summary e)) else None)"
  by (simp_all add: key_block(8) stats_keys_def stats_fields_def cong: if_cong)

lemma tx_lookup:
  "jlookup (event_fields e) ''ascii'' = (if carries_tx (ev_type e) \<and> ev_ascii e \<noteq> [] then Some (JStr (ev_ascii e)) else None)"
  "jlookup (event_fields e) ''tx_kind'' = (if carries_tx (ev_type e) \<and> ev_tx_payload_kind e \<noteq> [] then Some (JStr (ev_tx_payload_kind e)) else None)"
  "jlookup (event_fields e) ''tx_pl'' = (if carries_tx (ev_type e) \<and> ev_tx_payload e \<noteq> [] then Some (JStr (ev_tx_payload e)) else None)"
  "jlookup (event_fields e) ''tx_src'' = (if carries_tx (ev_type e) \<and> src (ev_tx_csp e) \<noteq> 0 then Some (JInt (csp_int (src (ev_tx_csp e)))) else None)"
  "jlookup (event_fields e) ''tx_dst'' = (if carries_tx (ev_type e) \<and> dst (ev_tx_csp e) \<noteq> 0 then Some (JInt (csp_int (dst (ev_tx_csp e)))) else None)"
  "jlookup (event_fields e) ''tx_dp'' = (if carries_tx (ev_type e) \<and> dport (ev_tx_csp e) \<noteq> 0 then Some (JInt (csp_int (dport (ev_tx_csp e)))) else None)"
  "jlookup (event_fields e) ''tx_sp'' = (if carries_tx (ev_type e) \<and> sport (ev_tx_csp e) \<noteq> 0 then Some (JInt (csp_int (sport (ev_tx_csp e)))) else None)"
  "jlookup (event_fields e) ''tx_prio'' = (if carries_tx (ev_type e) \<and> prio (ev_tx_csp e) \<noteq> 0 then Some (JInt (csp_int (prio (ev_tx_csp e)))) else None)"
  "jlookup (event_fields e) ''tx_freq'' = (if carries_tx (ev_type e) \<and> ev_tx_freq_hz e \<noteq> 0 then Some (JInt (ev_tx_freq_hz e)) else None)"
  "jlookup (event_fields e) ''tx_gain'' = (if carries_tx (ev_type e) \<and> ev_tx_gain_db e \<noteq> 0 then Some (JDouble (ev_tx_gain_db e)) else None)"
  "jlookup (event_fields e) ''tx_allow'' = (if carries_tx (ev_type e) \<and> ev_tx_allow_tx e then Some (JBool True) else None)"
  "jlookup (event_fields e) ''tx_hp'' = (if carries_tx (ev_type e) \<and> ev_tx_allow_high_power e then Some (JBool True) else None)"
  "jlookup (event_fields e) ''tx_hf'' = (if carries_tx (ev_type e) \<and> ev_tx_allow_hf_tx e then Some (JBool True) else None)"
  "jlookup (event_fields e) ''tx_rep'' = (if carries_tx (ev_type e) \<and> ev_tx_repeat e \<noteq> 0 then Some (JInt (ev_tx_repeat e)) else None)"
  "jlookup (event_fields e) ''tx_gap'' = (if carries_tx (ev_type e) \<and> ev_tx_gap_ms e \<noteq> 0 then Some (JInt (ev_tx_gap_ms e)) else None)"
  "jlookup (event_fields e) ''tx_st'' = (if carries_tx (ev_type e) \<and> ev_tx_not_sent_reason e \<noteq> [] then Some (JStr (ev_tx_not_sent_reason e)) else None)"
  "jlookup (event_fields e) ''tx_org'' = (if carries_tx (ev_type e) \<and> ev_tx_origin e \<noteq> [] then Some (JStr (ev_tx_origin e)) else None)"
  by (simp_all add: key_block(9) tx_keys_def tx_fields_def cong: if_cong)

lemma cmd_lookup:
  "jlookup (event_fields e) ''cmd_text'' = (if (ev_type e = SSO_EVT_CMD_PREVIEW \<or> ev_type e = SSO_EVT_CMD_EXECUTED) \<and> ev_cmd_text e \<noteq> [] then Some (JStr (ev_cmd_text e)) else None)"
  "jlookup (event_fields e) ''cmd_status'' = (if (ev_type e = SSO_EVT_CMD_PREVIEW \<or> ev_type e = SSO_EVT_CMD_EXECUTED) \<and> ev_cmd_status e \<noteq> [] then Some (JStr (ev_cmd_status e)) else None)"
  by (simp_all add: key_block(10) cmd_keys_def cmd_fields_def cong: if_cong)

lemma audio_lookup:
  "jlookup (event_fields e) ''enable'' = (if ev_type e = SSO_EVT_AUDIO_CTL then Some (JBool (ev_audio_enable e)) else None)"
  "jlookup (event_fields e) ''q'' = (if ev_type e = SSO_EVT_AUDIO_CTL \<and> ev_audio_quality e > 0 then Some (JDouble (ev_audio_quality e)) else None)"
  "jlookup (event_fields e) ''state'' = (if ev_type e = SSO_EVT_AUDIO_STATUS \<and> ev_audio_state e \<noteq> [] then Some (JStr (ev_audio_state e)) else None)"
  "jlookup (event_fields e) ''seq'' = (if ev_type e = SSO_EVT_AUDIO then Some (JInt (ev_audio_seq e)) else None)"
  "jlookup (event_fields e) ''start'' = (if ev_type e = SSO_EVT_AUDIO \<and> ev_audio_start e then Some (JBool True) else None)"
  "jlookup (event_fields e) ''data'' = (if ev_type e = SSO_EVT_AUDIO \<and> ev_audio_b64 e \<noteq> [] then Some (JStr (ev_audio_b64 e)) else None)"
  "jlookup (event_fields e) ''sr'' = (if (ev_type e = SSO_EVT_AUDIO_STATUS \<or> ev_type e = SSO_EVT_AUDIO \<and> ev_audio_start e) \<and> ev_audio_sr e \<noteq> 0 then Some (JInt (ev_audio_sr e)) else None)"
  "jlookup (event_fields e) ''ch'' = (if (ev_type e = SSO_EVT_AUDIO_STATUS \<or> ev_type e = SSO_EVT_AUDIO \<and> ev_audio_start e) \<and> ev_audio_ch e \<noteq> 0 then Some (JInt (ev_audio_ch e)) else None)"
  by (simp_all add: key_block(11) audio_keys_def audio_fields_def rate_fields_def cong: if_cong)

lemma slot_char: "s < 6 \<Longrightarrow> slot_key s c = ''rx_pt'' @ [char_of (48 + s), CHR ''_'', c]"
  by (simp add: slot_key_def snprintf_def show_nat.simps [of s] digit_char_def)

lemma slot_lookup:
  assumes "s < 6" "c \<in> set ''clps''"
  shows "jlookup (event_fields e) (slot_key s c) =
    (if ev_has_state e \<and> ev_rx_have_session e then jlookup (slot_fields s (ev_rx_pt e ! s)) (slot_key s c) else None)"
proof -
  let ?bs = "map (\<lambda>s. (map (slot_key s) ''clps'', slot_fields s (ev_rx_pt e ! s))) [0..<6]"
  have mem: "slot_key s c \<in> set slot_keys" using assms by (auto simp: slot_keys_def SSO_RX_PT_SLOTS_def)
  have "distinct slot_keys" using event_keys_distinct [of e] by (simp add: event_blocks_def)
  then have "distinct (concat (map fst ?bs))" by (simp add: slot_keys_def SSO_RX_PT_SLOTS_def comp_def)
  moreover have "list_all (\<lambda>(ks, fs). keys_in ks fs) ?bs"
    by (auto simp: list_all_iff keys_in_def slot_fields_def split: if_splits)
  moreover have "(map (slot_key s) ''clps'', slot_fields s (ev_rx_pt e ! s)) \<in> set ?bs" using assms(1) by auto
  moreover have "slot_key s c \<in> set (map (slot_key s) ''clps'')" using assms(2) by auto
  ultimately have "jlookup (concat (map snd ?bs)) (slot_key s c) = jlookup (slot_fields s (ev_rx_pt e ! s)) (slot_key s c)"
    by (rule jlookup_blocks)
  then show ?thesis
    using key_block(6) [OF mem, of e] by (simp add: slots_fields_def SSO_RX_PT_SLOTS_def comp_def)
qed

lemma slot_same: "s < 6 \<Longrightarrow> slot_key s c = slot_key s d \<longleftrightarrow> c = d"
  by (simp add: slot_char)

end
