(* ===== verification/IPC_Wire.thy ===== *)
theory IPC_Wire
  imports IPC_Event
begin

text \<open>
  What a viewer receives of an event that \<^verbatim>\<open>sso_event_encode\<close> wrote and \<^verbatim>\<open>sso_event_decode\<close>
  read, and when an event fits its line.
\<close>

text \<open>\<^verbatim>\<open>memset(&evt, 0, sizeof evt)\<close>: the event every sender starts from.\<close>

definition zero_rx_pt :: rx_pt where
  "zero_rx_pt = \<lparr>pt_count = 0, pt_payload_len = 0, pt_payload = replicate SSO_RX_PT_PAYLOAD_MAX 0, pt_summary = []\<rparr>"

definition zero_ipc_event :: ipc_event where
  "zero_ipc_event =
     \<lparr>ev_type = SSO_EVT_UNKNOWN, ev_ts = [], ev_from = [], ev_ascii = [], ev_tx_payload_kind = [],
      ev_tx_payload = [], ev_tx_csp = zero_csp, ev_tx_freq_hz = 0, ev_tx_gain_db = 0, ev_tx_allow_tx = False,
      ev_tx_repeat = 0, ev_tx_gap_ms = 0, ev_tx_not_sent_reason = [], ev_tx_origin = [], ev_role = [],
      ev_user = [], ev_operator_user = [], ev_prev = [], ev_new_user = [], ev_by = [], ev_to = [],
      ev_forced = False, ev_reason = [], ev_pass_folder = [], ev_has_state = False, ev_satellite = [],
      ev_source = [], ev_az = 0, ev_el = 0, ev_freq_hz = 0, ev_doppler_hz = 0, ev_rx_status = [],
      ev_tx_status = [], ev_roster_json = [], ev_tle_path = [], ev_target_az = 0, ev_target_el = 0,
      ev_flip = False, ev_in_pass = False, ev_tracking = False, ev_has_rotator = False, ev_jul_utc = 0,
      ev_idesg = [], ev_epoch_min = 0, ev_min_visible = 0, ev_min_above_0 = 0, ev_min_above_30 = 0,
      ev_max_el = 0, ev_pred_az = 0, ev_pred_el = 0, ev_alt_km = 0, ev_lat_deg = 0, ev_lon_deg = 0,
      ev_speed_kms = 0, ev_range_km = 0, ev_range_rate_kms = 0, ev_auto_tcmd_on = False, ev_auto_tcmd_sent = 0,
      ev_auto_tcmd_total = 0, ev_auto_tcmd_state = [], ev_snr_db = 0, ev_packets = 0, ev_last_packet_ts = [],
      ev_last_packet_summary = [], ev_tx_allow_high_power = False, ev_tx_allow_hf_tx = False, ev_cmd_text = [],
      ev_cmd_status = [], ev_rx_have_session = False, ev_rx_rec_active = False, ev_rx_freq_hz = 0,
      ev_rx_peak_dbfs = 0, ev_rx_rms_dbfs = 0, ev_rx_frames_total = 0, ev_rx_frames_pcm = 0,
      ev_rx_frames_vit = 0, ev_rx_last_frame_summary = [], ev_rx_age_s = 0,
      ev_rx_pt = replicate SSO_RX_PT_SLOTS zero_rx_pt, ev_rx_ribbon_n = 0, ev_rx_ribbon = [],
      ev_rx_ribbon_peak = replicate SSO_RIBBON_MAX 0, ev_rx_warning = [], ev_audio_enable = False,
      ev_audio_quality = 0, ev_audio_state = [], ev_audio_seq = 0, ev_audio_start = False, ev_audio_sr = 0,
      ev_audio_ch = 0, ev_audio_b64 = []\<rparr>"

section \<open>What arrives\<close>

abbreviation shown :: "string \<Rightarrow> string" where
  "shown s \<equiv> map demote s"

definition zero_pad :: "nat \<Rightarrow> u8 list \<Rightarrow> u8 list" where
  "zero_pad n bs = take n (bs @ replicate n 0)"

definition int32_ok :: "int \<Rightarrow> bool" where
  "int32_ok v \<longleftrightarrow> -2147483648 \<le> v \<and> v \<le> 2147483647"

definition pt_ok :: "rx_pt \<Rightarrow> bool" where
  "pt_ok pt \<longleftrightarrow> LLONG_MIN \<le> pt_count pt \<and> pt_count pt \<le> LLONG_MAX \<and> int32_ok (pt_payload_len pt) \<and>
     length (pt_payload pt) = SSO_RX_PT_PAYLOAD_MAX \<and> length (pt_summary pt) < SSO_RX_PT_SUMMARY_MAX"

definition shown_pt :: "bool \<Rightarrow> rx_pt \<Rightarrow> rx_pt" where
  "shown_pt c pt =
     (if c \<and> pt_count pt \<noteq> 0
      then \<lparr>pt_count = pt_count pt, pt_payload_len = max 0 (pt_payload_len pt),
            pt_payload = zero_pad SSO_RX_PT_PAYLOAD_MAX (take (nat (pt_payload_len pt)) (pt_payload pt)),
            pt_summary = shown (pt_summary pt)\<rparr>
      else \<lparr>pt_count = 0, pt_payload_len = 0, pt_payload = zero_pad SSO_RX_PT_PAYLOAD_MAX [], pt_summary = []\<rparr>)"

text \<open>An event as the C structure can hold it, with the roster of \<^verbatim>\<open>sso_event_set_roster\<close> or none.\<close>

definition event_ok :: "ipc_event \<Rightarrow> bool" where
  "event_ok e \<longleftrightarrow>
     list_all (\<lambda>(s, n). length s < n)
       [(ev_ts e, 40), (ev_from e, 64), (ev_role e, 16), (ev_user e, 64), (ev_operator_user e, 64), (ev_prev e, 64),
        (ev_new_user e, 64), (ev_by e, 64), (ev_to e, 64), (ev_reason e, 32), (ev_pass_folder e, 256),
        (ev_satellite e, 64), (ev_source e, 16), (ev_rx_status e, 160), (ev_tx_status e, 160), (ev_tle_path e, 256),
        (ev_idesg e, 9), (ev_roster_json e, 1024), (ev_auto_tcmd_state e, 12), (ev_rx_warning e, 80),
        (ev_rx_last_frame_summary e, 80), (ev_rx_ribbon e, 61), (ev_last_packet_ts e, 40),
        (ev_last_packet_summary e, 160), (ev_ascii e, 256), (ev_tx_payload_kind e, 8), (ev_tx_payload e, 256),
        (ev_tx_not_sent_reason e, 24), (ev_tx_origin e, 16), (ev_cmd_text e, 160), (ev_cmd_status e, 160),
        (ev_audio_state e, 16), (ev_audio_b64 e, 5465)] \<and>
     list_all (\<lambda>v. LLONG_MIN \<le> v \<and> v \<le> LLONG_MAX)
       [ev_freq_hz e, ev_rx_frames_total e, ev_rx_frames_pcm e, ev_rx_frames_vit e, ev_packets e, ev_tx_freq_hz e] \<and>
     list_all int32_ok
       [ev_auto_tcmd_sent e, ev_auto_tcmd_total e, ev_tx_repeat e, ev_tx_gap_ms e, ev_audio_seq e, ev_audio_sr e,
        ev_audio_ch e] \<and>
     raw_ok (ev_roster_json e) \<and> length (ev_rx_pt e) = SSO_RX_PT_SLOTS \<and> list_all pt_ok (ev_rx_pt e) \<and>
     0 \<le> ev_rx_ribbon_n e \<and> ev_rx_ribbon_n e \<le> int SSO_RIBBON_MAX \<and> length (ev_rx_ribbon_peak e) = SSO_RIBBON_MAX"

text \<open>
  What the receiver sees of an event: the fields its type and its flags carry, doubles at six
  digits, control characters replaced; everything else zero.
\<close>

definition received :: "ipc_event \<Rightarrow> ipc_event" where
  "received e =
     (let st = ev_has_state e; rx = (st \<and> ev_rx_have_session e); aut = (st \<and> ev_auto_tcmd_on e);
          rib = (rx \<and> ev_rx_ribbon_n e > 0);
          stats = (ev_type e = SSO_EVT_RX_STATS); tx = carries_tx (ev_type e);
          cm = (ev_type e = SSO_EVT_CMD_PREVIEW \<or> ev_type e = SSO_EVT_CMD_EXECUTED);
          ac = (ev_type e = SSO_EVT_AUDIO_CTL); au_st = (ev_type e = SSO_EVT_AUDIO_STATUS); au = (ev_type e = SSO_EVT_AUDIO);
          rate = (au_st \<or> au \<and> ev_audio_start e)
      in \<lparr>ev_type = ev_type e, ev_ts = shown (ev_ts e), ev_from = shown (ev_from e),
            ev_ascii = (if tx then shown (ev_ascii e) else []),
            ev_tx_payload_kind = (if tx then shown (ev_tx_payload_kind e) else []),
            ev_tx_payload = (if tx then shown (ev_tx_payload e) else []),
            ev_tx_csp = (if tx then (ev_tx_csp e)\<lparr>flags := 0\<rparr> else zero_csp),
            ev_tx_freq_hz = (if tx then ev_tx_freq_hz e else 0),
            ev_tx_gain_db = (if tx then g6 (ev_tx_gain_db e) else 0), ev_tx_allow_tx = (tx \<and> ev_tx_allow_tx e),
            ev_tx_repeat = (if tx then ev_tx_repeat e else 0), ev_tx_gap_ms = (if tx then ev_tx_gap_ms e else 0),
            ev_tx_not_sent_reason = (if tx then shown (ev_tx_not_sent_reason e) else []),
            ev_tx_origin = (if tx then shown (ev_tx_origin e) else []), ev_role = shown (ev_role e),
            ev_user = shown (ev_user e), ev_operator_user = shown (ev_operator_user e),
            ev_prev = shown (ev_prev e), ev_new_user = shown (ev_new_user e), ev_by = shown (ev_by e),
            ev_to = shown (ev_to e), ev_forced = ev_forced e, ev_reason = shown (ev_reason e),
            ev_pass_folder = shown (ev_pass_folder e), ev_has_state = st,
            ev_satellite = (if st then shown (ev_satellite e) else []),
            ev_source = (if st then shown (ev_source e) else []), ev_az = (if st then g6 (ev_az e) else 0),
            ev_el = (if st then g6 (ev_el e) else 0), ev_freq_hz = (if st then ev_freq_hz e else 0),
            ev_doppler_hz = (if st then g6 (ev_doppler_hz e) else 0),
            ev_rx_status = (if st then shown (ev_rx_status e) else []),
            ev_tx_status = (if st then shown (ev_tx_status e) else []),
            ev_roster_json = (if st then ev_roster_json e else []),
            ev_tle_path = (if st then shown (ev_tle_path e) else []),
            ev_target_az = (if st then g6 (ev_target_az e) else 0),
            ev_target_el = (if st then g6 (ev_target_el e) else 0), ev_flip = (st \<and> ev_flip e),
            ev_in_pass = (st \<and> ev_in_pass e), ev_tracking = (st \<and> ev_tracking e),
            ev_has_rotator = (st \<and> ev_has_rotator e), ev_jul_utc = (if st then g6 (ev_jul_utc e) else 0),
            ev_idesg = (if st then shown (ev_idesg e) else []),
            ev_epoch_min = (if st then g6 (ev_epoch_min e) else 0),
            ev_min_visible = (if st then g6 (ev_min_visible e) else 0),
            ev_min_above_0 = (if st then g6 (ev_min_above_0 e) else 0),
            ev_min_above_30 = (if st then g6 (ev_min_above_30 e) else 0),
            ev_max_el = (if st then g6 (ev_max_el e) else 0), ev_pred_az = (if st then g6 (ev_pred_az e) else 0),
            ev_pred_el = (if st then g6 (ev_pred_el e) else 0), ev_alt_km = (if st then g6 (ev_alt_km e) else 0),
            ev_lat_deg = (if st then g6 (ev_lat_deg e) else 0), ev_lon_deg = (if st then g6 (ev_lon_deg e) else 0),
            ev_speed_kms = (if st then g6 (ev_speed_kms e) else 0),
            ev_range_km = (if st then g6 (ev_range_km e) else 0),
            ev_range_rate_kms = (if st then g6 (ev_range_rate_kms e) else 0), ev_auto_tcmd_on = aut,
            ev_auto_tcmd_sent = (if aut then ev_auto_tcmd_sent e else 0),
            ev_auto_tcmd_total = (if aut then ev_auto_tcmd_total e else 0),
            ev_auto_tcmd_state = (if aut then shown (ev_auto_tcmd_state e) else []),
            ev_snr_db = (if stats then g6 (ev_snr_db e) else 0), ev_packets = (if stats then ev_packets e else 0),
            ev_last_packet_ts = (if stats then shown (ev_last_packet_ts e) else []),
            ev_last_packet_summary = (if stats then shown (ev_last_packet_summary e) else []),
            ev_tx_allow_high_power = (tx \<and> ev_tx_allow_high_power e),
            ev_tx_allow_hf_tx = (tx \<and> ev_tx_allow_hf_tx e),
            ev_cmd_text = (if cm then shown (ev_cmd_text e) else []),
            ev_cmd_status = (if cm then shown (ev_cmd_status e) else []), ev_rx_have_session = rx,
            ev_rx_rec_active = (rx \<and> ev_rx_rec_active e),
            ev_rx_freq_hz = (if rx then g6 (ev_rx_freq_hz e) else 0),
            ev_rx_peak_dbfs = (if rx then g6 (ev_rx_peak_dbfs e) else 0),
            ev_rx_rms_dbfs = (if rx then g6 (ev_rx_rms_dbfs e) else 0),
            ev_rx_frames_total = (if rx then ev_rx_frames_total e else 0),
            ev_rx_frames_pcm = (if rx then ev_rx_frames_pcm e else 0),
            ev_rx_frames_vit = (if rx then ev_rx_frames_vit e else 0),
            ev_rx_last_frame_summary = (if rx then shown (ev_rx_last_frame_summary e) else []),
            ev_rx_age_s = (if rx \<and> ev_rx_age_s e \<ge> 0 then g6 (ev_rx_age_s e) else -1),
            ev_rx_pt = (map (\<lambda>s. shown_pt rx (ev_rx_pt e ! s)) [0..<SSO_RX_PT_SLOTS]),
            ev_rx_ribbon_n = (if rib then int (length (ev_rx_ribbon e)) else 0),
            ev_rx_ribbon = (if rib then shown (ev_rx_ribbon e) else []),
            ev_rx_ribbon_peak = (zero_pad SSO_RIBBON_MAX (if rib then take (nat (ev_rx_ribbon_n e)) (ev_rx_ribbon_peak e) else [])),
            ev_rx_warning = (if st then shown (ev_rx_warning e) else []),
            ev_audio_enable = (ac \<and> ev_audio_enable e),
            ev_audio_quality = (if ac \<and> ev_audio_quality e > 0 then g6 (ev_audio_quality e) else 0),
            ev_audio_state = (if au_st then shown (ev_audio_state e) else []),
            ev_audio_seq = (if au then ev_audio_seq e else 0), ev_audio_start = (au \<and> ev_audio_start e),
            ev_audio_sr = (if rate then ev_audio_sr e else 0), ev_audio_ch = (if rate then ev_audio_ch e else 0),
            ev_audio_b64 = (if au then shown (ev_audio_b64 e) else [])\<rparr>)"

section \<open>The getters on an encoded object\<close>

text \<open>Object fields whose integers fit a \<open>long long\<close> and whose raw values fit the roster buffer.\<close>

definition kind_ok :: "(string \<times> jval) list \<Rightarrow> bool" where
  "kind_ok fs \<longleftrightarrow> fields_ok fs \<and>
     list_all (\<lambda>(k, v). case v of JInt i \<Rightarrow> LLONG_MIN \<le> i \<and> i \<le> LLONG_MAX | JRaw r \<Rightarrow> length r < 1024 | _ \<Rightarrow> True) fs"

lemma kind_ok_lookup:
  assumes "kind_ok fs"
  shows "jlookup fs key = Some (JInt i) \<Longrightarrow> LLONG_MIN \<le> i \<and> i \<le> LLONG_MAX"
    and "jlookup fs key = Some (JRaw r) \<Longrightarrow> length r < 1024"
  using assms by (force simp: kind_ok_def visible_def list_all_iff dest!: map_of_SomeD)+

lemma kind_ok_fields: "kind_ok fs \<Longrightarrow> fields_ok fs"
  by (simp add: kind_ok_def)

lemma get_str:
  assumes "jlookup fs key = (if c then Some (JStr s) else None)" "kind_ok fs"
  shows "json_get_string (object_text fs) key n = (if c then (if length s < n then 1 else -1, take (n - 1) (shown s)) else (0, []))"
  using assms(1) get_string_object [OF kind_ok_fields [OF assms(2)], of key] by (simp split: if_splits)

lemma get_int:
  assumes "jlookup fs key = (if c then Some (JInt i) else None)" "kind_ok fs"
  shows "json_get_int (object_text fs) key = (if c then Found i else Absent)"
  using assms(1) get_int_object [OF kind_ok_fields [OF assms(2)], of key] kind_ok_lookup [OF assms(2), of key] by (simp split: if_splits)

lemma get_dbl:
  assumes "jlookup fs key = (if c then Some (JDouble d) else None)" "kind_ok fs"
  shows "json_get_double (object_text fs) key = (if c then Found (g6 d) else Absent)"
  using assms(1) get_double_object [OF kind_ok_fields [OF assms(2)], of key] by (simp split: if_splits)

lemma get_flag:
  assumes "jlookup fs key = (if c then Some (JBool b) else None)" "kind_ok fs"
  shows "json_get_bool (object_text fs) key = (if c then Found b else Absent)"
  using assms(1) get_bool_object [OF kind_ok_fields [OF assms(2)], of key] by (simp split: if_splits)

lemma get_raw:
  assumes "jlookup fs key = (if c then Some (JRaw r) else None)" "kind_ok fs"
  shows "json_get_raw (object_text fs) key 1024 = (if c then (1, r) else (0, []))"
  using assms(1) get_raw_object [OF kind_ok_fields [OF assms(2)], of key] kind_ok_lookup [OF assms(2), of key] by (simp split: if_splits)

section \<open>Hexadecimal and small integers\<close>

lemma unhex_hd_char: "d < 16 \<Longrightarrow> unhex (hd_char d) = of_nat d"
  by (simp add: unhex_def hd_char_def chr_code_def Let_def)

lemma low_nibble: "b AND 0xF = take_bit 4 (b :: u8)"
  by (simp add: take_bit_eq_mask mask_eq_decr_exp)

lemma nibble_less: "unat (b AND 0xF :: u8) < 16"
  using take_bit_nat_less_exp [of 4 "unat b"] by (simp add: low_nibble unsigned_take_bit_eq)

lemma hex_byte: "push_bit 4 (unhex (hd_char (unat (drop_bit 4 b AND 0xF)))) OR unhex (hd_char (unat (b AND 0xF))) = b"
proof -
  have "push_bit 4 (take_bit 4 (drop_bit 4 b)) OR take_bit 4 b = (b :: u8)"
    by (rule bit_word_eqI) (auto simp: bit_simps)
  then show ?thesis using nibble_less by (simp add: unhex_hd_char low_nibble)
qed

lemma hex_bytes_upper: "hex_bytes (hex_upper bs) = bs"
  by (induction bs) (simp_all add: hex_upper_def hex_byte)

lemma hex_upper_length: "length (hex_upper bs) = 2 * length bs"
  by (induction bs) (simp_all add: hex_upper_def)

lemma hex_upper_Nil [simp]: "hex_upper bs = [] \<longleftrightarrow> bs = []"
  using hex_upper_length [of bs] by auto

lemma shown_hex: "shown (hex_upper bs) = hex_upper bs"
proof -
  have "demote (hd_char d) = hd_char d" if "d < 16" for d
    using that by (simp add: demote_def hd_char_def chr_code_def)
  then show ?thesis by (induction bs) (simp_all add: hex_upper_def nibble_less)
qed

lemma to_int32_id: "int32_ok v \<Longrightarrow> to_int32 v = v"
  by (simp add: to_int32_def int32_ok_def)

lemma to_int32_0 [simp]: "to_int32 0 = 0"
  by (simp add: to_int32_def)

lemma g6_0 [simp]: "g6 0 = 0"
  by (simp add: g6_def fmt_g6_def snprintf_def strtod_def number_body_def isspace_def isdigit_def chr_code_def dec_value_def pow10_def)

section \<open>The fields of a well-formed event\<close>

lemma kind_ok_simps:
  "kind_ok []" "kind_ok (fs @ gs) \<longleftrightarrow> kind_ok fs \<and> kind_ok gs" "kind_ok (if c then fs else []) \<longleftrightarrow> (c \<longrightarrow> kind_ok fs)"
  "kind_ok ((k, JStr s) # fs) \<longleftrightarrow> plain_key k \<and> kind_ok fs"
  "kind_ok ((k, JDouble d) # fs) \<longleftrightarrow> plain_key k \<and> kind_ok fs"
  "kind_ok ((k, JBool b) # fs) \<longleftrightarrow> plain_key k \<and> kind_ok fs"
  "kind_ok ((k, JInt i) # fs) \<longleftrightarrow> plain_key k \<and> LLONG_MIN \<le> i \<and> i \<le> LLONG_MAX \<and> kind_ok fs"
  "kind_ok ((k, JRaw r) # fs) \<longleftrightarrow> plain_key k \<and> raw_ok r \<and> length r < 1024 \<and> kind_ok fs"
  by (auto simp: kind_ok_def)

lemma int32_long: "int32_ok v \<Longrightarrow> LLONG_MIN \<le> v \<and> v \<le> LLONG_MAX"
  by (simp add: int32_ok_def LLONG_MIN_def LLONG_MAX_def)

lemma csp_int_long: "LLONG_MIN \<le> csp_int b \<and> csp_int b \<le> LLONG_MAX"
proof -
  have "0 \<le> uint b" "uint b < 256" using uint_bounded [of b] by simp_all
  then show ?thesis unfolding csp_int_def LLONG_MIN_def LLONG_MAX_def by linarith
qed

lemma plain_slot: "s < 6 \<Longrightarrow> c \<in> set ''clps'' \<Longrightarrow> plain_key (slot_key s c)"
proof -
  assume a: "s < 6" "c \<in> set ''clps''"
  have "list_all (\<lambda>s. list_all (\<lambda>c. plain_key (slot_key s c)) ''clps'') [0..<6]" by code_simp
  then show ?thesis using a by (auto simp: list_all_iff)
qed

lemma kind_ok_slot: "s < 6 \<Longrightarrow> pt_ok pt \<Longrightarrow> kind_ok (slot_fields s pt)"
  using int32_long [of "pt_payload_len pt"] by (simp add: slot_fields_def kind_ok_simps plain_slot pt_ok_def)

lemma kind_ok_concat: "(\<And>fs. fs \<in> set fss \<Longrightarrow> kind_ok fs) \<Longrightarrow> kind_ok (concat fss)"
  by (induction fss) (simp_all add: kind_ok_simps)

lemma kind_ok_slots: "length pts = 6 \<Longrightarrow> list_all pt_ok pts \<Longrightarrow> kind_ok (slots_fields pts)"
  unfolding slots_fields_def SSO_RX_PT_SLOTS_def
  by (rule kind_ok_concat) (auto intro!: kind_ok_slot simp: list_all_iff)

lemma plain_keys: "list_all plain_key (header_keys @ state_keys @ predict_keys @ auto_keys @ rx_keys @ ribbon_keys @ stats_keys @ tx_keys @ cmd_keys @ audio_keys)"
  by code_simp

lemma kind_ok_event: "event_ok e \<Longrightarrow> kind_ok (event_fields e)"
  using kind_ok_slots [of "ev_rx_pt e"]
  by (simp add: event_ok_def event_fields_def header_fields_def state_fields_def predict_fields_def auto_fields_def rx_fields_def
      ribbon_fields_def stats_fields_def tx_fields_def cmd_fields_def rate_fields_def audio_fields_def
      kind_ok_simps int32_long csp_int_long plain_key_def SSO_RX_PT_SLOTS_def)

section \<open>What each getter returns on an encoded event\<close>

lemmas wire_str =
  header_lookup(2-10,12-13) [THEN get_str, OF kind_ok_event]
  state_lookup(1-2,7-9) [THEN get_str, OF kind_ok_event]
  predict_lookup(1) [THEN get_str, OF kind_ok_event]
  auto_lookup(4-5) [THEN get_str, OF kind_ok_event]
  rx_lookup(9) [THEN get_str, OF kind_ok_event]
  ribbon_lookup(1-2) [THEN get_str, OF kind_ok_event]
  stats_lookup(3-4) [THEN get_str, OF kind_ok_event]
  tx_lookup(1-3,16-17) [THEN get_str, OF kind_ok_event]
  cmd_lookup(1-2) [THEN get_str, OF kind_ok_event]
  audio_lookup(3,6) [THEN get_str, OF kind_ok_event]

lemmas wire_int =
  state_lookup(5) [THEN get_int, OF kind_ok_event]
  auto_lookup(2-3) [THEN get_int, OF kind_ok_event]
  rx_lookup(6-8) [THEN get_int, OF kind_ok_event]
  stats_lookup(2) [THEN get_int, OF kind_ok_event]
  tx_lookup(4-9,14-15) [THEN get_int, OF kind_ok_event]
  audio_lookup(4,7-8) [THEN get_int, OF kind_ok_event]

lemmas wire_dbl =
  state_lookup(3-4,6,10-11,15) [THEN get_dbl, OF kind_ok_event]
  predict_lookup(2-14) [THEN get_dbl, OF kind_ok_event]
  rx_lookup(3-5,10) [THEN get_dbl, OF kind_ok_event]
  stats_lookup(1) [THEN get_dbl, OF kind_ok_event]
  tx_lookup(10) [THEN get_dbl, OF kind_ok_event]
  audio_lookup(2) [THEN get_dbl, OF kind_ok_event]

lemmas wire_flag =
  header_lookup(11) [THEN get_flag, OF kind_ok_event]
  state_lookup(12-14,16) [THEN get_flag, OF kind_ok_event]
  auto_lookup(1) [THEN get_flag, OF kind_ok_event]
  rx_lookup(1-2) [THEN get_flag, OF kind_ok_event]
  tx_lookup(11-13) [THEN get_flag, OF kind_ok_event]
  audio_lookup(1,5) [THEN get_flag, OF kind_ok_event]

lemmas wire_raw =
  predict_lookup(15) [THEN get_raw, OF kind_ok_event]

section \<open>The round trip\<close>

text \<open>The bounds of \<open>event_ok\<close>, field by field.\<close>

lemma event_ok_len:
  assumes "event_ok e"
  shows "length (ev_ts e) \<le> 39"
    "length (ev_from e) \<le> 63"
    "length (ev_role e) \<le> 15"
    "length (ev_user e) \<le> 63"
    "length (ev_operator_user e) \<le> 63"
    "length (ev_prev e) \<le> 63"
    "length (ev_new_user e) \<le> 63"
    "length (ev_by e) \<le> 63"
    "length (ev_to e) \<le> 63"
    "length (ev_reason e) \<le> 31"
    "length (ev_pass_folder e) \<le> 255"
    "length (ev_satellite e) \<le> 63"
    "length (ev_source e) \<le> 15"
    "length (ev_rx_status e) \<le> 159"
    "length (ev_tx_status e) \<le> 159"
    "length (ev_tle_path e) \<le> 255"
    "length (ev_idesg e) \<le> 8"
    "length (ev_roster_json e) \<le> 1023"
    "length (ev_auto_tcmd_state e) \<le> 11"
    "length (ev_rx_warning e) \<le> 79"
    "length (ev_rx_last_frame_summary e) \<le> 79"
    "length (ev_rx_ribbon e) \<le> 60"
    "length (ev_last_packet_ts e) \<le> 39"
    "length (ev_last_packet_summary e) \<le> 159"
    "length (ev_ascii e) \<le> 255"
    "length (ev_tx_payload_kind e) \<le> 7"
    "length (ev_tx_payload e) \<le> 255"
    "length (ev_tx_not_sent_reason e) \<le> 23"
    "length (ev_tx_origin e) \<le> 15"
    "length (ev_cmd_text e) \<le> 159"
    "length (ev_cmd_status e) \<le> 159"
    "length (ev_audio_state e) \<le> 15"
    "length (ev_audio_b64 e) \<le> 5464"
  using assms by (simp_all add: event_ok_def less_Suc_eq_le)

lemma event_ok_int:
  assumes "event_ok e"
  shows "to_int32 (ev_auto_tcmd_sent e) = ev_auto_tcmd_sent e"
    "to_int32 (ev_auto_tcmd_total e) = ev_auto_tcmd_total e"
    "to_int32 (ev_tx_repeat e) = ev_tx_repeat e"
    "to_int32 (ev_tx_gap_ms e) = ev_tx_gap_ms e"
    "to_int32 (ev_audio_seq e) = ev_audio_seq e"
    "to_int32 (ev_audio_sr e) = ev_audio_sr e"
    "to_int32 (ev_audio_ch e) = ev_audio_ch e"
  using assms by (simp_all add: event_ok_def to_int32_id)

lemma take_shown: "length s < n \<Longrightarrow> take (n - 1) (shown s) = shown s"
  by simp

lemma wire_has_state: "event_ok e \<Longrightarrow> decode_has_state (object_text (event_fields e)) \<longleftrightarrow> ev_has_state e"
  by (cases "ev_has_state e") (simp_all add: decode_has_state_def wire_str wire_int wire_dbl wire_raw present_def)

lemma wire_csp:
  "event_ok e \<Longrightarrow> decode_csp (object_text (event_fields e)) =
     (if carries_tx (ev_type e) then (ev_tx_csp e)\<lparr>flags := 0\<rparr> else zero_csp)"
  by (cases "ev_tx_csp e") (simp add: decode_csp_def wire_int found_def csp_int_def zero_csp_def)

lemma wire_type:
  "event_ok e \<Longrightarrow> json_get_string (object_text (event_fields e)) ''t'' 32 = (1, sso_event_type_name (ev_type e))"
proof -
  assume ok: "event_ok e"
  have "jlookup (event_fields e) ''t'' = (if True then Some (JStr (sso_event_type_name (ev_type e))) else None)"
    by (simp add: header_lookup)
  from get_str [OF this kind_ok_event [OF ok]]
  show ?thesis by (cases "ev_type e") (simp_all add: sso_event_type_name_def g_event_types_def demote_def chr_code_def)
qed

lemma type_from_name: "sso_event_type_from_name (sso_event_type_name ty) = ty"
  by (cases ty) (simp_all add: sso_event_type_from_name_def sso_event_type_name_def g_event_types_def)

lemma hex_array_upper: "hex_array n (hex_upper bs) = zero_pad n bs"
  by (simp add: hex_array_def zero_pad_def hex_bytes_upper)

lemma hex_array_Nil: "hex_array n [] = zero_pad n []"
  by (simp add: hex_array_def zero_pad_def)

lemma wire_ribbon:
  "event_ok e \<Longrightarrow> decode_ribbon (object_text (event_fields e)) =
     (if ev_has_state e \<and> ev_rx_have_session e \<and> ev_rx_ribbon_n e > 0
      then (int (length (ev_rx_ribbon e)), shown (ev_rx_ribbon e)) else (0, []))"
  using event_ok_len(22) [of e] by (simp add: decode_ribbon_def wire_str SSO_RIBBON_MAX_def)

lemma wire_peak:
  assumes "event_ok e"
  shows "(case json_get_string (object_text (event_fields e)) ''rx_rb_p'' (SSO_RIBBON_MAX * 2 + 1) of
            (r, hex) \<Rightarrow> hex_array SSO_RIBBON_MAX (if r > 0 then hex else [])) =
     zero_pad SSO_RIBBON_MAX (if ev_has_state e \<and> ev_rx_have_session e \<and> ev_rx_ribbon_n e > 0
       then take (nat (ev_rx_ribbon_n e)) (ev_rx_ribbon_peak e) else [])"
proof -
  have "length (hex_upper (take (nat (ev_rx_ribbon_n e)) (ev_rx_ribbon_peak e))) \<le> 120"
    using assms by (simp add: hex_upper_length event_ok_def SSO_RIBBON_MAX_def)
  then show ?thesis
    by (auto simp: wire_str [OF assms] SSO_RIBBON_MAX_def shown_hex hex_array_upper hex_array_Nil zero_pad_def)
qed

lemma slot_value:
  assumes "s < 6"
  shows "jlookup (slot_fields s pt) (slot_key s CHR ''c'') = (if pt_count pt \<noteq> 0 then Some (JInt (pt_count pt)) else None)"
    and "jlookup (slot_fields s pt) (slot_key s CHR ''l'') = (if pt_count pt \<noteq> 0 \<and> pt_payload_len pt > 0 then Some (JInt (pt_payload_len pt)) else None)"
    and "jlookup (slot_fields s pt) (slot_key s CHR ''p'') =
      (if pt_count pt \<noteq> 0 \<and> pt_payload_len pt > 0 \<and> hex_upper (take (min (nat (pt_payload_len pt)) 64) (pt_payload pt)) \<noteq> []
       then Some (JStr (hex_upper (take (min (nat (pt_payload_len pt)) 64) (pt_payload pt)))) else None)"
    and "jlookup (slot_fields s pt) (slot_key s CHR ''s'') = (if pt_count pt \<noteq> 0 \<and> pt_summary pt \<noteq> [] then Some (JStr (pt_summary pt)) else None)"
  using assms by (simp_all add: slot_fields_def slot_same SSO_RX_PT_PAYLOAD_MAX_def cong: if_cong)

lemma slot_event:
  assumes "s < 6" "c \<in> set ''clps''" "jlookup (slot_fields s (ev_rx_pt e ! s)) (slot_key s c) = (if p then Some v else None)"
  shows "jlookup (event_fields e) (slot_key s c) = (if (ev_has_state e \<and> ev_rx_have_session e) \<and> p then Some v else None)"
  using assms(3) slot_lookup [OF assms(1,2), of e] by simp

lemma wire_slot:
  assumes "event_ok e" "s < 6"
  shows "decode_slot (object_text (event_fields e)) s = shown_pt (ev_has_state e \<and> ev_rx_have_session e) (ev_rx_pt e ! s)"
proof -
  let ?pt = "ev_rx_pt e ! s"
  have pt: "pt_ok ?pt" using assms by (simp add: event_ok_def list_all_length SSO_RX_PT_SLOTS_def)
  note k = kind_ok_event [OF assms(1)] and sv = slot_value [OF assms(2), of ?pt]
  have hexlen: "length (hex_upper (take (min (nat (pt_payload_len ?pt)) 64) (pt_payload ?pt))) < 129"
    by (simp add: hex_upper_length)
  have whole: "take (min (nat (pt_payload_len ?pt)) 64) (pt_payload ?pt) = take (nat (pt_payload_len ?pt)) (pt_payload ?pt)"
    using pt by (simp add: pt_ok_def SSO_RX_PT_PAYLOAD_MAX_def min_def)
  show ?thesis
    using pt hexlen
    by (auto simp: decode_slot_def shown_pt_def found_def to_int32_id pt_ok_def SSO_RX_PT_PAYLOAD_MAX_def SSO_RX_PT_SUMMARY_MAX_def
        get_int [OF slot_event [OF assms(2) _ sv(1)] k] get_int [OF slot_event [OF assms(2) _ sv(2)] k]
        get_str [OF slot_event [OF assms(2) _ sv(3)] k] get_str [OF slot_event [OF assms(2) _ sv(4)] k]
        shown_hex hex_array_upper hex_array_Nil whole)
qed

lemma wire_slots:
  "event_ok e \<Longrightarrow> map (decode_slot (object_text (event_fields e))) [0..<SSO_RX_PT_SLOTS] =
     map (\<lambda>s. shown_pt (ev_has_state e \<and> ev_rx_have_session e) (ev_rx_pt e ! s)) [0..<SSO_RX_PT_SLOTS]"
  by (simp add: wire_slot SSO_RX_PT_SLOTS_def)

lemma wire_fields_header:
  assumes "event_ok e"
  shows "snd (json_get_string (object_text (event_fields e)) ''ts'' 40) = (shown (ev_ts e))"
    "snd (json_get_string (object_text (event_fields e)) ''from'' 64) = (shown (ev_from e))"
    "snd (json_get_string (object_text (event_fields e)) ''role'' 16) = (shown (ev_role e))"
    "snd (json_get_string (object_text (event_fields e)) ''user'' 64) = (shown (ev_user e))"
    "snd (json_get_string (object_text (event_fields e)) ''operator'' 64) = (shown (ev_operator_user e))"
    "snd (json_get_string (object_text (event_fields e)) ''prev'' 64) = (shown (ev_prev e))"
    "snd (json_get_string (object_text (event_fields e)) ''new'' 64) = (shown (ev_new_user e))"
    "snd (json_get_string (object_text (event_fields e)) ''by'' 64) = (shown (ev_by e))"
    "snd (json_get_string (object_text (event_fields e)) ''to'' 64) = (shown (ev_to e))"
    "found (json_get_bool (object_text (event_fields e)) ''forced'') False = (ev_forced e)"
    "snd (json_get_string (object_text (event_fields e)) ''reason'' 32) = (shown (ev_reason e))"
    "snd (json_get_string (object_text (event_fields e)) ''pass_folder'' 256) = (shown (ev_pass_folder e))"
  by (simp_all add: event_ok_len event_ok_int wire_str wire_int wire_dbl wire_flag wire_raw assms found_def SSO_AUDIO_B64_MAX_def)

lemma wire_fields_state:
  assumes "event_ok e"
  shows "snd (json_get_string (object_text (event_fields e)) ''sat'' 64) = (if ev_has_state e then shown (ev_satellite e) else [])"
    "snd (json_get_string (object_text (event_fields e)) ''source'' 16) = (if ev_has_state e then shown (ev_source e) else [])"
    "found (json_get_double (object_text (event_fields e)) ''az'') 0 = (if ev_has_state e then g6 (ev_az e) else 0)"
    "found (json_get_double (object_text (event_fields e)) ''el'') 0 = (if ev_has_state e then g6 (ev_el e) else 0)"
    "found (json_get_int (object_text (event_fields e)) ''freq'') 0 = (if ev_has_state e then ev_freq_hz e else 0)"
    "found (json_get_double (object_text (event_fields e)) ''doppler'') 0 = (if ev_has_state e then g6 (ev_doppler_hz e) else 0)"
    "snd (json_get_string (object_text (event_fields e)) ''rx_status'' 160) = (if ev_has_state e then shown (ev_rx_status e) else [])"
    "snd (json_get_string (object_text (event_fields e)) ''tx_status'' 160) = (if ev_has_state e then shown (ev_tx_status e) else [])"
    "snd (json_get_string (object_text (event_fields e)) ''tle_path'' 256) = (if ev_has_state e then shown (ev_tle_path e) else [])"
    "found (json_get_double (object_text (event_fields e)) ''target_az'') 0 = (if ev_has_state e then g6 (ev_target_az e) else 0)"
    "found (json_get_double (object_text (event_fields e)) ''target_el'') 0 = (if ev_has_state e then g6 (ev_target_el e) else 0)"
    "found (json_get_bool (object_text (event_fields e)) ''flip'') False = ((ev_has_state e) \<and> ev_flip e)"
    "found (json_get_bool (object_text (event_fields e)) ''in_pass'') False = ((ev_has_state e) \<and> ev_in_pass e)"
    "found (json_get_bool (object_text (event_fields e)) ''tracking'') False = ((ev_has_state e) \<and> ev_tracking e)"
    "found (json_get_double (object_text (event_fields e)) ''jul'') 0 = (if ev_has_state e then g6 (ev_jul_utc e) else 0)"
    "found (json_get_bool (object_text (event_fields e)) ''has_rot'') False = ((ev_has_state e) \<and> ev_has_rotator e)"
  by (simp_all add: event_ok_len event_ok_int wire_str wire_int wire_dbl wire_flag wire_raw assms found_def SSO_AUDIO_B64_MAX_def)

lemma wire_fields_predict:
  assumes "event_ok e"
  shows "snd (json_get_string (object_text (event_fields e)) ''idesg'' 9) = (if ev_has_state e then shown (ev_idesg e) else [])"
    "found (json_get_double (object_text (event_fields e)) ''ep_min'') 0 = (if ev_has_state e then g6 (ev_epoch_min e) else 0)"
    "found (json_get_double (object_text (event_fields e)) ''mv'') 0 = (if ev_has_state e then g6 (ev_min_visible e) else 0)"
    "found (json_get_double (object_text (event_fields e)) ''ma0'') 0 = (if ev_has_state e then g6 (ev_min_above_0 e) else 0)"
    "found (json_get_double (object_text (event_fields e)) ''ma30'') 0 = (if ev_has_state e then g6 (ev_min_above_30 e) else 0)"
    "found (json_get_double (object_text (event_fields e)) ''max_el'') 0 = (if ev_has_state e then g6 (ev_max_el e) else 0)"
    "found (json_get_double (object_text (event_fields e)) ''p_az'') 0 = (if ev_has_state e then g6 (ev_pred_az e) else 0)"
    "found (json_get_double (object_text (event_fields e)) ''p_el'') 0 = (if ev_has_state e then g6 (ev_pred_el e) else 0)"
    "found (json_get_double (object_text (event_fields e)) ''alt'') 0 = (if ev_has_state e then g6 (ev_alt_km e) else 0)"
    "found (json_get_double (object_text (event_fields e)) ''lat'') 0 = (if ev_has_state e then g6 (ev_lat_deg e) else 0)"
    "found (json_get_double (object_text (event_fields e)) ''lon'') 0 = (if ev_has_state e then g6 (ev_lon_deg e) else 0)"
    "found (json_get_double (object_text (event_fields e)) ''spd'') 0 = (if ev_has_state e then g6 (ev_speed_kms e) else 0)"
    "found (json_get_double (object_text (event_fields e)) ''rng'') 0 = (if ev_has_state e then g6 (ev_range_km e) else 0)"
    "found (json_get_double (object_text (event_fields e)) ''rrate'') 0 = (if ev_has_state e then g6 (ev_range_rate_kms e) else 0)"
    "snd (json_get_raw (object_text (event_fields e)) ''roster'' 1024) = (if ev_has_state e then ev_roster_json e else [])"
  by (simp_all add: event_ok_len event_ok_int wire_str wire_int wire_dbl wire_flag wire_raw assms found_def SSO_AUDIO_B64_MAX_def)

lemma wire_fields_auto:
  assumes "event_ok e"
  shows "found (json_get_bool (object_text (event_fields e)) ''at_on'') False = (ev_has_state e \<and> ev_auto_tcmd_on e)"
    "to_int32 (found (json_get_int (object_text (event_fields e)) ''at_sent'') 0) = (if ev_has_state e \<and> ev_auto_tcmd_on e then ev_auto_tcmd_sent e else 0)"
    "to_int32 (found (json_get_int (object_text (event_fields e)) ''at_tot'') 0) = (if ev_has_state e \<and> ev_auto_tcmd_on e then ev_auto_tcmd_total e else 0)"
    "snd (json_get_string (object_text (event_fields e)) ''at_st'' 12) = (if ev_has_state e \<and> ev_auto_tcmd_on e then shown (ev_auto_tcmd_state e) else [])"
    "snd (json_get_string (object_text (event_fields e)) ''rx_warn'' 80) = (if ev_has_state e then shown (ev_rx_warning e) else [])"
  by (simp_all add: event_ok_len event_ok_int wire_str wire_int wire_dbl wire_flag wire_raw assms found_def SSO_AUDIO_B64_MAX_def)

lemma wire_fields_rx:
  assumes "event_ok e"
  shows "found (json_get_bool (object_text (event_fields e)) ''rx_has'') False = (ev_has_state e \<and> ev_rx_have_session e)"
    "found (json_get_bool (object_text (event_fields e)) ''rx_rec'') False = ((ev_has_state e \<and> ev_rx_have_session e) \<and> ev_rx_rec_active e)"
    "found (json_get_double (object_text (event_fields e)) ''rx_fhz'') 0 = (if ev_has_state e \<and> ev_rx_have_session e then g6 (ev_rx_freq_hz e) else 0)"
    "found (json_get_double (object_text (event_fields e)) ''rx_pk'') 0 = (if ev_has_state e \<and> ev_rx_have_session e then g6 (ev_rx_peak_dbfs e) else 0)"
    "found (json_get_double (object_text (event_fields e)) ''rx_rm'') 0 = (if ev_has_state e \<and> ev_rx_have_session e then g6 (ev_rx_rms_dbfs e) else 0)"
    "found (json_get_int (object_text (event_fields e)) ''rx_fr'') 0 = (if ev_has_state e \<and> ev_rx_have_session e then ev_rx_frames_total e else 0)"
    "found (json_get_int (object_text (event_fields e)) ''rx_fr_pcm'') 0 = (if ev_has_state e \<and> ev_rx_have_session e then ev_rx_frames_pcm e else 0)"
    "found (json_get_int (object_text (event_fields e)) ''rx_fr_vt'') 0 = (if ev_has_state e \<and> ev_rx_have_session e then ev_rx_frames_vit e else 0)"
    "snd (json_get_string (object_text (event_fields e)) ''rx_lf'' 80) = (if ev_has_state e \<and> ev_rx_have_session e then shown (ev_rx_last_frame_summary e) else [])"
    "found (json_get_double (object_text (event_fields e)) ''rx_age'') (-1) = (if (ev_has_state e \<and> ev_rx_have_session e) \<and> ev_rx_age_s e \<ge> 0 then g6 (ev_rx_age_s e) else -1)"
  by (simp_all add: event_ok_len event_ok_int wire_str wire_int wire_dbl wire_flag wire_raw assms found_def SSO_AUDIO_B64_MAX_def)

lemma wire_fields_stats:
  assumes "event_ok e"
  shows "found (json_get_double (object_text (event_fields e)) ''snr_db'') 0 = (if ev_type e = SSO_EVT_RX_STATS then g6 (ev_snr_db e) else 0)"
    "found (json_get_int (object_text (event_fields e)) ''packets'') 0 = (if ev_type e = SSO_EVT_RX_STATS then ev_packets e else 0)"
    "snd (json_get_string (object_text (event_fields e)) ''last_packet_ts'' 40) = (if ev_type e = SSO_EVT_RX_STATS then shown (ev_last_packet_ts e) else [])"
    "snd (json_get_string (object_text (event_fields e)) ''last_packet_summary'' 160) = (if ev_type e = SSO_EVT_RX_STATS then shown (ev_last_packet_summary e) else [])"
  by (simp_all add: event_ok_len event_ok_int wire_str wire_int wire_dbl wire_flag wire_raw assms found_def SSO_AUDIO_B64_MAX_def)

lemma wire_fields_tx:
  assumes "event_ok e"
  shows "snd (json_get_string (object_text (event_fields e)) ''ascii'' 256) = (if carries_tx (ev_type e) then shown (ev_ascii e) else [])"
    "snd (json_get_string (object_text (event_fields e)) ''tx_kind'' 8) = (if carries_tx (ev_type e) then shown (ev_tx_payload_kind e) else [])"
    "snd (json_get_string (object_text (event_fields e)) ''tx_pl'' 256) = (if carries_tx (ev_type e) then shown (ev_tx_payload e) else [])"
    "found (json_get_int (object_text (event_fields e)) ''tx_freq'') 0 = (if carries_tx (ev_type e) then ev_tx_freq_hz e else 0)"
    "found (json_get_double (object_text (event_fields e)) ''tx_gain'') 0 = (if carries_tx (ev_type e) then g6 (ev_tx_gain_db e) else 0)"
    "found (json_get_bool (object_text (event_fields e)) ''tx_allow'') False = ((carries_tx (ev_type e)) \<and> ev_tx_allow_tx e)"
    "found (json_get_bool (object_text (event_fields e)) ''tx_hp'') False = ((carries_tx (ev_type e)) \<and> ev_tx_allow_high_power e)"
    "found (json_get_bool (object_text (event_fields e)) ''tx_hf'') False = ((carries_tx (ev_type e)) \<and> ev_tx_allow_hf_tx e)"
    "to_int32 (found (json_get_int (object_text (event_fields e)) ''tx_rep'') 0) = (if carries_tx (ev_type e) then ev_tx_repeat e else 0)"
    "to_int32 (found (json_get_int (object_text (event_fields e)) ''tx_gap'') 0) = (if carries_tx (ev_type e) then ev_tx_gap_ms e else 0)"
    "snd (json_get_string (object_text (event_fields e)) ''tx_st'' 24) = (if carries_tx (ev_type e) then shown (ev_tx_not_sent_reason e) else [])"
    "snd (json_get_string (object_text (event_fields e)) ''tx_org'' 16) = (if carries_tx (ev_type e) then shown (ev_tx_origin e) else [])"
  by (simp_all add: event_ok_len event_ok_int wire_str wire_int wire_dbl wire_flag wire_raw assms found_def SSO_AUDIO_B64_MAX_def)

lemma wire_fields_cmd:
  assumes "event_ok e"
  shows "snd (json_get_string (object_text (event_fields e)) ''cmd_text'' 160) = (if (ev_type e = SSO_EVT_CMD_PREVIEW \<or> ev_type e = SSO_EVT_CMD_EXECUTED) then shown (ev_cmd_text e) else [])"
    "snd (json_get_string (object_text (event_fields e)) ''cmd_status'' 160) = (if (ev_type e = SSO_EVT_CMD_PREVIEW \<or> ev_type e = SSO_EVT_CMD_EXECUTED) then shown (ev_cmd_status e) else [])"
  by (simp_all add: event_ok_len event_ok_int wire_str wire_int wire_dbl wire_flag wire_raw assms found_def SSO_AUDIO_B64_MAX_def)

lemma wire_fields_audio:
  assumes "event_ok e"
  shows "found (json_get_bool (object_text (event_fields e)) ''enable'') False = ((ev_type e = SSO_EVT_AUDIO_CTL) \<and> ev_audio_enable e)"
    "found (json_get_double (object_text (event_fields e)) ''q'') 0 = (if ev_type e = SSO_EVT_AUDIO_CTL \<and> ev_audio_quality e > 0 then g6 (ev_audio_quality e) else 0)"
    "snd (json_get_string (object_text (event_fields e)) ''state'' 16) = (if ev_type e = SSO_EVT_AUDIO_STATUS then shown (ev_audio_state e) else [])"
    "to_int32 (found (json_get_int (object_text (event_fields e)) ''seq'') 0) = (if ev_type e = SSO_EVT_AUDIO then ev_audio_seq e else 0)"
    "found (json_get_bool (object_text (event_fields e)) ''start'') False = ((ev_type e = SSO_EVT_AUDIO) \<and> ev_audio_start e)"
    "snd (json_get_string (object_text (event_fields e)) ''data'' SSO_AUDIO_B64_MAX) = (if ev_type e = SSO_EVT_AUDIO then shown (ev_audio_b64 e) else [])"
    "to_int32 (found (json_get_int (object_text (event_fields e)) ''sr'') 0) = (if (ev_type e = SSO_EVT_AUDIO_STATUS \<or> ev_type e = SSO_EVT_AUDIO \<and> ev_audio_start e) then ev_audio_sr e else 0)"
    "to_int32 (found (json_get_int (object_text (event_fields e)) ''ch'') 0) = (if (ev_type e = SSO_EVT_AUDIO_STATUS \<or> ev_type e = SSO_EVT_AUDIO \<and> ev_audio_start e) then ev_audio_ch e else 0)"
  by (simp_all add: event_ok_len event_ok_int wire_str wire_int wire_dbl wire_flag wire_raw assms found_def SSO_AUDIO_B64_MAX_def)

lemmas wire_fields = wire_fields_header wire_fields_state wire_fields_predict wire_fields_auto wire_fields_rx wire_fields_stats wire_fields_tx wire_fields_cmd wire_fields_audio

lemma decode_fields: "event_ok e \<Longrightarrow> sso_event_decode (object_text (event_fields e)) = Some (received e)"
  unfolding sso_event_decode_def received_def Let_def
  by (simp only: wire_type fst_conv snd_conv not_one_le_zero if_False type_from_name wire_has_state wire_csp wire_ribbon wire_peak wire_slots wire_fields
     if_distrib [of fst] if_distrib [of snd] conj_assoc)

text \<open>The line written is the object of the fields, whenever it fits.\<close>

lemma encode_Some:
  "sso_event_encode e n = Some line \<longleftrightarrow> 8 \<le> n \<and> line = object_text (event_fields e) \<and> length line \<le> n"
proof (cases "8 \<le> n")
  case True
  let ?st = "([CHR ''{''], True)"
  have start: "json_append (n - 2) [] ''{'' = Some [CHR ''{'']" using True by (simp add: json_append_def)
  have len: "length (object_text (event_fields e)) \<le> n \<longleftrightarrow> put_fields (n - 2) ?st (event_fields e) \<noteq> None"
    using True put_fields_iff [of ?st "n - 2" "event_fields e"] by (auto simp: object_text_def)
  show ?thesis
  proof (cases "put_fields (n - 2) ?st (event_fields e)")
    case None
    then show ?thesis using len start by (auto simp: sso_event_encode_def)
  next
    case (Some st)
    from put_fields_Some [OF this] have "fst st = CHR ''{'' # render (visible (event_fields e))" using True by simp
    moreover from this have "length (object_text (event_fields e)) \<le> n" using len Some by simp
    ultimately have "sso_event_encode e n = Some (object_text (event_fields e)) \<and> length (object_text (event_fields e)) \<le> n"
      using True by (simp add: sso_event_encode_def start Some json_append_def object_text_def)
    then show ?thesis using True by auto
  qed
qed (auto simp: sso_event_encode_def)

section \<open>The roster\<close>

record sso_roster_entry =
  re_user :: string
  re_role :: string
  re_since :: string

text \<open>
  \<^verbatim>\<open>sso_event_set_roster\<close> writes straight into the event and returns at the first piece that does
  not fit, leaving what it wrote before in place: the pieces are those of its calls of
  \<^verbatim>\<open>json_append\<close> and, inside a string, of \<^verbatim>\<open>json_append_escaped\<close>.
\<close>

fun append_pieces :: "nat \<Rightarrow> string \<Rightarrow> string list \<Rightarrow> bool \<times> string" where
  "append_pieces cap out [] = (True, out)"
| "append_pieces cap out (s # ss) =
     (case json_append cap out s of None \<Rightarrow> (False, out) | Some out' \<Rightarrow> append_pieces cap out' ss)"

definition string_pieces :: "string \<Rightarrow> string list" where
  "string_pieces s = [CHR 0x22] # map json_escape s @ [[CHR 0x22]]"

definition roster_key :: "char \<Rightarrow> string \<Rightarrow> string" where
  "roster_key c k = [c, CHR 0x22] @ k @ [CHR 0x22, CHR '':'']"

definition entry_pieces :: "sso_roster_entry \<Rightarrow> string list" where
  "entry_pieces r =
     roster_key CHR ''{'' ''user'' # string_pieces (re_user r) @
     roster_key CHR '','' ''role'' # string_pieces (re_role r) @
     (if re_since r = [] then [] else roster_key CHR '','' ''since'' # string_pieces (re_since r)) @ [''}'']"

fun entries_pieces :: "bool \<Rightarrow> sso_roster_entry list \<Rightarrow> string list" where
  "entries_pieces first [] = []"
| "entries_pieces first (r # rs) = (if first then [] else ['','']) @ entry_pieces r @ entries_pieces False rs"

definition sso_event_set_roster :: "ipc_event \<Rightarrow> sso_roster_entry list \<Rightarrow> int \<times> ipc_event" where
  "sso_event_set_roster e entries =
     (case append_pieces 1023 [] (''['' # entries_pieces True entries @ ['']'']) of
        (ok, out) \<Rightarrow> (if ok then 0 else -1, e\<lparr>ev_roster_json := out\<rparr>))"

lemma append_pieces_True: "append_pieces cap out ss = (True, q) \<Longrightarrow> length out \<le> cap \<Longrightarrow> q = out @ concat ss \<and> length q \<le> cap"
proof (induction ss arbitrary: out)
  case (Cons s ss)
  then have "append_pieces cap (out @ s) ss = (True, q)" "length (out @ s) \<le> cap"
    by (auto simp: json_append_def split: if_splits)
  from Cons.IH [OF this] show ?case by auto
qed simp

lemma append_pieces_chars:
  "append_pieces cap out (map json_escape s @ ss) =
     (case json_append_chars cap out s of None \<Rightarrow> (False, snd (append_pieces cap out (map json_escape s)))
      | Some out' \<Rightarrow> append_pieces cap out' ss)"
  by (induction s arbitrary: out) (auto split: option.splits)

text \<open>The array is one value to the reader, whatever the names hold.\<close>

lemma concat_string_pieces: "concat (string_pieces s) = jtext (JStr s)"
  by (simp add: string_pieces_def escaped_def)

lemma nested_string: "json_skip_nested CHR ''['' CHR '']'' d (jtext (JStr s) @ r) = json_skip_nested CHR ''['' CHR '']'' d r"
  by (subst json_skip_nested.simps) (simp add: json_skip_string_def skip_escaped)

lemma nested_char: "c \<notin> {CHR 0x22, CHR ''['', CHR '']''} \<Longrightarrow>
  json_skip_nested CHR ''['' CHR '']'' d (c # r) = json_skip_nested CHR ''['' CHR '']'' d r"
  by (subst json_skip_nested.simps) simp

lemma nested_key:
  assumes "plain_key k" "c \<notin> {CHR 0x22, CHR ''['', CHR '']''}"
  shows "json_skip_nested CHR ''['' CHR '']'' d (roster_key c k @ r) = json_skip_nested CHR ''['' CHR '']'' d r"
proof -
  have "json_skip_nested CHR ''['' CHR '']'' d (CHR 0x22 # k @ CHR 0x22 # CHR '':'' # r) =
    json_skip_nested CHR ''['' CHR '']'' d (CHR '':'' # r)"
    by (subst json_skip_nested.simps) (simp add: json_skip_string_def skip_plain_key assms(1))
  then show ?thesis using assms(2) by (simp add: roster_key_def nested_char)
qed

lemma nested_roster:
  "json_skip_nested CHR ''['' CHR '']'' d (concat (entries_pieces first rs) @ r) = json_skip_nested CHR ''['' CHR '']'' d r"
proof (induction rs arbitrary: first)
  case (Cons e rs)
  have "plain_key ''user''" "plain_key ''role''" "plain_key ''since''" by (simp_all add: plain_key_def)
  then show ?case using Cons by (simp add: entry_pieces_def nested_char nested_key concat_string_pieces nested_string del: jtext.simps)
qed simp

lemma roster_raw:
  assumes "append_pieces 1023 [] (''['' # entries_pieces True entries @ ['']'']) = (True, r)"
  shows "raw_ok r \<and> length r < 1024"
proof -
  have r: "r = CHR ''['' # concat (entries_pieces True entries) @ '']''" "length r < 1024"
    using append_pieces_True [OF assms] by auto
  have "json_skip_nested CHR ''['' CHR '']'' 0 r = Some []"
    unfolding r by (subst json_skip_nested.simps) (simp add: nested_roster json_skip_nested.simps [of _ _ _ "[_]"])
  then show ?thesis using r by (simp add: raw_ok_def json_skip_value_def json_skip_ws_def json_ws_def)
qed

lemma event_ok_roster: "event_ok e \<Longrightarrow> sso_event_set_roster e entries = (0, e') \<Longrightarrow> event_ok e'"
proof -
  assume a: "event_ok e" "sso_event_set_roster e entries = (0, e')"
  then obtain r where r: "e' = e\<lparr>ev_roster_json := r\<rparr>" "raw_ok r" "length r < 1024"
    by (auto simp: sso_event_set_roster_def dest: roster_raw split: prod.splits if_splits simp del: append_pieces.simps)
  then show ?thesis using a(1) by (simp add: event_ok_def)
qed

text \<open>A raw value that does not end hides every field behind it.\<close>

lemma render_split: "render (fs @ f # gs) = render (fs @ [f]) @ (if gs = [] then [] else CHR '','' # render gs)"
  by (induction fs) auto

lemma find_broken_raw:
  assumes "plain_key k" "r \<noteq> []" "hd r = CHR ''[''" "json_skip_value (r @ q) = None"
  shows "json_find key (field_text (k, JRaw r) @ q) = Malformed"
proof -
  let ?p = "field_text (k, JRaw r) @ q"
  have ws: "json_skip_ws ?p = ?p" "json_skip_ws (CHR '':'' # u) = CHR '':'' # u" for u
    by (simp_all add: field_text_def json_skip_ws_def json_ws_def)
  have v: "json_skip_ws (r @ q) = r @ q" using assms(2,3) by (cases r) (simp_all add: json_skip_ws_def json_ws_def)
  have str: "json_skip_string ?p = Some (CHR '':'' # r @ q)"
    using skip_plain_key [OF assms(1)] by (simp add: field_text_def json_skip_string_def)
  show ?thesis
    by (subst json_find.simps) (simp only: Let_def ws str v option.case list.sel assms(4) simp_thms if_False list.distinct)
qed

lemma find_broken:
  assumes "list_all (\<lambda>f. plain_key (fst f) \<and> jval_ok (snd f) \<and> \<not> skipped (snd f)) fs"
    "plain_key k" "r \<noteq> []" "hd r = CHR ''[''" "json_skip_value (r @ q) = None"
  shows "json_find key (render (fs @ [(k, JRaw r)]) @ q) = (case map_of fs key of None \<Rightarrow> Malformed | Some v \<Rightarrow> Found (jbody v))"
  using assms(1)
proof (induction fs)
  case (Cons f fs)
  let ?r = "CHR '','' # render (fs @ [(k, JRaw r)]) @ q"
  have "wire_end ?r" by (simp add: wire_end_def)
  then have "json_find key (field_text f @ ?r) = (if fst f = key then Found (jbody (snd f)) else json_find key (if hd ?r = CHR '','' then tl ?r else ?r))"
    using Cons.prems find_field [of "fst f" "snd f" ?r key] by simp
  then show ?case using Cons by (cases f) simp
qed (simp add: find_broken_raw assms(2-5))

lemma get_broken:
  assumes "visible fs = pre @ (k, JRaw r) # post" "fields_ok pre"
    "plain_key k" "r \<noteq> []" "hd r = CHR ''[''"
    "json_skip_value (r @ (if post = [] then [] else CHR '','' # render post) @ [CHR ''}'', CHR 0x0A]) = None"
  shows "json_get_field (object_text fs) key = (case map_of pre key of None \<Rightarrow> Malformed | Some v \<Rightarrow> Found (jbody v))"
proof -
  have "list_all (\<lambda>f. \<not> skipped (snd f)) (visible fs)" by (simp add: visible_def list_all_iff)
  then have "list_all (\<lambda>f. plain_key (fst f) \<and> jval_ok (snd f) \<and> \<not> skipped (snd f)) pre"
    using assms(1,2) by (auto simp: fields_ok_def list_all_iff)
  from find_broken [OF this assms(3-6)] have "json_find key (render (visible fs) @ [CHR ''}'', CHR 0x0A]) =
    (case map_of pre key of None \<Rightarrow> Malformed | Some v \<Rightarrow> Found (jbody v))"
    by (simp only: assms(1) render_split [of pre "(k, JRaw r)" post] append_assoc)
  then show ?thesis by (simp add: json_get_field_def object_text_def json_skip_ws_def json_ws_def)
qed

text \<open>The fields before and after the roster.\<close>

lemma render_length: "length (render fs) \<le> sum_list (map (\<lambda>f. length (field_text f) + 1) fs)"
  by (induction fs) auto

definition roster_before :: "ipc_event \<Rightarrow> (string \<times> jval) list" where
  "roster_before e = header_fields e @ state_fields e @ butlast (predict_fields e)"

definition roster_after :: "ipc_event \<Rightarrow> (string \<times> jval) list" where
  "roster_after e =
     auto_fields e @ given (ev_rx_have_session e) (rx_fields e @ slots_fields (ev_rx_pt e) @ ribbon_fields e) @
     stats_fields e @ given (carries_tx (ev_type e)) (tx_fields e) @ cmd_fields e @ audio_fields e"

lemma event_fields_roster:
  "ev_has_state e \<Longrightarrow> event_fields e = roster_before e @ (''roster'', JRaw (ev_roster_json e)) # roster_after e"
  by (simp add: event_fields_def roster_before_def roster_after_def predict_fields_def)

lemma roster_upd_fields:
  "header_fields (e\<lparr>ev_roster_json := r\<rparr>) = header_fields e" "state_fields (e\<lparr>ev_roster_json := r\<rparr>) = state_fields e"
  "butlast (predict_fields (e\<lparr>ev_roster_json := r\<rparr>)) = butlast (predict_fields e)"
  "auto_fields (e\<lparr>ev_roster_json := r\<rparr>) = auto_fields e" "rx_fields (e\<lparr>ev_roster_json := r\<rparr>) = rx_fields e"
  "ribbon_fields (e\<lparr>ev_roster_json := r\<rparr>) = ribbon_fields e" "stats_fields (e\<lparr>ev_roster_json := r\<rparr>) = stats_fields e"
  "tx_fields (e\<lparr>ev_roster_json := r\<rparr>) = tx_fields e" "cmd_fields (e\<lparr>ev_roster_json := r\<rparr>) = cmd_fields e"
  "audio_fields (e\<lparr>ev_roster_json := r\<rparr>) = audio_fields e"
  by (simp_all add: header_fields_def state_fields_def predict_fields_def auto_fields_def rx_fields_def ribbon_fields_def
      stats_fields_def tx_fields_def cmd_fields_def audio_fields_def rate_fields_def)

lemma roster_upd:
  "roster_before (e\<lparr>ev_roster_json := r\<rparr>) = roster_before e" "roster_after (e\<lparr>ev_roster_json := r\<rparr>) = roster_after e"
  unfolding roster_before_def roster_after_def roster_upd_fields by simp_all

lemma roster_before_lookup:
  "jlookup (roster_before e) ''t'' = Some (JStr (sso_event_type_name (ev_type e)))"
  "jlookup (roster_before e) ''az'' = Some (JDouble (ev_az e))"
  "jlookup (roster_before e) ''roster'' = None" "jlookup (roster_before e) ''rx_has'' = None"
proof -
  have k: "keys_in (header_keys @ state_keys @ butlast predict_keys) (roster_before e)"
    unfolding roster_before_def keys_in_simps using block_in(1,2) [of e]
    by (auto simp: keys_in_def list_all_iff predict_fields_def predict_keys_def)
  show "jlookup (roster_before e) ''roster'' = None" "jlookup (roster_before e) ''rx_has'' = None"
    by (rule keys_in_None [OF k], simp add: header_keys_def state_keys_def predict_keys_def)+
  show "jlookup (roster_before e) ''t'' = Some (JStr (sso_event_type_name (ev_type e)))"
    "jlookup (roster_before e) ''az'' = Some (JDouble (ev_az e))"
    by (simp_all add: roster_before_def header_fields_def state_fields_def type_name_ne cong: if_cong)
qed

lemma string_rest_set: "json_string_rest p = Some q \<Longrightarrow> set q \<subseteq> set p"
proof (induction p arbitrary: q rule: json_string_rest.induct)
  case (2 c p)
  then show ?case by (cases "c = CHR 0x5C") (fastforce split: list.splits if_splits)+
qed simp

lemma nested_open: "CHR '']'' \<notin> set t \<Longrightarrow> json_skip_nested CHR ''['' CHR '']'' d t = None"
proof (induction t arbitrary: d rule: length_induct)
  case (1 t)
  show ?case
  proof (cases t)
    case (Cons c q)
    have IH: "json_skip_nested CHR ''['' CHR '']'' d' r = None" if "length r < length t" "set r \<subseteq> set t" for d' r
      using 1 that by blast
    have "set r \<subseteq> set t \<and> length r < length t" if "json_skip_string t = Some r" for r
      using that string_rest_set [of q r] json_skip_string_length [OF that] by (auto simp: Cons json_skip_string_def split: if_splits)
    moreover have "c \<noteq> CHR '']''" using 1(2) by (auto simp: Cons)
    moreover have "json_skip_nested CHR ''['' CHR '']'' d' q = None" for d' by (rule IH) (auto simp: Cons)
    ultimately show ?thesis
      using IH unfolding Cons by (subst json_skip_nested.simps) (auto split: option.split)
  qed (simp add: json_skip_nested.simps)
qed

lemma append_pieces_fits: "length out \<le> cap \<Longrightarrow> fst (append_pieces cap out ss) \<longleftrightarrow> length out + length (concat ss) \<le> cap"
  by (induction ss arbitrary: out) (auto simp: json_append_def)

lemma append_pieces_prefix: "\<exists>t. snd (append_pieces cap out ss) = out @ t \<and> set t \<subseteq> set (concat ss)"
proof (induction ss arbitrary: out)
  case (Cons s ss)
  then obtain t where "snd (append_pieces cap (out @ s) ss) = out @ s @ t \<and> set t \<subseteq> set (concat ss)"
    by (metis append_assoc)
  then show ?case by (auto simp: json_append_def)
qed simp

lemma append_pieces_last:
  "\<not> fst (append_pieces cap out (ss @ [s])) \<Longrightarrow> snd (append_pieces cap out (ss @ [s])) = snd (append_pieces cap out ss)"
  by (induction ss arbitrary: out) (auto split: option.splits)

lemma append_pieces_cap: "length out \<le> cap \<Longrightarrow> length (snd (append_pieces cap out ss)) \<le> cap"
  by (induction ss arbitrary: out) (auto simp: json_append_def)

definition no_bracket :: "string \<Rightarrow> bool" where
  "no_bracket s \<longleftrightarrow> CHR '']'' \<notin> set s"

lemma hex_no_bracket: "n < 16 \<Longrightarrow> CHR '']'' \<noteq> hex_digit_char n"
proof -
  have "list_all (\<lambda>n. CHR '']'' \<noteq> hex_digit_char n) [0..<16]" by code_simp
  then show "n < 16 \<Longrightarrow> CHR '']'' \<noteq> hex_digit_char n" by (simp add: list_all_iff)
qed

lemma pieces_no_bracket: "no_bracket s \<Longrightarrow> CHR '']'' \<notin> set (concat (string_pieces s))"
  by (auto simp: string_pieces_def no_bracket_def json_escape_def hex_no_bracket split: if_splits)

lemma entries_no_bracket:
  "list_all (\<lambda>r. no_bracket (re_user r) \<and> no_bracket (re_role r) \<and> no_bracket (re_since r)) rs \<Longrightarrow>
   CHR '']'' \<notin> set (concat (entries_pieces first rs))"
  by (induction rs arbitrary: first)
    (simp_all add: entry_pieces_def roster_key_def pieces_no_bracket del: set_concat)

text \<open>A roster that was cut short is not a value, and takes what follows it along.\<close>

lemma cut_roster_unread:
  assumes "fst (sso_event_set_roster e entries) = -1" "CHR '']'' \<notin> set rest"
    "list_all (\<lambda>r. no_bracket (re_user r) \<and> no_bracket (re_role r) \<and> no_bracket (re_since r)) entries"
  shows "\<exists>t. snd (sso_event_set_roster e entries) = e\<lparr>ev_roster_json := CHR ''['' # t\<rparr> \<and> json_skip_value ((CHR ''['' # t) @ rest) = None"
proof -
  let ?ps = "entries_pieces True entries"
  let ?out = "append_pieces 1023 [] (''['' # ?ps @ ['']''])"
  have f: "\<not> fst ?out" using assms(1) by (auto simp: sso_event_set_roster_def simp del: append_pieces.simps split: prod.splits if_splits)
  have step: "?out = append_pieces 1023 ''['' (?ps @ ['']''])" by (simp add: json_append_def)
  have "snd ?out = snd (append_pieces 1023 ''['' ?ps)" using f append_pieces_last unfolding step by blast
  then have "\<exists>t. snd ?out = CHR ''['' # t \<and> CHR '']'' \<notin> set t"
    using append_pieces_prefix [of 1023 "''[''" ?ps] entries_no_bracket [OF assms(3), of True] by auto
  then obtain t where t: "snd ?out = CHR ''['' # t" "CHR '']'' \<notin> set t" by blast
  then have "json_skip_value ((CHR ''['' # t) @ rest) = None"
    using nested_open [of "t @ rest" 1] assms(2)
    by (simp add: json_skip_value_def json_skip_ws_def json_ws_def json_skip_nested.simps [of _ _ _ "CHR ''['' # _"])
  then show ?thesis using t(1) by (auto simp: sso_event_set_roster_def case_prod_beta simp del: append_pieces.simps)
qed

section \<open>Properties\<close>

text \<open>
  C6: What the encoder writes, the decoder reads back: for every event the C structure can hold,
  the decoded event has the same type, every string with control characters replaced, every
  integer and flag exactly, every floating point number at six significant digits, and zero in
  the fields the event's type and flags do not carry.
\<close>

theorem event_roundtrip:
  "event_ok e \<Longrightarrow> sso_event_encode e out_size = Some line \<Longrightarrow> sso_event_decode line = Some (received e)"
  by (simp add: encode_Some decode_fields)

definition hello_event :: ipc_event where
  "hello_event = zero_ipc_event\<lparr>ev_type := SSO_EVT_HELLO, ev_ts := ''2026-01-02T03:04:05.678Z'', ev_user := ''ana'', ev_role := ''viewer''\<rparr>"

theorem event_roundtrip_witness:
  "event_ok hello_event \<and> (\<exists>line. sso_event_encode hello_event 8000 = Some line \<and> sso_event_decode line = Some (received hello_event))"
proof -
  have ok: "event_ok hello_event" by code_simp
  moreover have "sso_event_encode hello_event 8000 \<noteq> None" by code_simp
  ultimately show ?thesis using event_roundtrip [OF ok] by blast
qed

text \<open>
  C38: The encoder succeeds exactly when the closing brace and newline still fit the buffer, and
  then writes one whole line; otherwise it reports an error. The test admits a line that fills
  the buffer, so that the terminating zero is stored one byte past its end.
\<close>

theorem event_encode_fits:
  "8 \<le> out_size \<Longrightarrow>
   sso_event_encode e out_size =
     (if length (object_text (event_fields e)) \<le> out_size then Some (object_text (event_fields e)) else None)"
  using encode_Some [of e out_size] by (cases "sso_event_encode e out_size") auto

theorem event_encode_fits_witness:
  "sso_event_encode hello_event 75 = Some (object_text (event_fields hello_event)) \<and>
   length (object_text (event_fields hello_event)) = 75 \<and> sso_event_encode hello_event 74 = None"
proof -
  have len: "length (object_text (event_fields hello_event)) = 75" by code_simp
  show ?thesis using event_encode_fits [of 75 hello_event] event_encode_fits [of 74 hello_event] len by simp
qed

text \<open>An operator and fifteen viewers, as the roster of a broadcast lists them.\<close>

definition crowd :: "sso_roster_entry list" where
  "crowd = \<lparr>re_user = ''operator1'', re_role = ''operator'', re_since = []\<rparr> #
     replicate 15 \<lparr>re_user = ''johnathan'', re_role = ''viewer'', re_since = ''2026-01-02T03:04:05.678Z''\<rparr>"

definition session_event :: ipc_event where
  "session_event = zero_ipc_event\<lparr>ev_type := SSO_EVT_STATE, ev_has_state := True, ev_rx_have_session := True\<rparr>"

text \<open>
  C39: A roster too long for its buffer breaks the event it is put into. The error is reported, but
  what was written of the roster stays in the event; when that event is encoded, its reader still
  finds the type and the pointing, but neither a roster nor a receiver session, whether or not the
  sender had one (for names and later texts without a closing bracket).
\<close>

theorem roster_overflow:
  assumes "event_ok e" "ev_has_state e" "sso_event_set_roster e entries = (-1, e')"
    "list_all (\<lambda>r. no_bracket (re_user r) \<and> no_bracket (re_role r) \<and> no_bracket (re_since r)) entries"
    "no_bracket (render (visible (roster_after e)))" "sso_event_encode e' out_size = Some line"
  shows "\<exists>d. sso_event_decode line = Some d \<and> ev_type d = ev_type e \<and> ev_az d = g6 (ev_az e) \<and>
    ev_roster_json d = [] \<and> \<not> ev_rx_have_session d"
proof -
  let ?rest = "(if visible (roster_after e) = [] then [] else CHR '','' # render (visible (roster_after e))) @ [CHR ''}'', CHR 0x0A]"
  obtain t where t: "e' = e\<lparr>ev_roster_json := CHR ''['' # t\<rparr>" "json_skip_value ((CHR ''['' # t) @ ?rest) = None"
    using cut_roster_unread [of e entries ?rest] assms(3-5)
    by (cases "visible (roster_after e) = []") (auto simp: no_bracket_def)
  have st: "ev_has_state e'" "roster_before e' = roster_before e" "roster_after e' = roster_after e"
    using assms(2) by (simp_all add: t(1) roster_upd)
  have vis: "visible (event_fields e') = visible (roster_before e) @ (''roster'', JRaw (CHR ''['' # t)) # visible (roster_after e)"
    unfolding event_fields_roster [OF st(1)] st by (simp add: visible_def t(1))
  have "fields_ok (event_fields e)" using kind_ok_event [OF assms(1)] by (rule kind_ok_fields)
  then have "fields_ok (roster_before e)" unfolding event_fields_roster [OF assms(2)] by simp
  then have ok: "fields_ok (visible (roster_before e))" by (auto simp: fields_ok_def visible_def list_all_iff)
  have line: "line = object_text (event_fields e')" using assms(6) by (simp add: encode_Some)
  note get = get_broken [OF vis ok _ _ _ t(2), folded line]
  have g: "json_get_field line key = (case jlookup (roster_before e) key of None \<Rightarrow> Malformed | Some v \<Rightarrow> Found (jbody v))" for key
    by (rule get) (simp_all add: plain_key_def)
  have ty: "json_get_string line ''t'' 32 = (1, sso_event_type_name (ev_type e))"
    by (cases "ev_type e") (simp_all add: json_get_string_def g roster_before_lookup jbody_def json_unescape_into_def unescape_escaped
        sso_event_type_name_def g_event_types_def demote_def chr_code_def)
  have az: "json_get_double line ''az'' = Found (g6 (ev_az e))"
    using strtod_fmt_g6 [of "ev_az e"] length_snprintf [of 40 "fmt_g6 (ev_az e)"]
    by (simp add: json_get_double_def json_get_number_def g roster_before_lookup jbody_def)
  have "json_get_raw line ''roster'' 1024 = (-1, [])" "json_get_bool line ''rx_has'' = Malformed"
    by (simp_all add: json_get_raw_def json_get_bool_def g roster_before_lookup)
  then show ?thesis by (simp add: sso_event_decode_def Let_def ty az type_from_name found_def)
qed

theorem roster_overflow_witness:
  "\<exists>e' line d. sso_event_set_roster session_event crowd = (-1, e') \<and> sso_event_encode e' 8000 = Some line \<and>
     ev_rx_have_session e' \<and> sso_event_decode line = Some d \<and> ev_type d = SSO_EVT_STATE \<and> ev_roster_json d = [] \<and> \<not> ev_rx_have_session d"
proof -
  have ok: "event_ok session_event" by code_simp
  have nb: "list_all (\<lambda>r. no_bracket (re_user r) \<and> no_bracket (re_role r) \<and> no_bracket (re_since r)) crowd"
    "no_bracket (render (visible (roster_after session_event)))" by code_simp+
  let ?out = "append_pieces 1023 [] (''['' # entries_pieces True crowd @ ['']''])"
  have "\<not> length (concat (entries_pieces True crowd)) \<le> 1021" by code_simp
  then have "\<not> fst ?out" by (simp add: append_pieces_fits del: append_pieces.simps)
  then have e': "sso_event_set_roster session_event crowd = (-1, session_event\<lparr>ev_roster_json := snd ?out\<rparr>)"
    by (simp add: sso_event_set_roster_def case_prod_beta del: append_pieces.simps)
  let ?e = "session_event\<lparr>ev_roster_json := snd ?out\<rparr>"
  let ?n = "\<lambda>fs. sum_list (map (\<lambda>f. length (field_text f) + 1) (visible fs))"
  have "?n (roster_before session_event) \<le> 400 \<and> ?n (roster_after session_event) \<le> 200" by code_simp
  moreover have "ev_has_state ?e" by (simp add: session_event_def)
  moreover have "length (snd ?out) \<le> 1023" by (rule append_pieces_cap) simp
  ultimately have "?n (event_fields ?e) \<le> 2000" by (simp add: event_fields_roster roster_upd visible_def field_text_def del: append_pieces.simps)
  then have "length (object_text (event_fields ?e)) \<le> 8000" using render_length [of "visible (event_fields ?e)"] by (simp add: object_text_def)
  then have "sso_event_encode ?e 8000 = Some (object_text (event_fields ?e))" by (simp add: encode_Some)
  from roster_overflow [OF ok _ e' nb this] obtain d where "sso_event_decode (object_text (event_fields ?e)) = Some d"
    "ev_type d = SSO_EVT_STATE" "ev_roster_json d = []" "\<not> ev_rx_have_session d" by (auto simp: session_event_def)
  moreover have "ev_rx_have_session ?e" by (simp add: session_event_def)
  ultimately show ?thesis using e' \<open>sso_event_encode ?e 8000 = _\<close> by blast
qed

end
