(* ===== verification/IPC_Socket.thy ===== *)
theory IPC_Socket
  imports IPC_Wire
begin

text \<open>
  The socket loops that \<^verbatim>\<open>src/src/ipc/sso_ipc_server.c\<close> and \<^verbatim>\<open>sso_ipc_client.c\<close> share, and the client.
  What the kernel will answer to the next calls of \<^verbatim>\<open>read\<close> and \<^verbatim>\<open>write\<close> on a descriptor is a list
  of results; a list that has run out answers that the call would block. The loops of the two
  files are the same but for what is done with a line, which is a parameter here.
\<close>

section \<open>Reading lines\<close>

definition SSO_IPC_LINE_MAX :: nat where "SSO_IPC_LINE_MAX = 8000"
definition SSO_IPC_READ_BUF :: nat where "SSO_IPC_READ_BUF = 8192"
definition SSO_IPC_WRITE_BUF :: nat where "SSO_IPC_WRITE_BUF = 32768"

datatype read_result = RData string | REof | RAgain | RFail

datatype write_result = WBytes nat | WAgain | WFail

abbreviation newline :: char where "newline \<equiv> CHR 0x0A"

text \<open>The line up to the first newline, if the buffer holds one, and what follows it.\<close>

fun take_line :: "string \<Rightarrow> (string \<times> string) option" where
  "take_line [] = None"
| "take_line (c # buf) = (if c = newline then Some ([], buf) else map_option (\<lambda>(l, r). (c # l, r)) (take_line buf))"

lemma take_line_length: "take_line buf = Some (line, rest) \<Longrightarrow> length rest < length buf"
  by (induction buf arbitrary: line) (auto split: if_splits)

text \<open>The inner loop: hand over every complete line in the buffer.\<close>

function drain_lines :: "(string \<Rightarrow> 's \<Rightarrow> 's) \<Rightarrow> string \<Rightarrow> 's \<Rightarrow> string \<times> 's" where
  "drain_lines on_line buf s =
     (case take_line buf of None \<Rightarrow> (buf, s) | Some (line, rest) \<Rightarrow> drain_lines on_line rest (on_line line s))"
  by pat_completeness auto
termination
  by (relation "measure (\<lambda>(_, buf, _). length buf)") (auto dest: take_line_length)

declare drain_lines.simps [simp del]

text \<open>
  The outer loop, until the kernel has nothing more: whether the connection is over, the results
  not yet asked for, the bytes kept in the buffer and the state.
\<close>

definition read_room :: "string \<Rightarrow> nat" where
  "read_room buf = SSO_IPC_READ_BUF - length buf - 1"

fun read_weight :: "read_result \<Rightarrow> nat" where
  "read_weight (RData d) = Suc (length d)"
| "read_weight _ = 1"

function drain_read :: "(string \<Rightarrow> 's \<Rightarrow> 's) \<Rightarrow> read_result list \<Rightarrow> string \<Rightarrow> 's \<Rightarrow> bool \<times> read_result list \<times> string \<times> 's" where
  "drain_read on_line rs buf s =
     (if length buf \<ge> SSO_IPC_READ_BUF - 1 then (True, rs, buf, s)
      else case rs of [] \<Rightarrow> (False, [], buf, s)
        | REof # rs' \<Rightarrow> (True, rs', buf, s)
        | RAgain # rs' \<Rightarrow> (False, rs', buf, s)
        | RFail # rs' \<Rightarrow> (True, rs', buf, s)
        | RData d # rs' \<Rightarrow>
            (if d = [] then (True, rs', buf, s)
             else let n = read_room buf; rs'' = (if length d \<le> n then rs' else RData (drop n d) # rs')
                  in case drain_lines on_line (buf @ take n d) s of (buf', s') \<Rightarrow> drain_read on_line rs'' buf' s'))"
  by pat_completeness auto
termination
  by (relation "measure (\<lambda>(_, rs, _, _). sum_list (map read_weight rs))")
    (auto simp: read_room_def SSO_IPC_READ_BUF_def)

declare drain_read.simps [simp del]

section \<open>Writing\<close>

text \<open>The write loop: whether the connection is over, the results left, the bytes still queued and the bytes the kernel took.\<close>

fun drain_write :: "write_result list \<Rightarrow> string \<Rightarrow> string \<Rightarrow> bool \<times> write_result list \<times> string \<times> string" where
  "drain_write ws [] taken = (False, ws, [], taken)"
| "drain_write [] buf taken = (False, [], buf, taken)"
| "drain_write (WAgain # ws) buf taken = (False, ws, buf, taken)"
| "drain_write (WFail # ws) buf taken = (True, ws, buf, taken)"
| "drain_write (WBytes n # ws) buf taken =
     (if n = 0 then (True, ws, buf, taken) else drain_write ws (drop n buf) (taken @ take n buf))"

lemma drain_write_bytes:
  "drain_write ws buf taken = (over, ws', buf', taken') \<Longrightarrow> taken' @ buf' = taken @ buf \<and> length buf' \<le> length buf \<and> (\<exists>t. taken' = taken @ t)"
  by (induction ws buf taken rule: drain_write.induct) (auto split: if_splits)

section \<open>The lines of a stream\<close>

text \<open>What a stream of bytes holds: its complete lines, and the rest.\<close>

function lines_of :: "string \<Rightarrow> string list \<times> string" where
  "lines_of buf = (case take_line buf of None \<Rightarrow> ([], buf) | Some (line, rest) \<Rightarrow> (case lines_of rest of (ls, r) \<Rightarrow> (line # ls, r)))"
  by pat_completeness auto
termination
  by (relation "measure length") (auto dest: take_line_length)

declare lines_of.simps [simp del]

lemma take_line_None: "take_line buf = None \<longleftrightarrow> newline \<notin> set buf"
  by (induction buf) auto

lemma take_line_append:
  "take_line (a @ b) =
     (case take_line a of Some (l, r) \<Rightarrow> Some (l, r @ b) | None \<Rightarrow> map_option (\<lambda>(l, r). (a @ l, r)) (take_line b))"
  by (induction a; cases "take_line b") (auto split: option.split)

lemma take_line_Cons: "newline \<notin> set l \<Longrightarrow> take_line (l @ newline # r) = Some (l, r)"
proof -
  assume "newline \<notin> set l"
  then have "take_line l = None" by (simp add: take_line_None)
  moreover have "take_line (newline # r) = Some ([], r)" by simp
  ultimately show ?thesis by (simp add: take_line_append)
qed

lemma lines_of_append: "lines_of (a @ b) = (case lines_of a of (ls, r) \<Rightarrow> (case lines_of (r @ b) of (ls', r') \<Rightarrow> (ls @ ls', r')))"
proof (induction a rule: lines_of.induct)
  case (1 a)
  show ?case
  proof (cases "take_line a")
    case None
    then show ?thesis by (simp add: lines_of.simps [of a] split: prod.split)
  next
    case (Some p)
    then show ?thesis
      using 1 [OF Some] by (cases p) (simp add: lines_of.simps [of a] lines_of.simps [of "a @ b"] take_line_append split: prod.split)
  qed
qed

lemma lines_of_concat:
  "list_all (\<lambda>l. newline \<notin> set l) ls \<Longrightarrow> lines_of (concat (map (\<lambda>l. l @ [newline]) ls)) = (ls, [])"
proof (induction ls)
  case (Cons l ls)
  then show ?case by (subst lines_of.simps) (simp add: take_line_Cons)
qed (simp add: lines_of.simps)

lemma lines_of_rest: "lines_of buf = (ls, r) \<Longrightarrow> newline \<notin> set r \<and> length r \<le> length buf"
proof (induction buf arbitrary: ls rule: lines_of.induct)
  case (1 buf)
  show ?case
  proof (cases "take_line buf")
    case None
    then show ?thesis using 1(2) lines_of.simps [of buf] take_line_None [of buf] by simp
  next
    case (Some p)
    obtain l rest where p: "p = (l, rest)" by (cases p)
    then obtain ls' where "lines_of rest = (ls', r)" using 1(2) Some lines_of.simps [of buf] by (auto split: prod.splits)
    then have "newline \<notin> set r \<and> length r \<le> length rest" using 1(1) Some p by simp
    then show ?thesis using take_line_length [of buf l rest] Some p by simp
  qed
qed

lemma take_line_split: "take_line buf = Some (l, r) \<Longrightarrow> buf = l @ newline # r"
  by (induction buf arbitrary: l) (auto split: if_splits)

lemma lines_of_split: "lines_of buf = (ls, r) \<Longrightarrow> buf = concat (map (\<lambda>l. l @ [newline]) ls) @ r"
proof (induction buf arbitrary: ls rule: lines_of.induct)
  case (1 buf)
  show ?case
  proof (cases "take_line buf")
    case None
    then show ?thesis using 1(2) lines_of.simps [of buf] by simp
  next
    case (Some p)
    obtain l rest where p: "p = (l, rest)" by (cases p)
    then obtain ls' where ls': "lines_of rest = (ls', r)" "ls = l # ls'" using 1(2) Some lines_of.simps [of buf] by (auto split: prod.splits)
    then have "rest = concat (map (\<lambda>l. l @ [newline]) ls') @ r" using 1(1) Some p by simp
    then show ?thesis using take_line_split [of buf l rest] Some p ls'(2) by simp
  qed
qed

lemma lines_of_plain: "newline \<notin> set r \<Longrightarrow> lines_of r = ([], r)"
  by (subst lines_of.simps) (simp add: take_line_None [THEN iffD2])

lemma drain_lines_eq: "drain_lines on_line buf s = (case lines_of buf of (ls, r) \<Rightarrow> (r, fold on_line ls s))"
  by (induction on_line buf s rule: drain_lines.induct)
    (subst drain_lines.simps, subst lines_of.simps, simp split: option.split prod.split)

section \<open>Reading is independent of how the stream is cut\<close>

definition short :: "string list \<times> string \<Rightarrow> bool" where
  "short lr \<longleftrightarrow> list_all (\<lambda>l. length l < SSO_IPC_READ_BUF - 1) (fst lr) \<and> length (snd lr) < SSO_IPC_READ_BUF - 1"

lemma short_prefix: "newline \<notin> set r \<Longrightarrow> short (lines_of (r @ y)) \<Longrightarrow> length r < SSO_IPC_READ_BUF - 1"
proof -
  assume r: "newline \<notin> set r" "short (lines_of (r @ y))"
  have "take_line r = None" using r(1) by (simp add: take_line_None)
  then show ?thesis using r(2) lines_of.simps [of "r @ y"]
    by (cases "take_line y") (auto simp: take_line_append short_def split: prod.splits)
qed

lemma drain_read_data:
  assumes "list_all (\<lambda>d. d \<noteq> []) ds" "newline \<notin> set buf" "short (lines_of (buf @ concat ds))"
  shows "drain_read on_line (map RData ds) buf s =
    (case lines_of (buf @ concat ds) of (ls, r) \<Rightarrow> (False, [], r, fold on_line ls s))"
  using assms
proof (induction "sum_list (map (\<lambda>d. Suc (length d)) ds)" arbitrary: ds buf s rule: less_induct)
  case less
  have room: "length buf < SSO_IPC_READ_BUF - 1" by (rule short_prefix) (use less.prems in auto)
  show ?case
  proof (cases ds)
    case Nil
    then show ?thesis
      using room less.prems(2) by (subst drain_read.simps) (simp add: lines_of_plain)
  next
    case (Cons d ds')
    define n where "n = read_room buf"
    define rest where "rest = (if length d \<le> n then ds' else drop n d # ds')"
    have n: "0 < n" using room by (simp add: n_def read_room_def)
    have cat: "buf @ concat ds = (buf @ take n d) @ concat rest" by (simp add: Cons rest_def)
    obtain ls1 r1 where lr: "lines_of (buf @ take n d) = (ls1, r1)" by (cases "lines_of (buf @ take n d)")
    have r1: "newline \<notin> set r1" using lines_of_rest [OF lr] by simp
    have split: "lines_of (buf @ concat ds) = (case lines_of (r1 @ concat rest) of (ls, r) \<Rightarrow> (ls1 @ ls, r))"
      unfolding cat by (subst lines_of_append) (simp add: lr)
    have ok: "list_all (\<lambda>d. d \<noteq> []) rest" using less.prems(1) by (auto simp: Cons rest_def)
    have less': "sum_list (map (\<lambda>d. Suc (length d)) rest) < sum_list (map (\<lambda>d. Suc (length d)) ds)"
      using n by (auto simp: Cons rest_def)
    have sh: "short (lines_of (r1 @ concat rest))" using less.prems(3) unfolding split by (auto simp: short_def split: prod.splits)
    have d: "d \<noteq> []" using less.prems(1) by (simp add: Cons)
    have "drain_read on_line (map RData ds) buf s = drain_read on_line (map RData rest) r1 (fold on_line ls1 s)"
      using room d by (subst drain_read.simps) (simp add: Cons drain_lines_eq lr n_def [symmetric] rest_def Let_def)
    then show ?thesis using less.hyps [OF less' ok r1 sh] by (simp add: split split: prod.split)
  qed
qed

text \<open>Whatever the kernel answers, the buffer keeps room for a terminator and at most one partial line.\<close>

lemma drain_read_step:
  assumes "length buf < SSO_IPC_READ_BUF - 1" "d \<noteq> []" "lines_of (buf @ take (read_room buf) d) = (ls, r)"
  shows "drain_read on_line (RData d # rs) buf s =
    drain_read on_line (if length d \<le> read_room buf then rs else RData (drop (read_room buf) d) # rs) r (fold on_line ls s)"
  using assms by (subst drain_read.simps) (simp add: drain_lines_eq Let_def)

lemma fold_inv: "(\<And>l s. P s \<Longrightarrow> P (f l s)) \<Longrightarrow> P s \<Longrightarrow> P (fold f ls s)"
  by (induction ls arbitrary: s) simp_all

lemma drain_read_inv:
  assumes "\<And>l s. P s \<Longrightarrow> P (on_line l s)" "P s" "length buf < SSO_IPC_READ_BUF" "newline \<notin> set buf"
    "drain_read on_line rs buf s = (over, rs', buf', s')"
  shows "length buf' < SSO_IPC_READ_BUF \<and> newline \<notin> set buf' \<and> P s'"
  using assms(2-5)
proof (induction "sum_list (map read_weight rs)" arbitrary: rs buf s rule: less_induct)
  case less
  note simps = drain_read.simps [of on_line rs buf s]
  show ?case
  proof (cases "SSO_IPC_READ_BUF - 1 \<le> length buf \<or> (\<forall>d rs'. rs = RData d # rs' \<longrightarrow> d = [])")
    case True
    then show ?thesis
    proof (cases rs)
      case (Cons r rs1)
      show ?thesis using True less.prems simps by (cases r) (auto simp: Cons split: if_splits)
    qed (use less.prems simps in \<open>auto split: if_splits\<close>)
  next
    case False
    then obtain d rs1 where rs: "rs = RData d # rs1" "d \<noteq> []" and room: "length buf < SSO_IPC_READ_BUF - 1" by auto
    define rs2 where "rs2 = (if length d \<le> read_room buf then rs1 else RData (drop (read_room buf) d) # rs1)"
    obtain ls r where lr: "lines_of (buf @ take (read_room buf) d) = (ls, r)" by fastforce
    have "length r < SSO_IPC_READ_BUF" "newline \<notin> set r"
      using lines_of_rest [OF lr] room by (auto simp: read_room_def)
    moreover have "P (fold on_line ls s)" using assms(1) less.prems(1) by (rule fold_inv)
    moreover have "drain_read on_line rs2 r (fold on_line ls s) = (over, rs', buf', s')"
      using less.prems(4) drain_read_step [OF room rs(2) lr, of on_line rs1 s, folded rs2_def] by (simp add: rs(1))
    moreover have "sum_list (map read_weight rs2) <
      sum_list (map read_weight rs)"
      using rs room by (auto simp: rs2_def read_room_def)
    ultimately show ?thesis using less.hyps by blast
  qed
qed

section \<open>The client\<close>

record ipc_client =
  cli_fd :: int
  cli_read_buf :: string
  cli_write_buf :: string
  cli_connected :: bool
  cli_in :: "read_result list"
  cli_wr :: "write_result list"
  cli_out :: string
  cli_events :: "ipc_event list"

text \<open>The handle after a successful \<^verbatim>\<open>sso_ipc_client_connect\<close> with its descriptor.\<close>

definition sso_ipc_client_connect :: "int \<Rightarrow> ipc_client" where
  "sso_ipc_client_connect fd =
     \<lparr>cli_fd = fd, cli_read_buf = [], cli_write_buf = [], cli_connected = True, cli_in = [], cli_wr = [], cli_out = [], cli_events = []\<rparr>"

definition sso_ipc_client_is_connected :: "ipc_client \<Rightarrow> bool" where
  "sso_ipc_client_is_connected c = cli_connected c"

text \<open>A line as the decoder sees it: up to the first zero byte. The events the callback got are kept in order.\<close>

definition cstr :: "string \<Rightarrow> string" where
  "cstr s = takeWhile (\<lambda>c. c \<noteq> CHR 0x00) s"

definition client_line :: "string \<Rightarrow> ipc_event list \<Rightarrow> ipc_event list" where
  "client_line line evs = (case sso_event_decode (cstr line) of None \<Rightarrow> evs | Some e \<Rightarrow> evs @ [e])"

definition client_drain_read :: "ipc_client \<Rightarrow> bool \<times> ipc_client" where
  "client_drain_read c =
     (case drain_read client_line (cli_in c) (cli_read_buf c) (cli_events c) of
        (over, rs, buf, evs) \<Rightarrow>
          (over, c\<lparr>cli_in := rs, cli_read_buf := buf, cli_events := evs, cli_connected := cli_connected c \<and> \<not> over\<rparr>))"

definition client_drain_write :: "ipc_client \<Rightarrow> ipc_client" where
  "client_drain_write c =
     (case drain_write (cli_wr c) (cli_write_buf c) (cli_out c) of
        (over, ws, buf, out) \<Rightarrow> c\<lparr>cli_wr := ws, cli_write_buf := buf, cli_out := out, cli_connected := cli_connected c \<and> \<not> over\<rparr>)"

text \<open>The answers of \<^verbatim>\<open>poll\<close>; for one descriptor, what it reports.\<close>

record revents =
  rv_err :: bool
  rv_in :: bool
  rv_out :: bool

datatype 'a poll_result = PollIntr | PollErr | PollNone | PollReady 'a

definition sso_ipc_client_step :: "revents poll_result \<Rightarrow> ipc_client \<Rightarrow> int \<times> ipc_client" where
  "sso_ipc_client_step pr c =
     (if cli_fd c < 0 \<or> \<not> cli_connected c then (1, c)
      else case pr of PollIntr \<Rightarrow> (0, c) | PollErr \<Rightarrow> (-1, c) | PollNone \<Rightarrow> (0, c)
        | PollReady rv \<Rightarrow>
            if rv_err rv then (1, c\<lparr>cli_connected := False\<rparr>)
            else case (if rv_in rv then client_drain_read c else (False, c)) of
                (over, c1) \<Rightarrow>
                  if over then (1, c1)
                  else (0, if rv_out rv \<and> cli_write_buf c \<noteq> [] then client_drain_write c1 else c1))"

definition sso_ipc_client_send :: "ipc_client \<Rightarrow> string \<Rightarrow> int \<times> ipc_client" where
  "sso_ipc_client_send c line =
     (if \<not> cli_connected c then (-1, c)
      else if length (cli_write_buf c) + length line > SSO_IPC_WRITE_BUF then (-1, c\<lparr>cli_connected := False\<rparr>)
      else (0, client_drain_write (c\<lparr>cli_write_buf := cli_write_buf c @ line\<rparr>)))"

section \<open>The lines the encoder writes\<close>

text \<open>An encoded event is one line: neither a newline nor a zero byte inside it.\<close>

definition clean :: "string \<Rightarrow> bool" where
  "clean s \<longleftrightarrow> list_all (\<lambda>c. c \<noteq> newline \<and> c \<noteq> CHR 0x00) s"

definition wire_text :: "string \<Rightarrow> bool" where
  "wire_text line \<longleftrightarrow> (\<exists>l. line = l @ [newline] \<and> clean l) \<and> length line \<le> SSO_IPC_LINE_MAX"

definition wire_line :: "ipc_event \<Rightarrow> string \<Rightarrow> bool" where
  "wire_line e line \<longleftrightarrow> event_ok e \<and> clean (ev_roster_json e) \<and> sso_event_encode e SSO_IPC_LINE_MAX = Some line"

text \<open>What the reader makes of a line: the newline becomes the terminator.\<close>

definition line_event :: "string \<Rightarrow> ipc_event option" where
  "line_event line = sso_event_decode (cstr (butlast line))"

lemma clean_simps [simp]:
  "clean []" "clean (c # s) \<longleftrightarrow> c \<noteq> newline \<and> c \<noteq> CHR 0x00 \<and> clean s" "clean (a @ b) \<longleftrightarrow> clean a \<and> clean b"
  by (simp_all add: clean_def)

lemma clean_bare: "bare s \<Longrightarrow> clean s"
  by (auto simp: bare_def clean_def list_all_iff isalnum_def isdigit_def islower_def isupper_def chr_code_def)

lemma clean_hex: "n < 16 \<Longrightarrow> clean [hex_digit_char n]"
proof -
  have "list_all (\<lambda>n. clean [hex_digit_char n]) [0..<16]" by code_simp
  then show "n < 16 \<Longrightarrow> clean [hex_digit_char n]" by (simp add: list_all_iff)
qed

lemma clean_escaped: "clean (escaped s)"
proof (induction s)
  case (Cons c s)
  have "clean (json_escape c)"
    using clean_hex [of "chr_code c div 16"] clean_hex [of "chr_code c mod 16"]
    by (auto simp: json_escape_def chr_code_def)
  then show ?case using Cons by (simp add: escaped_def)
qed (simp add: escaped_def)

lemma clean_jtext: "(\<And>r. v = JRaw r \<Longrightarrow> clean r) \<Longrightarrow> clean (jtext v)"
  using clean_escaped clean_bare bare_take bare_show_int bare_fmt_g6
  by (cases v) (auto simp: snprintf_def bare_def)

lemma clean_render: "list_all (\<lambda>(k, v). clean k \<and> clean (jtext v)) fs \<Longrightarrow> clean (render fs)"
  by (induction fs rule: render.induct) (auto simp: field_text_def)

lemma clean_keys: "list_all (\<lambda>k. clean k) (header_keys @ state_keys @ predict_keys @ auto_keys @ rx_keys @ slot_keys @ ribbon_keys @ stats_keys @ tx_keys @ cmd_keys @ audio_keys)"
  by code_simp

lemma raw_fields: "(k, JRaw r) \<in> set (event_fields e) \<Longrightarrow> r = ev_roster_json e"
  by (auto simp: event_fields_def header_fields_def state_fields_def predict_fields_def auto_fields_def rx_fields_def slots_fields_def slot_fields_def
      ribbon_fields_def stats_fields_def tx_fields_def cmd_fields_def rate_fields_def audio_fields_def split: if_splits)

lemma clean_event:
  assumes "clean (ev_roster_json e)"
  shows "clean (render (visible (event_fields e)))"
proof (rule clean_render, unfold list_all_iff, clarify)
  fix k v
  assume "(k, v) \<in> set (visible (event_fields e))"
  then have ev: "(k, v) \<in> set (event_fields e)" by (auto simp: visible_def)
  obtain ks fs where b: "(ks, fs) \<in> set (event_blocks e)" "(k, v) \<in> set fs"
    using ev by (auto simp: event_fields_blocks)
  then have "k \<in> set ks" using event_block_keys [of e] by (fastforce simp: list_all_iff keys_in_def)
  then have "k \<in> set (header_keys @ state_keys @ predict_keys @ auto_keys @ rx_keys @ slot_keys @ ribbon_keys @ stats_keys @ tx_keys @ cmd_keys @ audio_keys)"
    using b(1) by (auto simp: event_blocks_def)
  then have "clean k" using clean_keys by (simp only: list_all_iff)
  then show "clean k \<and> clean (jtext v)" using ev clean_jtext [of v] raw_fields [of k _ e] assms by blast
qed

text \<open>The decoder looks at its line only through the fields it finds.\<close>

lemma decode_cong: "(\<And>key. json_get_field a key = json_get_field b key) \<Longrightarrow> sso_event_decode a = sso_event_decode b"
proof -
  assume "\<And>key. json_get_field a key = json_get_field b key"
  then have g: "json_get_string a = json_get_string b" "json_get_int a = json_get_int b" "json_get_double a = json_get_double b"
    "json_get_bool a = json_get_bool b" "json_get_raw a = json_get_raw b"
    by (simp_all add: fun_eq_iff json_get_string_def json_get_int_def json_get_double_def json_get_number_def json_get_bool_def json_get_raw_def)
  have d: "decode_slot a = decode_slot b" "decode_has_state a = decode_has_state b" "decode_csp a = decode_csp b" "decode_ribbon a = decode_ribbon b"
    by (simp_all add: fun_eq_iff decode_slot_def decode_has_state_def decode_csp_def decode_ribbon_def g)
  show ?thesis unfolding sso_event_decode_def g d by (rule refl)
qed

lemma cstr_clean: "clean s \<Longrightarrow> cstr s = s"
  by (auto simp: cstr_def clean_def list_all_iff takeWhile_eq_all_conv)

lemma encode_text: "clean (ev_roster_json e) \<Longrightarrow> sso_event_encode e SSO_IPC_LINE_MAX = Some line \<Longrightarrow> wire_text line"
  using clean_event [of e] unfolding wire_text_def
  by (auto simp: encode_Some object_text_def intro!: exI [of _ "CHR ''{'' # render (visible (event_fields e)) @ [CHR ''}'']"])

lemma wire_line_event:
  assumes "wire_line e line"
  shows "wire_text line" "line_event line = Some (received e)"
proof -
  let ?l = "CHR ''{'' # render (visible (event_fields e)) @ [CHR ''}'']"
  have ok: "event_ok e" and line: "line = object_text (event_fields e)" and cl: "clean ?l"
    using assms clean_event [of e] by (auto simp: wire_line_def encode_Some)
  show "wire_text line" using assms encode_text by (auto simp: wire_line_def)
  have "json_get_field ?l key = json_get_field line key" for key
    using get_field_tail [OF kind_ok_fields [OF kind_ok_event [OF ok]], of "[]"] get_field_object [OF kind_ok_fields [OF kind_ok_event [OF ok]]]
    unfolding line by simp
  then have "sso_event_decode (cstr ?l) = Some (received e)"
    using decode_cong [of ?l line] decode_fields [OF ok] cl by (simp add: cstr_clean line)
  then show "line_event line = Some (received e)" by (simp add: line_event_def line object_text_def butlast_append)
qed

lemma wire_line_events: "list_all2 wire_line es ls \<Longrightarrow> list_all wire_text ls \<and> List.map_filter line_event ls = map received es"
  by (induction es ls rule: list_all2_induct) (auto simp: wire_line_event map_filter_simps)

section \<open>What a client reads\<close>

lemma wire_stream_lines: "list_all wire_text ls \<Longrightarrow> lines_of (concat ls) = (map butlast ls, [])"
proof (induction ls)
  case (Cons line ls)
  then obtain l where "line = l @ [newline]" "newline \<notin> set l" by (auto simp: wire_text_def clean_def list_all_iff)
  then show ?case using Cons by (subst lines_of.simps) (simp add: take_line_Cons)
qed (simp add: lines_of.simps)

lemma fold_client_lines: "fold client_line (map butlast ls) evs = evs @ List.map_filter line_event ls"
  by (induction ls arbitrary: evs) (auto simp: client_line_def line_event_def map_filter_simps split: option.split)

text \<open>
  However the bytes are cut into reads, and wherever they stop: the client gets the events of the
  lines that are complete, in order, and stays connected.
\<close>

lemma client_reads:
  assumes "list_all wire_text ls" "list_all (\<lambda>d. d \<noteq> []) ds" "concat ds @ rest = concat ls"
    "cli_read_buf c = []" "cli_in c = map RData ds"
  shows "\<exists>n buf. client_drain_read c =
      (False, c\<lparr>cli_in := [], cli_read_buf := buf, cli_events := cli_events c @ List.map_filter line_event (take n ls)\<rparr>) \<and>
      concat ds = concat (take n ls) @ buf \<and> newline \<notin> set buf"
proof -
  note ts = wire_stream_lines [OF assms(1)]
  obtain l1 r1 where l1: "lines_of (concat ds) = (l1, r1)" by fastforce
  then obtain l2 where l2: "lines_of (r1 @ rest) = (l2, [])" "map butlast ls = l1 @ l2"
    using ts lines_of_append [of "concat ds" rest] by (auto simp: assms(3) split: prod.splits)
  have "list_all (\<lambda>t. length t < SSO_IPC_READ_BUF - 1) (map butlast ls)"
    using assms(1) by (auto simp: list_all_iff wire_text_def SSO_IPC_LINE_MAX_def SSO_IPC_READ_BUF_def)
  then have sh1: "list_all (\<lambda>t. length t < SSO_IPC_READ_BUF - 1) (l1 @ l2)" by (simp only: l2(2))
  have "short (l2, [])" using sh1 by (simp add: short_def SSO_IPC_READ_BUF_def)
  then have r1: "length r1 < SSO_IPC_READ_BUF - 1" "newline \<notin> set r1"
    using lines_of_rest [OF l1] short_prefix [of r1 rest] l2(1) by simp_all
  then have sh: "short (lines_of ([] @ concat ds))" using sh1 by (simp add: l1 short_def)
  have tk: "l1 = map butlast (take (length l1) ls)" using l2(2) by (simp add: take_map [symmetric])
  have "map (\<lambda>l. l @ [newline]) (map butlast (take (length l1) ls)) = take (length l1) ls"
    using assms(1) by (intro nth_equalityI) (auto simp: list_all_length wire_text_def)
  then have cat: "concat ds = concat (take (length l1) ls) @ r1" using lines_of_split [OF l1] tk by simp
  have "fold client_line l1 (cli_events c) = cli_events c @ List.map_filter line_event (take (length l1) ls)"
    by (subst tk) (rule fold_client_lines)
  then show ?thesis
    using drain_read_data [OF assms(2) _ sh, of client_line "cli_events c"] assms(4,5) l1 cat r1
    by (intro exI [of _ "length l1"] exI [of _ r1]) (simp add: client_drain_read_def)
qed

end
