(* ===== verification/IPC_Server.thy ===== *)
theory IPC_Server
  imports IPC_Socket
begin

text \<open>
  \<^verbatim>\<open>src/src/ipc/sso_ipc_server.c\<close>: the table of client slots and the operations on it. A slot
  carries the kernel's side of its descriptor with it: the answers to come and the bytes taken so
  far. The event callback is a parameter; \<open>ipc_handler\<close> states what the server relies on of it.
\<close>

section \<open>State\<close>

definition SSO_IPC_MAX_CLIENTS :: nat where "SSO_IPC_MAX_CLIENTS = 32"

record ipc_slot =
  sl_fd :: int
  sl_id :: int
  sl_read_buf :: string
  sl_write_buf :: string
  sl_dead :: bool
  sl_user :: string
  sl_role :: string
  sl_since :: string
  sl_peer_uid :: "nat option"
  sl_in :: "read_result list"
  sl_wr :: "write_result list"
  sl_out :: string

datatype accept_result = Accepted nat "nat option" string | AcceptAgain | AcceptRetry | AcceptFail

record 'u ipc_server =
  srv_listen_fd :: int
  clients :: "ipc_slot list"
  next_id :: int
  srv_accepts :: "accept_result list"
  on_event_user :: 'u

type_synonym 'u ipc_handler_fn = "'u ipc_server \<Rightarrow> int \<Rightarrow> ipc_event \<Rightarrow> 'u ipc_server"

definition closed_slot :: ipc_slot where
  "closed_slot = \<lparr>sl_fd = -1, sl_id = 0, sl_read_buf = [], sl_write_buf = [], sl_dead = False, sl_user = [], sl_role = [],
     sl_since = [], sl_peer_uid = None, sl_in = [], sl_wr = [], sl_out = []\<rparr>"

text \<open>The state after a successful \<^verbatim>\<open>sso_ipc_server_open\<close> with the listening descriptor.\<close>

definition sso_ipc_server_open :: "int \<Rightarrow> 'u \<Rightarrow> 'u ipc_server" where
  "sso_ipc_server_open fd user =
     \<lparr>srv_listen_fd = fd, clients = replicate SSO_IPC_MAX_CLIENTS closed_slot, next_id = 1, srv_accepts = [], on_event_user = user\<rparr>"

definition upd_slot :: "nat \<Rightarrow> (ipc_slot \<Rightarrow> ipc_slot) \<Rightarrow> 'u ipc_server \<Rightarrow> 'u ipc_server" where
  "upd_slot i f srv = srv\<lparr>clients := (clients srv)[i := f (clients srv ! i)]\<rparr>"

section \<open>Slots\<close>

definition slot_close :: "ipc_slot \<Rightarrow> ipc_slot" where
  "slot_close s = s\<lparr>sl_fd := -1, sl_dead := False, sl_read_buf := [], sl_write_buf := [], sl_user := [], sl_role := [],
     sl_since := [], sl_peer_uid := None\<rparr>"

definition slot_drain_write :: "ipc_slot \<Rightarrow> ipc_slot" where
  "slot_drain_write s =
     (case drain_write (sl_wr s) (sl_write_buf s) (sl_out s) of
        (over, ws, buf, out) \<Rightarrow> s\<lparr>sl_wr := ws, sl_write_buf := buf, sl_out := out, sl_dead := sl_dead s \<or> over\<rparr>)"

definition slot_queue :: "string \<Rightarrow> ipc_slot \<Rightarrow> ipc_slot" where
  "slot_queue line s =
     (if length (sl_write_buf s) + length line > SSO_IPC_WRITE_BUF then s\<lparr>sl_dead := True\<rparr>
      else s\<lparr>sl_write_buf := sl_write_buf s @ line\<rparr>)"

definition slot_queue_lossy :: "string \<Rightarrow> ipc_slot \<Rightarrow> int \<times> ipc_slot" where
  "slot_queue_lossy line s =
     (if length (sl_write_buf s) + length line > SSO_IPC_WRITE_BUF then (1, s)
      else (0, s\<lparr>sl_write_buf := sl_write_buf s @ line\<rparr>))"

text \<open>Closing the server closes every slot; the structure itself is then released.\<close>

definition sso_ipc_server_close :: "'u ipc_server \<Rightarrow> 'u ipc_server" where
  "sso_ipc_server_close srv = srv\<lparr>clients := map slot_close (clients srv), srv_listen_fd := -1\<rparr>"

section \<open>Accepting and reading\<close>

definition server_alloc_slot :: "'u ipc_server \<Rightarrow> nat option" where
  "server_alloc_slot srv = find (\<lambda>i. sl_fd (clients srv ! i) < 0) [0..<SSO_IPC_MAX_CLIENTS]"

definition accept_slot :: "int \<Rightarrow> nat option \<Rightarrow> string \<Rightarrow> int \<Rightarrow> ipc_slot \<Rightarrow> ipc_slot" where
  "accept_slot fd uid now i s =
     s\<lparr>sl_fd := fd, sl_id := i, sl_read_buf := [], sl_write_buf := [], sl_dead := False, sl_user := [], sl_role := [],
       sl_since := snprintf 40 now, sl_peer_uid := uid, sl_in := [], sl_wr := [], sl_out := []\<rparr>"

fun accept_loop :: "accept_result list \<Rightarrow> 'u ipc_server \<Rightarrow> 'u ipc_server" where
  "accept_loop [] srv = srv\<lparr>srv_accepts := []\<rparr>"
| "accept_loop (AcceptAgain # as) srv = srv\<lparr>srv_accepts := as\<rparr>"
| "accept_loop (AcceptFail # as) srv = srv\<lparr>srv_accepts := as\<rparr>"
| "accept_loop (AcceptRetry # as) srv = accept_loop as srv"
| "accept_loop (Accepted fd uid now # as) srv =
     (case server_alloc_slot srv of None \<Rightarrow> accept_loop as srv
      | Some i \<Rightarrow> accept_loop as ((upd_slot i (accept_slot (int fd) uid now (next_id srv)) srv)\<lparr>next_id := next_id srv + 1\<rparr>))"

definition server_accept :: "'u ipc_server \<Rightarrow> 'u ipc_server" where
  "server_accept srv = accept_loop (srv_accepts srv) srv"

definition note_hello :: "ipc_event \<Rightarrow> ipc_slot \<Rightarrow> ipc_slot" where
  "note_hello e s =
     (let s1 = (if ev_user e \<noteq> [] then s\<lparr>sl_user := snprintf 64 (ev_user e)\<rparr> else s)
      in if ev_role e \<noteq> [] then s1\<lparr>sl_role := snprintf 16 (ev_role e)\<rparr> else s1)"

definition slot_dispatch_line :: "'u ipc_handler_fn \<Rightarrow> nat \<Rightarrow> string \<Rightarrow> 'u ipc_server \<Rightarrow> 'u ipc_server" where
  "slot_dispatch_line on_event i line srv =
     (case sso_event_decode (cstr line) of None \<Rightarrow> srv
      | Some e \<Rightarrow>
          let srv1 = (if ev_type e = SSO_EVT_HELLO then upd_slot i (note_hello e) srv else srv)
          in on_event srv1 (sl_id (clients srv1 ! i)) e)"

definition slot_drain_read :: "'u ipc_handler_fn \<Rightarrow> nat \<Rightarrow> 'u ipc_server \<Rightarrow> 'u ipc_server" where
  "slot_drain_read on_event i srv =
     (case drain_read (slot_dispatch_line on_event i) (sl_in (clients srv ! i)) (sl_read_buf (clients srv ! i)) srv of
        (over, rs, buf, srv') \<Rightarrow> upd_slot i (\<lambda>s. s\<lparr>sl_in := rs, sl_read_buf := buf, sl_dead := sl_dead s \<or> over\<rparr>) srv')"

section \<open>One step of the server\<close>

definition service_slot :: "'u ipc_handler_fn \<Rightarrow> revents \<Rightarrow> bool \<Rightarrow> nat \<Rightarrow> 'u ipc_server \<Rightarrow> 'u ipc_server" where
  "service_slot on_event rv want_out i srv =
     (let srv1 = (if rv_err rv then upd_slot i (\<lambda>s. s\<lparr>sl_dead := True\<rparr>) srv else srv);
          srv2 = (if \<not> sl_dead (clients srv1 ! i) \<and> rv_in rv then slot_drain_read on_event i srv1 else srv1)
      in if \<not> sl_dead (clients srv2 ! i) \<and> rv_out rv \<and> want_out then upd_slot i slot_drain_write srv2 else srv2)"

definition prune :: "'u ipc_server \<Rightarrow> 'u ipc_server" where
  "prune srv = srv\<lparr>clients := map (\<lambda>s. if sl_fd s \<ge> 0 \<and> sl_dead s then slot_close s else s) (clients srv)\<rparr>"

definition sso_ipc_server_step :: "'u ipc_handler_fn \<Rightarrow> (bool \<times> (nat \<Rightarrow> revents)) poll_result \<Rightarrow> 'u ipc_server \<Rightarrow> int \<times> 'u ipc_server" where
  "sso_ipc_server_step on_event pr srv =
     (if srv_listen_fd srv < 0 then (-1, srv)
      else case pr of PollIntr \<Rightarrow> (0, srv) | PollErr \<Rightarrow> (-1, srv) | PollNone \<Rightarrow> (0, srv)
        | PollReady (incoming, rvs) \<Rightarrow>
            let polled = filter (\<lambda>i. sl_fd (clients srv ! i) \<ge> 0) [0..<SSO_IPC_MAX_CLIENTS];
                srv1 = (if incoming then server_accept srv else srv);
                srv2 = fold (\<lambda>i. service_slot on_event (rvs i) (sl_write_buf (clients srv ! i) \<noteq> []) i) polled srv1
            in (0, prune srv2))"

section \<open>Sending\<close>

definition sso_ipc_server_broadcast :: "string \<Rightarrow> 'u ipc_server \<Rightarrow> 'u ipc_server" where
  "sso_ipc_server_broadcast line srv =
     srv\<lparr>clients := map (\<lambda>s. if sl_fd s \<ge> 0 \<and> \<not> sl_dead s then slot_drain_write (slot_queue line s) else s) (clients srv)\<rparr>"

definition find_client :: "int \<Rightarrow> 'u ipc_server \<Rightarrow> nat option" where
  "find_client i srv = find (\<lambda>k. sl_fd (clients srv ! k) \<ge> 0 \<and> sl_id (clients srv ! k) = i) [0..<SSO_IPC_MAX_CLIENTS]"

definition sso_ipc_server_send :: "int \<Rightarrow> string \<Rightarrow> 'u ipc_server \<Rightarrow> int \<times> 'u ipc_server" where
  "sso_ipc_server_send i line srv =
     (case find_client i srv of None \<Rightarrow> (-1, srv)
      | Some k \<Rightarrow> (0, upd_slot k (\<lambda>s. slot_drain_write (slot_queue line s)) srv))"

definition sso_ipc_server_send_lossy :: "int \<Rightarrow> string \<Rightarrow> 'u ipc_server \<Rightarrow> int \<times> 'u ipc_server" where
  "sso_ipc_server_send_lossy i line srv =
     (case find_client i srv of None \<Rightarrow> (-1, srv)
      | Some k \<Rightarrow>
          (case slot_queue_lossy line (slot_drain_write (clients srv ! k)) of
             (rc, s) \<Rightarrow> (rc, upd_slot k (\<lambda>_. slot_drain_write s) srv)))"

section \<open>Looking at the clients\<close>

definition live :: "ipc_slot \<Rightarrow> bool" where
  "live s \<longleftrightarrow> sl_fd s \<ge> 0 \<and> \<not> sl_dead s"

definition sso_ipc_server_client_count :: "'u ipc_server \<Rightarrow> nat" where
  "sso_ipc_server_client_count srv = length (filter live (clients srv))"

text \<open>The next live client from a cursor on: the cursor after it, and the copies of its fields.\<close>

definition sso_ipc_server_next_client :: "'u ipc_server \<Rightarrow> nat \<Rightarrow> (nat \<times> int \<times> string \<times> string \<times> string) option" where
  "sso_ipc_server_next_client srv cursor =
     map_option (\<lambda>k. let s = clients srv ! k in (k + 1, sl_id s, snprintf 64 (sl_user s), snprintf 16 (sl_role s), snprintf 40 (sl_since s)))
       (find (\<lambda>k. live (clients srv ! k)) [cursor..<SSO_IPC_MAX_CLIENTS])"

definition sso_ipc_server_peer_uid :: "'u ipc_server \<Rightarrow> int \<Rightarrow> nat option" where
  "sso_ipc_server_peer_uid srv i =
     (case find (\<lambda>s. live s \<and> sl_id s = i) (clients srv) of None \<Rightarrow> None | Some s \<Rightarrow> sl_peer_uid s)"

section \<open>The invariant\<close>

text \<open>What the kernel has taken and what is still queued are together whole encoded events.\<close>

definition whole :: "string \<Rightarrow> bool" where
  "whole t \<longleftrightarrow> (\<exists>ls. list_all wire_text ls \<and> t = concat ls)"

definition whole_stream :: "ipc_slot \<Rightarrow> bool" where
  "whole_stream s \<longleftrightarrow> whole (sl_out s @ sl_write_buf s)"

definition client_ok :: "ipc_slot \<Rightarrow> bool" where
  "client_ok s \<longleftrightarrow>
     length (sl_read_buf s) < SSO_IPC_READ_BUF \<and> newline \<notin> set (sl_read_buf s) \<and> length (sl_write_buf s) \<le> SSO_IPC_WRITE_BUF \<and>
     length (sl_user s) < 64 \<and> length (sl_role s) < 16 \<and> length (sl_since s) < 40 \<and>
     (sl_fd s < 0 \<longrightarrow> sl_read_buf s = [] \<and> sl_write_buf s = [] \<and> \<not> sl_dead s) \<and> (0 \<le> sl_fd s \<longrightarrow> whole_stream s)"

definition open_ids :: "'u ipc_server \<Rightarrow> int list" where
  "open_ids srv = map sl_id (filter (\<lambda>s. sl_fd s \<ge> 0) (clients srv))"

definition server_ok :: "'u ipc_server \<Rightarrow> bool" where
  "server_ok srv \<longleftrightarrow>
     length (clients srv) = SSO_IPC_MAX_CLIENTS \<and> list_all client_ok (clients srv) \<and> distinct (open_ids srv) \<and>
     1 \<le> next_id srv \<and> list_all (\<lambda>i. 1 \<le> i \<and> i < next_id srv) (open_ids srv)"

text \<open>Who is connected: which slots are open and under which id.\<close>

definition conns :: "'u ipc_server \<Rightarrow> int \<times> (int \<times> int) list" where
  "conns srv = (next_id srv, map (\<lambda>s. (sl_fd s, sl_id s)) (clients srv))"

lemma open_ids_conns: "open_ids srv = map snd (filter (\<lambda>(fd, i). fd \<ge> 0) (snd (conns srv)))"
  by (simp add: open_ids_def conns_def filter_map comp_def case_prod_beta)

lemma conns_fd: "conns srv' = conns srv \<Longrightarrow> k < length (clients srv) \<Longrightarrow>
  sl_fd (clients srv' ! k) = sl_fd (clients srv ! k) \<and> sl_id (clients srv' ! k) = sl_id (clients srv ! k)"
proof -
  assume "conns srv' = conns srv" "k < length (clients srv)"
  then have "map (\<lambda>s. (sl_fd s, sl_id s)) (clients srv') ! k = map (\<lambda>s. (sl_fd s, sl_id s)) (clients srv) ! k" "length (clients srv') = length (clients srv)"
    by (auto simp: conns_def dest: map_eq_imp_length_eq)
  then show ?thesis using \<open>k < length (clients srv)\<close> by simp
qed

lemma server_okI: "conns srv' = conns srv \<Longrightarrow> server_ok srv \<Longrightarrow> list_all client_ok (clients srv') \<Longrightarrow> server_ok srv'"
  by (auto simp: server_ok_def open_ids_conns conns_def dest: map_eq_imp_length_eq)

lemma server_ok_slot: "server_ok srv \<Longrightarrow> k < SSO_IPC_MAX_CLIENTS \<Longrightarrow> client_ok (clients srv ! k)"
  by (simp add: server_ok_def list_all_length)

text \<open>An operation on one slot that keeps it well-formed and keeps its connection keeps the server so.\<close>

definition same_conn :: "ipc_slot \<Rightarrow> ipc_slot \<Rightarrow> bool" where
  "same_conn s t \<longleftrightarrow> sl_fd t = sl_fd s \<and> sl_id t = sl_id s"

lemma upd_slot_keeps:
  assumes "server_ok srv" "k < SSO_IPC_MAX_CLIENTS" "client_ok (f (clients srv ! k))" "same_conn (clients srv ! k) (f (clients srv ! k))"
  shows "server_ok (upd_slot k f srv) \<and> conns (upd_slot k f srv) = conns srv"
proof -
  have len: "k < length (clients srv)" using assms(1,2) by (simp add: server_ok_def)
  have c: "conns (upd_slot k f srv) = conns srv"
    using assms(4) len by (simp add: conns_def upd_slot_def map_update same_conn_def list_eq_iff_nth_eq nth_list_update)
  moreover have "list_all client_ok (clients (upd_slot k f srv))"
    using assms(1,3) len by (auto simp: upd_slot_def server_ok_def list_all_length nth_list_update)
  ultimately show ?thesis using assms(1) server_okI by blast
qed

lemma map_slots_keeps:
  assumes "server_ok srv" "\<And>s. client_ok s \<Longrightarrow> client_ok (f s) \<and> same_conn s (f s)"
  shows "server_ok (srv\<lparr>clients := map f (clients srv)\<rparr>) \<and> conns (srv\<lparr>clients := map f (clients srv)\<rparr>) = conns srv"
proof -
  have ok: "list_all client_ok (clients srv)" using assms(1) by (simp add: server_ok_def)
  then have c: "conns (srv\<lparr>clients := map f (clients srv)\<rparr>) = conns srv"
    using assms(2) by (auto simp: conns_def same_conn_def list_all_iff)
  moreover have "list_all client_ok (map f (clients srv))" using ok assms(2) by (auto simp: list_all_iff)
  ultimately show ?thesis using assms(1) server_okI [of "srv\<lparr>clients := map f (clients srv)\<rparr>" srv] by simp
qed

lemma whole_append: "whole t \<Longrightarrow> wire_text line \<Longrightarrow> whole (t @ line)"
proof -
  assume w: "whole t" "wire_text line"
  then obtain ls where "list_all wire_text ls" "t = concat ls" by (auto simp: whole_def)
  then show ?thesis using w(2) unfolding whole_def by (intro exI [of _ "ls @ [line]"]) simp
qed

lemma whole_stream_queue: "wire_text line \<Longrightarrow> whole_stream s \<Longrightarrow> whole_stream (s\<lparr>sl_write_buf := sl_write_buf s @ line\<rparr>)"
  using whole_append [of "sl_out s @ sl_write_buf s" line] by (simp add: whole_stream_def)

lemma slot_queue_keeps: "client_ok s \<Longrightarrow> 0 \<le> sl_fd s \<Longrightarrow> wire_text line \<Longrightarrow> client_ok (slot_queue line s) \<and> same_conn s (slot_queue line s)"
  using whole_stream_queue [of line s] by (auto simp: client_ok_def slot_queue_def same_conn_def whole_stream_def)

lemma slot_queue_lossy_keeps:
  "client_ok s \<Longrightarrow> 0 \<le> sl_fd s \<Longrightarrow> wire_text line \<Longrightarrow> client_ok (snd (slot_queue_lossy line s)) \<and> same_conn s (snd (slot_queue_lossy line s))"
  using whole_stream_queue [of line s] by (auto simp: client_ok_def slot_queue_lossy_def same_conn_def)

lemma slot_drain_write_stream:
  "sl_out (slot_drain_write s) @ sl_write_buf (slot_drain_write s) = sl_out s @ sl_write_buf s"
  "length (sl_write_buf (slot_drain_write s)) \<le> length (sl_write_buf s)"
  using drain_write_bytes [of "sl_wr s" "sl_write_buf s" "sl_out s"] by (auto simp: slot_drain_write_def split: prod.split)

lemma slot_drain_write_same:
  "sl_fd (slot_drain_write s) = sl_fd s" "sl_id (slot_drain_write s) = sl_id s" "sl_read_buf (slot_drain_write s) = sl_read_buf s"
  "sl_user (slot_drain_write s) = sl_user s" "sl_role (slot_drain_write s) = sl_role s" "sl_since (slot_drain_write s) = sl_since s"
  by (simp_all add: slot_drain_write_def split: prod.split)

lemma slot_drain_write_keeps: "client_ok s \<Longrightarrow> 0 \<le> sl_fd s \<Longrightarrow> client_ok (slot_drain_write s) \<and> same_conn s (slot_drain_write s)"
  using slot_drain_write_stream [of s]
  by (simp add: client_ok_def slot_drain_write_same same_conn_def whole_stream_def)

lemma same_conn_trans: "same_conn a b \<Longrightarrow> same_conn b c \<Longrightarrow> same_conn a c"
  by (simp add: same_conn_def)

lemma find_upt: "find P [a..<b] = Some k \<Longrightarrow> a \<le> k \<and> k < b \<and> P k"
  by (auto simp: find_Some_iff)

lemma send_keeps:
  "server_ok srv \<Longrightarrow> wire_text line \<Longrightarrow>
   server_ok (snd (sso_ipc_server_send i line srv)) \<and> conns (snd (sso_ipc_server_send i line srv)) = conns srv"
proof -
  assume a: "server_ok srv" "wire_text line"
  show ?thesis
  proof (cases "find_client i srv")
    case (Some k)
    then have k: "k < SSO_IPC_MAX_CLIENTS" "0 \<le> sl_fd (clients srv ! k)" by (auto simp: find_client_def dest: find_upt)
    let ?q = "slot_queue line (clients srv ! k)"
    have q: "client_ok ?q \<and> same_conn (clients srv ! k) ?q" using slot_queue_keeps server_ok_slot a k by blast
    then have "client_ok (slot_drain_write ?q) \<and> same_conn ?q (slot_drain_write ?q)" using k by (intro slot_drain_write_keeps) (auto simp: same_conn_def)
    then show ?thesis
      using q same_conn_trans upd_slot_keeps [OF a(1) k(1), of "\<lambda>s. slot_drain_write (slot_queue line s)"]
      by (simp add: sso_ipc_server_send_def Some) blast
  qed (simp add: sso_ipc_server_send_def a)
qed

lemma queue_drain_keeps:
  assumes "client_ok s" "0 \<le> sl_fd s" "wire_text line"
  shows "client_ok (slot_drain_write (slot_queue line s)) \<and> same_conn s (slot_drain_write (slot_queue line s))"
proof -
  have "client_ok (slot_queue line s) \<and> same_conn s (slot_queue line s)" by (rule slot_queue_keeps [OF assms])
  then show ?thesis using assms(2) slot_drain_write_keeps [of "slot_queue line s"] same_conn_trans by (auto simp: same_conn_def)
qed

lemma find_client_slot: "find_client i srv = Some k \<Longrightarrow> k < SSO_IPC_MAX_CLIENTS \<and> 0 \<le> sl_fd (clients srv ! k) \<and> sl_id (clients srv ! k) = i"
  by (auto simp: find_client_def dest: find_upt)

lemma lossy_keeps:
  assumes "server_ok srv" "wire_text line"
  shows "server_ok (snd (sso_ipc_server_send_lossy i line srv)) \<and> conns (snd (sso_ipc_server_send_lossy i line srv)) = conns srv"
proof (cases "find_client i srv")
  case (Some k)
  note k = find_client_slot [OF Some]
  let ?s = "clients srv ! k"
  let ?d = "slot_drain_write ?s"
  let ?q = "snd (slot_queue_lossy line ?d)"
  have d: "client_ok ?d \<and> same_conn ?s ?d" using slot_drain_write_keeps server_ok_slot assms(1) k by blast
  have q: "client_ok ?q \<and> same_conn ?d ?q" using slot_queue_lossy_keeps [of ?d line] d k assms(2) by (simp add: same_conn_def)
  have w: "client_ok (slot_drain_write ?q) \<and> same_conn ?q (slot_drain_write ?q)"
    using q d k by (intro slot_drain_write_keeps) (simp_all add: same_conn_def)
  have "same_conn ?s (slot_drain_write ?q)" using d q w same_conn_trans by blast
  then show ?thesis
    using w k upd_slot_keeps [OF assms(1), of k "\<lambda>_. slot_drain_write ?q"]
    by (simp add: sso_ipc_server_send_lossy_def Some case_prod_beta)
qed (simp add: sso_ipc_server_send_lossy_def assms)

lemma broadcast_keeps:
  "server_ok srv \<Longrightarrow> wire_text line \<Longrightarrow>
   server_ok (sso_ipc_server_broadcast line srv) \<and> conns (sso_ipc_server_broadcast line srv) = conns srv"
  unfolding sso_ipc_server_broadcast_def
  by (rule map_slots_keeps) (use queue_drain_keeps in \<open>auto simp: same_conn_def\<close>)

text \<open>A new connection takes a free slot and the next id.\<close>

lemma accept_one:
  assumes "server_ok srv" "server_alloc_slot srv = Some k"
    and srv'_def: "srv' = (upd_slot k (accept_slot (int fd) uid now (next_id srv)) srv)\<lparr>next_id := next_id srv + 1\<rparr>"
  shows "server_ok srv'" "set (open_ids srv') = insert (next_id srv) (set (open_ids srv))"
    "\<And>j. j < SSO_IPC_MAX_CLIENTS \<Longrightarrow> 0 \<le> sl_fd (clients srv ! j) \<Longrightarrow> clients srv' ! j = clients srv ! j"
proof -
  have k: "k < SSO_IPC_MAX_CLIENTS" "sl_fd (clients srv ! k) < 0" using assms(2) by (auto simp: server_alloc_slot_def dest: find_upt)
  have len: "length (clients srv) = SSO_IPC_MAX_CLIENTS" using assms(1) by (simp add: server_ok_def)
  let ?new = "accept_slot (int fd) uid now (next_id srv) (clients srv ! k)"
  have cl: "clients srv' = take k (clients srv) @ ?new # drop (Suc k) (clients srv)"
    using k len by (simp add: srv'_def upd_slot_def upd_conv_take_nth_drop)
  have old: "clients srv = take k (clients srv) @ clients srv ! k # drop (Suc k) (clients srv)" using k len by (simp add: id_take_nth_drop)
  have ids: "open_ids srv = map sl_id (filter (\<lambda>s. sl_fd s \<ge> 0) (take k (clients srv))) @ map sl_id (filter (\<lambda>s. sl_fd s \<ge> 0) (drop (Suc k) (clients srv)))"
    unfolding open_ids_def by (subst old) (use k in simp)
  have ids': "open_ids srv' = map sl_id (filter (\<lambda>s. sl_fd s \<ge> 0) (take k (clients srv))) @ next_id srv #
      map sl_id (filter (\<lambda>s. sl_fd s \<ge> 0) (drop (Suc k) (clients srv)))"
    by (simp add: open_ids_def cl accept_slot_def)
  show ins: "set (open_ids srv') = insert (next_id srv) (set (open_ids srv))" by (simp add: ids ids')
  have fresh: "next_id srv \<notin> set (open_ids srv)" using assms(1) by (auto simp: server_ok_def list_all_iff)
  have d: "distinct (open_ids srv')" using fresh assms(1) by (auto simp: server_ok_def ids ids')
  have "whole []" unfolding whole_def by (intro exI [of _ "[]"]) simp
  then have "client_ok ?new" by (simp add: client_ok_def accept_slot_def whole_stream_def SSO_IPC_READ_BUF_def length_snprintf)
  then have all: "list_all client_ok (clients srv')"
    using assms(1) by (auto simp: cl server_ok_def list_all_iff dest: in_set_takeD in_set_dropD)
  have n: "next_id srv' = next_id srv + 1" by (simp add: srv'_def)
  have "list_all (\<lambda>i. 1 \<le> i \<and> i < next_id srv') (open_ids srv')"
    using assms(1) by (auto simp: server_ok_def list_all_iff ins n)
  then show "server_ok srv'" using d all len assms(1) n by (simp add: server_ok_def srv'_def upd_slot_def)
  show "\<And>j. j < SSO_IPC_MAX_CLIENTS \<Longrightarrow> 0 \<le> sl_fd (clients srv ! j) \<Longrightarrow> clients srv' ! j = clients srv ! j"
  proof -
    fix j
    assume "j < SSO_IPC_MAX_CLIENTS" "0 \<le> sl_fd (clients srv ! j)"
    then show "clients srv' ! j = clients srv ! j" using k by (cases "j = k") (auto simp: srv'_def upd_slot_def)
  qed
qed

lemma accept_loop_keeps:
  "server_ok srv \<Longrightarrow> server_ok (accept_loop as srv) \<and> next_id srv \<le> next_id (accept_loop as srv) \<and>
   (\<forall>i \<in> set (open_ids (accept_loop as srv)). i \<in> set (open_ids srv) \<or> next_id srv \<le> i) \<and>
   (\<forall>j < SSO_IPC_MAX_CLIENTS. 0 \<le> sl_fd (clients srv ! j) \<longrightarrow> clients (accept_loop as srv) ! j = clients srv ! j)"
proof (induction as srv rule: accept_loop.induct)
  case (5 fd uid now as srv)
  show ?case
  proof (cases "server_alloc_slot srv")
    case (Some k)
    define srv' where "srv' = (upd_slot k (accept_slot (int fd) uid now (next_id srv)) srv)\<lparr>next_id := next_id srv + 1\<rparr>"
    note one = accept_one [OF "5.prems" Some srv'_def]
    have "next_id srv' = next_id srv + 1" by (simp add: srv'_def)
    then show ?thesis using "5.IH"(2) [OF Some] one by (fastforce simp: Some srv'_def [symmetric])
  qed (use 5 in simp)
qed (simp_all add: server_ok_def open_ids_def)

section \<open>The step of the server, for every well-behaved callback\<close>

locale ipc_handler =
  fixes on_event :: "'u ipc_server \<Rightarrow> int \<Rightarrow> ipc_event \<Rightarrow> 'u ipc_server"
  assumes handler_keeps: "server_ok srv \<Longrightarrow> server_ok (on_event srv i e) \<and> conns (on_event srv i e) = conns srv"
begin

lemma dispatch_keeps:
  assumes "server_ok srv" "k < SSO_IPC_MAX_CLIENTS" "0 \<le> sl_fd (clients srv ! k)"
  shows "server_ok (slot_dispatch_line on_event k line srv) \<and> conns (slot_dispatch_line on_event k line srv) = conns srv"
proof (cases "sso_event_decode (cstr line)")
  case (Some e)
  have "client_ok (note_hello e (clients srv ! k)) \<and> same_conn (clients srv ! k) (note_hello e (clients srv ! k))"
    using server_ok_slot [OF assms(1,2)] by (simp add: note_hello_def client_ok_def same_conn_def whole_stream_def Let_def length_snprintf)
  then have "server_ok (upd_slot k (note_hello e) srv) \<and> conns (upd_slot k (note_hello e) srv) = conns srv"
    using upd_slot_keeps [OF assms(1,2)] by blast
  then show ?thesis using assms(1) handler_keeps by (simp add: slot_dispatch_line_def Some Let_def)
qed (simp add: slot_dispatch_line_def assms)

lemma drain_read_keeps:
  assumes "server_ok srv" "k < SSO_IPC_MAX_CLIENTS" "0 \<le> sl_fd (clients srv ! k)"
  shows "server_ok (slot_drain_read on_event k srv) \<and> conns (slot_drain_read on_event k srv) = conns srv"
proof -
  obtain over rs buf srv' where r: "drain_read (slot_dispatch_line on_event k) (sl_in (clients srv ! k)) (sl_read_buf (clients srv ! k)) srv = (over, rs, buf, srv')"
    by (metis prod_cases4)
  let ?P = "\<lambda>s. server_ok s \<and> conns s = conns srv"
  have len: "length (clients srv) = SSO_IPC_MAX_CLIENTS" using assms(1) by (simp add: server_ok_def)
  have step: "?P (slot_dispatch_line on_event k l s)" if "?P s" for l s
    using that dispatch_keeps [of s k l] conns_fd [of s srv k] assms(2,3) len by simp
  have "length buf < SSO_IPC_READ_BUF \<and> newline \<notin> set buf \<and> ?P srv'"
    by (rule drain_read_inv [where P = ?P, OF step _ _ _ r]) (use assms server_ok_slot [OF assms(1,2)] in \<open>auto simp: client_ok_def\<close>)
  moreover from this have fd: "0 \<le> sl_fd (clients srv' ! k)" using conns_fd [of srv' srv k] assms(2,3) len by simp
  ultimately have "client_ok ((clients srv' ! k)\<lparr>sl_in := rs, sl_read_buf := buf, sl_dead := sl_dead (clients srv' ! k) \<or> over\<rparr>)"
    using server_ok_slot [of srv' k] assms(2) by (auto simp: client_ok_def whole_stream_def)
  then show ?thesis
    using upd_slot_keeps [of srv' k "\<lambda>s. s\<lparr>sl_in := rs, sl_read_buf := buf, sl_dead := sl_dead s \<or> over\<rparr>"] assms(2)
      \<open>length buf < SSO_IPC_READ_BUF \<and> newline \<notin> set buf \<and> ?P srv'\<close>
    by (simp add: slot_drain_read_def r same_conn_def)
qed

lemma service_keeps:
  assumes "server_ok srv" "k < SSO_IPC_MAX_CLIENTS" "0 \<le> sl_fd (clients srv ! k)"
  shows "server_ok (service_slot on_event rv want k srv) \<and> conns (service_slot on_event rv want k srv) = conns srv"
proof -
  let ?P = "\<lambda>s. server_ok s \<and> conns s = conns srv"
  have len: "length (clients srv) = SSO_IPC_MAX_CLIENTS" using assms(1) by (simp add: server_ok_def)
  have fd: "0 \<le> sl_fd (clients s ! k)" if "?P s" for s using that conns_fd [of s srv k] assms(2,3) len by simp
  have dead: "?P (upd_slot k (\<lambda>s. s\<lparr>sl_dead := True\<rparr>) srv)"
    using assms upd_slot_keeps [OF assms(1,2)] server_ok_slot [OF assms(1,2)] by (simp add: client_ok_def same_conn_def whole_stream_def)
  have read: "?P (slot_drain_read on_event k s)" if "?P s" for s using that drain_read_keeps [of s k] fd [OF that] assms(2) by simp
  have wr: "?P (upd_slot k slot_drain_write s)" if "?P s" for s
    using that fd [OF that] upd_slot_keeps [of s k slot_drain_write] slot_drain_write_keeps [of "clients s ! k"] server_ok_slot [of s k] assms(2) by simp
  define srv1 where "srv1 = (if rv_err rv then upd_slot k (\<lambda>s. s\<lparr>sl_dead := True\<rparr>) srv else srv)"
  define srv2 where "srv2 = (if \<not> sl_dead (clients srv1 ! k) \<and> rv_in rv then slot_drain_read on_event k srv1 else srv1)"
  have "?P srv1" using dead assms(1) by (simp add: srv1_def)
  then have "?P srv2" using read [of srv1] by (simp add: srv2_def)
  then show ?thesis using wr [of srv2] by (simp add: service_slot_def Let_def srv1_def [symmetric] srv2_def [symmetric])
qed

lemma services_keep:
  "server_ok srv \<Longrightarrow> list_all (\<lambda>k. k < SSO_IPC_MAX_CLIENTS \<and> 0 \<le> sl_fd (clients srv ! k)) ks \<Longrightarrow>
   server_ok (fold (\<lambda>k. service_slot on_event (rvs k) (want k) k) ks srv) \<and> conns (fold (\<lambda>k. service_slot on_event (rvs k) (want k) k) ks srv) = conns srv"
proof (induction ks arbitrary: srv)
  case (Cons k ks)
  let ?s = "service_slot on_event (rvs k) (want k) k srv"
  have s: "server_ok ?s \<and> conns ?s = conns srv" using service_keeps Cons.prems by simp
  moreover have "length (clients srv) = SSO_IPC_MAX_CLIENTS" using Cons.prems(1) by (simp add: server_ok_def)
  ultimately have "list_all (\<lambda>k. k < SSO_IPC_MAX_CLIENTS \<and> 0 \<le> sl_fd (clients ?s ! k)) ks"
    using Cons.prems(2) conns_fd [of ?s srv] by (auto simp: list_all_iff)
  then show ?case using Cons.IH [of ?s] s by simp
qed simp

lemma prune_keeps:
  assumes "server_ok srv"
  shows "server_ok (prune srv) \<and> next_id (prune srv) = next_id srv \<and> set (open_ids (prune srv)) \<subseteq> set (open_ids srv)"
proof -
  let ?f = "\<lambda>s. if sl_fd s \<ge> 0 \<and> sl_dead s then slot_close s else s"
  have ids: "open_ids (prune srv) = map sl_id (filter (\<lambda>s. sl_fd s \<ge> 0 \<and> \<not> sl_dead s) (clients srv))"
  proof -
    have "filter (\<lambda>s. sl_fd s \<ge> 0) (map ?f ss) = filter (\<lambda>s. sl_fd s \<ge> 0 \<and> \<not> sl_dead s) ss" for ss
      by (induction ss) (auto simp: slot_close_def)
    then show ?thesis by (simp add: open_ids_def prune_def)
  qed
  have "distinct (map sl_id (filter (\<lambda>s. sl_fd s \<ge> 0) (clients srv)))" using assms by (simp add: server_ok_def open_ids_def)
  from distinct_map_filter [OF this, of "\<lambda>s. \<not> sl_dead s"]
  have d: "distinct (open_ids (prune srv))" by (simp add: ids)
  have "client_ok (slot_close s)" for s by (simp add: client_ok_def slot_close_def SSO_IPC_READ_BUF_def)
  then have "list_all client_ok (clients (prune srv))" using assms by (auto simp: prune_def server_ok_def list_all_iff)
  moreover have sub: "set (open_ids (prune srv)) \<subseteq> set (open_ids srv)" unfolding ids by (auto simp: open_ids_def)
  ultimately show ?thesis using assms d by (auto simp: server_ok_def list_all_iff prune_def)
qed

lemma step_keeps:
  assumes "server_ok srv"
    and srv'_def: "srv' = snd (sso_ipc_server_step on_event pr srv)"
  shows "server_ok srv' \<and> next_id srv \<le> next_id srv' \<and> (\<forall>i \<in> set (open_ids srv'). i \<in> set (open_ids srv) \<or> next_id srv \<le> i)"
proof (cases "0 \<le> srv_listen_fd srv \<and> (\<exists>x. pr = PollReady x)")
  case True
  then obtain incoming rvs where pr: "pr = PollReady (incoming, rvs)" and fd: "0 \<le> srv_listen_fd srv" by auto
  let ?ks = "filter (\<lambda>k. sl_fd (clients srv ! k) \<ge> 0) [0..<SSO_IPC_MAX_CLIENTS]"
  define srv1 where "srv1 = (if incoming then server_accept srv else srv)"
  define srv2 where "srv2 = fold (\<lambda>k. service_slot on_event (rvs k) (sl_write_buf (clients srv ! k) \<noteq> []) k) ?ks srv1"
  have one: "server_ok srv1 \<and> next_id srv \<le> next_id srv1 \<and> (\<forall>i \<in> set (open_ids srv1). i \<in> set (open_ids srv) \<or> next_id srv \<le> i) \<and>
    (\<forall>k < SSO_IPC_MAX_CLIENTS. 0 \<le> sl_fd (clients srv ! k) \<longrightarrow> clients srv1 ! k = clients srv ! k)"
    using accept_loop_keeps [OF assms(1), of "srv_accepts srv"] assms(1) by (auto simp: srv1_def server_accept_def)
  then have "list_all (\<lambda>k. k < SSO_IPC_MAX_CLIENTS \<and> 0 \<le> sl_fd (clients srv1 ! k)) ?ks" by (auto simp: list_all_iff)
  then have two: "server_ok srv2 \<and> conns srv2 = conns srv1" 
    unfolding srv2_def using services_keep [of srv1 ?ks rvs "\<lambda>k. sl_write_buf (clients srv ! k) \<noteq> []"] one by simp
  then have "next_id srv2 = next_id srv1" "open_ids srv2 = open_ids srv1" by (simp_all add: open_ids_conns) (simp add: conns_def)
  moreover have "srv' = prune srv2" using fd by (simp add: srv'_def sso_ipc_server_step_def pr Let_def srv1_def srv2_def)
  ultimately show ?thesis using one two prune_keeps [of srv2] by auto
next
  case False
  then have "srv' = srv" by (auto simp: srv'_def sso_ipc_server_step_def split: poll_result.split)
  then show ?thesis using assms(1) by simp
qed

end

section \<open>Runs\<close>

text \<open>
  What happens to a server: its own step, the sends of the program, and the kernel, which may
  change what it will answer on a descriptor or have new connections waiting at any time. The
  program may change its own state between calls.
\<close>

inductive srv_step :: "'u ipc_handler_fn \<Rightarrow> 'u ipc_server \<Rightarrow> 'u ipc_server \<Rightarrow> bool" for on_event where
  Step: "srv_step on_event srv (snd (sso_ipc_server_step on_event pr srv))"
| Broadcast: "wire_text line \<Longrightarrow> srv_step on_event srv (sso_ipc_server_broadcast line srv)"
| Send: "wire_text line \<Longrightarrow> srv_step on_event srv (snd (sso_ipc_server_send i line srv))"
| Lossy: "wire_text line \<Longrightarrow> srv_step on_event srv (snd (sso_ipc_server_send_lossy i line srv))"
| Kernel: "k < SSO_IPC_MAX_CLIENTS \<Longrightarrow> srv_step on_event srv (upd_slot k (\<lambda>s. s\<lparr>sl_in := rs, sl_wr := ws\<rparr>) srv)"
| Incoming: "srv_step on_event srv (srv\<lparr>srv_accepts := as\<rparr>)"
| User: "srv_step on_event srv (srv\<lparr>on_event_user := u\<rparr>)"

abbreviation srv_run :: "'u ipc_handler_fn \<Rightarrow> 'u ipc_server \<Rightarrow> 'u ipc_server \<Rightarrow> bool" where
  "srv_run on_event \<equiv> (srv_step on_event)\<^sup>*\<^sup>*"

definition later :: "'u ipc_server \<Rightarrow> 'u ipc_server \<Rightarrow> bool" where
  "later srv srv' \<longleftrightarrow> server_ok srv' \<and> next_id srv \<le> next_id srv' \<and> (\<forall>i \<in> set (open_ids srv'). i \<in> set (open_ids srv) \<or> next_id srv \<le> i)"

lemma later_conns: "server_ok srv' \<and> conns srv' = conns srv \<Longrightarrow> later srv srv'"
  by (simp add: later_def open_ids_conns) (simp add: conns_def)

lemma later_trans: "later a b \<Longrightarrow> later b c \<Longrightarrow> later a c"
  by (fastforce simp: later_def)

context ipc_handler begin

lemma one_step: "srv_step on_event srv srv' \<Longrightarrow> server_ok srv \<Longrightarrow> later srv srv'"
proof (induction rule: srv_step.induct)
  case (Step srv pr)
  then show ?case using step_keeps by (simp add: later_def)
next
  case (Kernel k srv ws rs)
  then show ?case
    using upd_slot_keeps [of srv k "\<lambda>s. s\<lparr>sl_in := rs, sl_wr := ws\<rparr>"] server_ok_slot [of srv k]
    by (intro later_conns) (simp add: client_ok_def same_conn_def whole_stream_def)
next
  case (Incoming srv as)
  then show ?case by (simp add: later_def server_ok_def open_ids_def)
next
  case (User srv u)
  then show ?case by (simp add: later_def server_ok_def open_ids_def)
qed (use broadcast_keeps send_keeps lossy_keeps later_conns in blast)+

lemma run_later: "srv_run on_event srv srv' \<Longrightarrow> server_ok srv \<Longrightarrow> later srv srv'"
proof (induction rule: rtranclp_induct)
  case base
  then show ?case by (simp add: later_def)
next
  case (step b c)
  then have "later srv b" "server_ok b" by (auto simp: later_def)
  then show ?case using one_step [OF step(2)] later_trans by blast
qed

end

lemma open_ok: "server_ok (sso_ipc_server_open fd u)"
  by (simp add: server_ok_def sso_ipc_server_open_def open_ids_def closed_slot_def client_ok_def list_all_iff SSO_IPC_READ_BUF_def)

lemma close_ok: "server_ok srv \<Longrightarrow> server_ok (sso_ipc_server_close srv) \<and> open_ids (sso_ipc_server_close srv) = []"
proof -
  have "filter (\<lambda>s. sl_fd s \<ge> 0) (map slot_close ss) = []" for ss by (induction ss) (simp_all add: slot_close_def)
  moreover have "client_ok (slot_close s)" for s by (simp add: client_ok_def slot_close_def SSO_IPC_READ_BUF_def)
  ultimately show "server_ok srv \<Longrightarrow> ?thesis" by (simp add: server_ok_def sso_ipc_server_close_def open_ids_def list_all_iff)
qed

section \<open>What a broadcast does to one client\<close>

lemma broadcast_slot:
  assumes "k < length (clients srv)" "live (clients srv ! k)"
  shows "sl_out (clients (sso_ipc_server_broadcast line srv) ! k) @ sl_write_buf (clients (sso_ipc_server_broadcast line srv) ! k) =
    sl_out (clients srv ! k) @ sl_write_buf (clients srv ! k) @ line \<or> sl_dead (clients (sso_ipc_server_broadcast line srv) ! k)"
proof -
  let ?s = "slot_queue line (clients srv ! k)"
  have s: "clients (sso_ipc_server_broadcast line srv) ! k = slot_drain_write ?s"
    using assms by (simp add: sso_ipc_server_broadcast_def live_def)
  show ?thesis
  proof (cases "length (sl_write_buf (clients srv ! k)) + length line > SSO_IPC_WRITE_BUF")
    case True
    then show ?thesis unfolding s by (simp add: slot_queue_def slot_drain_write_def split: prod.split)
  next
    case False
    then show ?thesis unfolding s slot_drain_write_stream(1) by (simp add: slot_queue_def)
  qed
qed

end
