(* ===== verification/Sso_Base64.thy ===== *)
theory Sso_Base64
  imports C_String
begin

text \<open>
  \<^verbatim>\<open>src/src/ipc/sso_base64.c\<close>: the base64 text in which audio bytes travel in an event.
\<close>

unbundle bit_operations_syntax

definition ENC :: string where
  "ENC = ''ABCDEFGHIJKLMNOPQRSTUVWXYZabcdefghijklmnopqrstuvwxyz0123456789+/''"

definition sso_base64_encoded_len :: "nat \<Rightarrow> nat" where
  "sso_base64_encoded_len n = (n + 2) div 3 * 4"

definition enc_char :: "u32 \<Rightarrow> nat \<Rightarrow> char" where
  "enc_char v k = ENC ! unat (drop_bit k v AND 0x3F)"

definition pack3 :: "u8 \<Rightarrow> u8 \<Rightarrow> u8 \<Rightarrow> u32" where
  "pack3 a b c = push_bit 16 (ucast a) OR push_bit 8 (ucast b) OR ucast c"

fun base64_text :: "u8 list \<Rightarrow> string" where
  "base64_text (a # b # c # bs) =
     (let v = pack3 a b c in enc_char v 18 # enc_char v 12 # enc_char v 6 # enc_char v 0 # base64_text bs)"
| "base64_text [a] = (let v = push_bit 16 (ucast a) in [enc_char v 18, enc_char v 12, CHR ''='', CHR ''=''])"
| "base64_text [a, b] =
     (let v = push_bit 16 (ucast a) OR push_bit 8 (ucast b) in [enc_char v 18, enc_char v 12, enc_char v 6, CHR ''=''])"
| "base64_text [] = []"

definition sso_base64_encode :: "u8 list \<Rightarrow> nat \<Rightarrow> string option" where
  "sso_base64_encode bs out_cap =
     (if out_cap < sso_base64_encoded_len (length bs) + 1 then None else Some (base64_text bs))"

definition b64val :: "char \<Rightarrow> int" where
  "b64val c =
     (let n = chr_code c
      in if 65 \<le> n \<and> n \<le> 90 then int n - 65
         else if 97 \<le> n \<and> n \<le> 122 then int n - 97 + 26
         else if 48 \<le> n \<and> n \<le> 57 then int n - 48 + 52
         else if c = CHR ''+'' then 62 else if c = CHR ''/'' then 63 else -1)"

definition join4 :: "int \<Rightarrow> int \<Rightarrow> int \<Rightarrow> int \<Rightarrow> u32" where
  "join4 v0 v1 v2 v3 = push_bit 18 (word_of_int v0) OR push_bit 12 (word_of_int v1) OR push_bit 6 (word_of_int v2) OR word_of_int v3"

definition bytes3 :: "u32 \<Rightarrow> u8 list" where
  "bytes3 v = [ucast (drop_bit 16 v AND 0xFF), ucast (drop_bit 8 v AND 0xFF), ucast (v AND 0xFF)]"

text \<open>One pass of the decoding loop: the bytes of a group of four characters, \<open>final\<close> when none follow.\<close>

definition base64_group :: "bool \<Rightarrow> char \<Rightarrow> char \<Rightarrow> char \<Rightarrow> char \<Rightarrow> u8 list option" where
  "base64_group final c0 c1 c2 c3 =
     (let v0 = b64val c0; v1 = b64val c1;
          npad = (if c2 = CHR ''='' then 1 else 0) + (if c3 = CHR ''='' then 1 else (0::nat));
          v2 = (if c2 \<noteq> CHR ''='' then b64val c2 else 0); v3 = (if c3 \<noteq> CHR ''='' then b64val c3 else 0)
      in if v0 < 0 \<or> v1 < 0 then None
         else if npad \<noteq> 0 \<and> \<not> final then None
         else if c2 = CHR ''='' \<and> c3 \<noteq> CHR ''='' then None
         else if v2 < 0 \<or> v3 < 0 then None
         else Some (take (3 - npad) (bytes3 (join4 v0 v1 v2 v3))))"

fun base64_groups :: "nat \<Rightarrow> u8 list \<Rightarrow> string \<Rightarrow> u8 list option" where
  "base64_groups cap out (c0 # c1 # c2 # c3 # rest) =
     (case base64_group (rest = []) c0 c1 c2 c3 of None \<Rightarrow> None
      | Some bs \<Rightarrow> if length out + length bs > cap then None else base64_groups cap (out @ bs) rest)"
| "base64_groups cap out _ = Some out"

definition sso_base64_decode :: "string \<Rightarrow> nat \<Rightarrow> u8 list option" where
  "sso_base64_decode s out_cap = (if length s mod 4 \<noteq> 0 then None else base64_groups out_cap [] s)"

section \<open>The alphabet\<close>

lemma enc_length: "length ENC = 64"
  by code_simp

lemma enc_values: "map b64val ENC = [0..63]"
  by code_simp

lemma enc_plain: "list_all (\<lambda>c. c \<noteq> CHR ''='' \<and> c \<notin> {CHR 0x22, CHR 0x5C} \<and> 32 \<le> chr_code c) ENC"
  by code_simp

lemma enc_table:
  assumes "n < 64"
  shows "b64val (ENC ! n) = int n" "ENC ! n \<noteq> CHR ''=''" "ENC ! n \<notin> {CHR 0x22, CHR 0x5C}" "32 \<le> chr_code (ENC ! n)"
proof -
  have "map b64val ENC ! n = int n" using assms by (simp add: enc_values nth_upto)
  then show "b64val (ENC ! n) = int n" using assms by (simp add: enc_length)
  show "ENC ! n \<noteq> CHR ''=''" "ENC ! n \<notin> {CHR 0x22, CHR 0x5C}" "32 \<le> chr_code (ENC ! n)"
    using assms enc_plain by (simp_all add: list_all_length enc_length)
qed

lemma six_bits: "unat (v AND 0x3F :: u32) < 64"
proof -
  have "v AND 0x3F = take_bit 6 v" by (simp add: take_bit_eq_mask mask_eq_decr_exp)
  then show ?thesis using take_bit_nat_less_exp [of 6 "unat v"] by (simp add: unsigned_take_bit_eq)
qed

lemma enc_char:
  "b64val (enc_char v k) = uint (drop_bit k v AND 0x3F)" "enc_char v k \<noteq> CHR ''=''" "enc_char v k \<notin> {CHR 0x22, CHR 0x5C}"
  "32 \<le> chr_code (enc_char v k)"
  using enc_table [OF six_bits [of "drop_bit k v"]] by (simp_all add: enc_char_def)

lemma mask6: "(0x3F :: u32) = mask 6" "(0xFF :: u32) = mask 8"
  by (simp_all add: mask_eq_decr_exp)

section \<open>The round trip\<close>

text \<open>Four groups of six bits make up a word of 24.\<close>

lemma six_join:
  "push_bit 18 (drop_bit 18 v AND 0x3F) OR push_bit 12 (drop_bit 12 v AND 0x3F) OR push_bit 6 (drop_bit 6 v AND 0x3F) OR (drop_bit 0 v AND 0x3F) =
   take_bit 24 (v :: u32)"
  unfolding mask6
proof (rule bit_word_eqI)
  fix n
  assume "n < LENGTH(32)"
  consider "n < 6" | "6 \<le> n" "n < 12" | "12 \<le> n" "n < 18" | "18 \<le> n" by linarith
  then show "bit (push_bit 18 (drop_bit 18 v AND mask 6) OR push_bit 12 (drop_bit 12 v AND mask 6) OR push_bit 6 (drop_bit 6 v AND mask 6) OR
    (drop_bit 0 v AND mask 6)) n = bit (take_bit 24 v) n"
    by cases (auto simp: bit_simps)
qed

lemma bytes3_pack: "bytes3 (take_bit 24 (pack3 a b c)) = [a, b, c]"
proof -
  have "ucast (drop_bit 16 (take_bit 24 (pack3 a b c)) AND 0xFF) = a" "ucast (drop_bit 8 (take_bit 24 (pack3 a b c)) AND 0xFF) = b"
    "ucast (take_bit 24 (pack3 a b c) AND 0xFF) = c"
    unfolding mask6 pack3_def by (rule bit_word_eqI; auto simp: bit_simps dest: bit_imp_le_length; fail)+
  then show ?thesis by (simp add: bytes3_def)
qed

lemma join4_sixes:
  "join4 (uint (drop_bit 18 v AND 0x3F)) (uint (drop_bit 12 v AND 0x3F)) (uint (drop_bit 6 v AND 0x3F)) (uint (drop_bit 0 v AND 0x3F)) = take_bit 24 v"
  unfolding join4_def word_of_int_uint by (rule six_join)

lemma pad_zero: "drop_bit 0 (pack3 a b 0) AND 0x3F = 0" "drop_bit 6 (pack3 a 0 0) AND 0x3F = 0"
  unfolding mask6 pack3_def by (rule bit_word_eqI; auto simp: bit_simps; fail)+

lemma group3:
  "base64_group final (enc_char (pack3 a b c) 18) (enc_char (pack3 a b c) 12) (enc_char (pack3 a b c) 6) (enc_char (pack3 a b c) 0) = Some [a, b, c]"
  using join4_sixes [of "pack3 a b c"] bytes3_pack [of a b c] unfolding base64_group_def Let_def enc_char by (simp add: enc_char(2))

lemma group2: "base64_group True (enc_char (pack3 a b 0) 18) (enc_char (pack3 a b 0) 12) (enc_char (pack3 a b 0) 6) CHR ''='' = Some [a, b]"
proof -
  have "join4 (uint (drop_bit 18 (pack3 a b 0) AND 0x3F)) (uint (drop_bit 12 (pack3 a b 0) AND 0x3F)) (uint (drop_bit 6 (pack3 a b 0) AND 0x3F)) 0 =
    take_bit 24 (pack3 a b 0)"
    using join4_sixes [of "pack3 a b 0"] unfolding pad_zero by simp
  then show ?thesis unfolding base64_group_def Let_def enc_char by (simp add: enc_char(2) bytes3_pack)
qed

lemma group1: "base64_group True (enc_char (pack3 a 0 0) 18) (enc_char (pack3 a 0 0) 12) CHR ''='' CHR ''='' = Some [a]"
proof -
  have "join4 (uint (drop_bit 18 (pack3 a 0 0) AND 0x3F)) (uint (drop_bit 12 (pack3 a 0 0) AND 0x3F)) 0 0 = take_bit 24 (pack3 a 0 0)"
    using join4_sixes [of "pack3 a 0 0"] unfolding pad_zero by simp
  then show ?thesis unfolding base64_group_def Let_def enc_char by (simp add: enc_char(2) bytes3_pack)
qed

lemma base64_text_length: "length (base64_text bs) = sso_base64_encoded_len (length bs)"
proof (induction bs rule: base64_text.induct)
  case (1 a b c bs)
  have "(length bs + 5) div 3 = Suc ((length bs + 2) div 3)" by simp
  then show ?case using 1 by (simp add: Let_def sso_base64_encoded_len_def add.commute)
qed (simp_all add: Let_def sso_base64_encoded_len_def)

lemma base64_text_Nil: "base64_text bs = [] \<longleftrightarrow> bs = []"
  using base64_text_length [of bs] by (cases bs) (auto simp: sso_base64_encoded_len_def)

lemma base64_text_short:
  "base64_text [a] = [enc_char (pack3 a 0 0) 18, enc_char (pack3 a 0 0) 12, CHR ''='', CHR ''='']"
  "base64_text [a, b] = [enc_char (pack3 a b 0) 18, enc_char (pack3 a b 0) 12, enc_char (pack3 a b 0) 6, CHR ''='']"
  by (simp_all add: Let_def pack3_def)

lemma groups_text: "length out + length bs \<le> cap \<Longrightarrow> base64_groups cap out (base64_text bs) = Some (out @ bs)"
  by (induction bs arbitrary: out rule: base64_text.induct)
    (simp_all add: Let_def group3 base64_text_short group1 group2 del: base64_text.simps(2,3))

lemma base64_plain: "c \<in> set (base64_text bs) \<Longrightarrow> c \<notin> {CHR 0x22, CHR 0x5C} \<and> 32 \<le> chr_code c"
  using enc_char(3,4) by (induction bs rule: base64_text.induct) (auto simp: Let_def chr_code_def)

lemma base64_roundtrip:
  "sso_base64_encode bs out_cap = Some s \<Longrightarrow> length bs \<le> cap \<Longrightarrow> sso_base64_decode s cap = Some bs"
  by (auto simp: sso_base64_encode_def sso_base64_decode_def base64_text_length sso_base64_encoded_len_def groups_text split: if_splits)

lemma base64_bound: "base64_groups cap out s = Some bs \<Longrightarrow> length out \<le> cap \<Longrightarrow> length bs \<le> cap"
  by (induction cap out s rule: base64_groups.induct) (auto split: option.splits if_splits)

interpretation base64: codec "\<lambda>bs. sso_base64_encode bs cap" "\<lambda>s. sso_base64_decode s cap" for cap
proof
  fix bs s
  assume enc: "sso_base64_encode bs cap = Some s"
  then have "length bs \<le> cap" by (auto simp: sso_base64_encode_def sso_base64_encoded_len_def split: if_splits)
  then show "sso_base64_decode s cap = Some bs" using enc base64_roundtrip by blast
qed

end
