(* ===== verification/Operator_Audio.thy ===== *)
theory Operator_Audio
  imports IPC_Server Sso_Base64 Auto_Tcmd "HOL-Library.Sublist"
begin

text \<open>
  \<^verbatim>\<open>src/src/control/operator_audio.c\<close>: the live audio relay of the operator. The Vorbis encoder
  (libsndfile, behind \<^verbatim>\<open>ogg_stream.c\<close>) is a parameter: the blocks of bytes it hands to the sink when
  a stream is opened, fed and closed.
\<close>

section \<open>The operator's side of the IPC\<close>

definition SSO_AUDIO_RAW_MAX :: nat where "SSO_AUDIO_RAW_MAX = 4096"
definition SSO_AUDIO_MAX_SUBS :: nat where "SSO_AUDIO_MAX_SUBS = 4"
definition AUDIO_DEFAULT_QUALITY :: rat where "AUDIO_DEFAULT_QUALITY = 1 / 5"

record audio_sub =
  as_in_use :: bool
  as_id :: int
  as_enc :: bool
  as_seq :: int
  as_started :: bool
  as_sr :: int
  as_ch :: int

definition zero_sub :: audio_sub where
  "zero_sub = \<lparr>as_in_use = False, as_id = 0, as_enc = False, as_seq = 0, as_started = False, as_sr = 0, as_ch = 0\<rparr>"

text \<open>
  The panel and the snapshot that the operator broadcasts, and with them the state the event
  callback works on. The bandwidth is what \<^verbatim>\<open>lround\<close> makes of the receiver's, when there is one.
\<close>

record rx_panel_data =
  rp_have_session :: bool
  rp_rec_active :: bool
  rp_rx_freq_hz :: rat
  rp_peak_dbfs :: rat
  rp_rms_dbfs :: rat
  rp_frames_total :: u64
  rp_last_frame_summary :: string
  rp_age_s :: rat
  rp_pt_count :: "u64 list"
  rp_pt_payload_len :: "int list"
  rp_pt_payload :: "u8 list list"
  rp_pt_summary :: "string list"
  rp_ribbon_n :: nat
  rp_ribbon :: string
  rp_ribbon_peak :: "u8 list"
  rp_frames_pcm :: u64
  rp_frames_vit :: u64
  rp_warning :: string

record last_state =
  ls_valid :: bool
  ls_sat :: string
  ls_az :: rat
  ls_el :: rat
  ls_freq_hz :: int
  ls_doppler :: rat
  ls_tle :: string
  ls_tgt_az :: rat
  ls_tgt_el :: rat
  ls_flip :: bool
  ls_in_pass :: bool
  ls_tracking :: bool
  ls_has_rot :: bool
  ls_jul :: rat
  ls_idesg :: string
  ls_epoch_min :: rat
  ls_min_visible :: rat
  ls_min_above_0 :: rat
  ls_min_above_30 :: rat
  ls_max_el :: rat
  ls_pred_az :: rat
  ls_pred_el :: rat
  ls_alt_km :: rat
  ls_lat_deg :: rat
  ls_lon_deg :: rat
  ls_speed_kms :: rat
  ls_range_km :: rat
  ls_rrate_kms :: rat

record operator =
  op_st :: state
  op_now :: string
  op_rx :: rx_panel_data
  op_last :: last_state
  op_no_audio :: bool
  op_bandwidth :: "int option"
  op_ogg_open :: "int \<Rightarrow> int \<Rightarrow> rat \<Rightarrow> u8 list list option"
  op_ogg_flush :: "nat \<Rightarrow> u8 list list"
  op_subs :: "audio_sub list"
  op_n :: nat
  op_tap :: bool

type_synonym op_server = "operator ipc_server"

abbreviation op :: "op_server \<Rightarrow> operator" where
  "op srv \<equiv> on_event_user srv"

abbreviation upd_op :: "(operator \<Rightarrow> operator) \<Rightarrow> op_server \<Rightarrow> op_server" where
  "upd_op f srv \<equiv> srv\<lparr>on_event_user := f (on_event_user srv)\<rparr>"

definition put_sub :: "nat \<Rightarrow> audio_sub \<Rightarrow> operator \<Rightarrow> operator" where
  "put_sub k s o' = o'\<lparr>op_subs := (op_subs o')[k := s]\<rparr>"

text \<open>\<^verbatim>\<open>sso_event_init\<close> on a whole event.\<close>

definition event_init :: "string \<Rightarrow> sso_event_type \<Rightarrow> ipc_event" where
  "event_init now ty = zero_ipc_event\<lparr>ev_type := ty, ev_ts := snprintf 40 now\<rparr>"

section \<open>Streaming to a subscriber\<close>

definition find_slot :: "int \<Rightarrow> operator \<Rightarrow> nat option" where
  "find_slot i o' = find (\<lambda>k. as_in_use (op_subs o' ! k) \<and> as_id (op_subs o' ! k) = i) [0..<SSO_AUDIO_MAX_SUBS]"

definition find_free_slot :: "operator \<Rightarrow> nat option" where
  "find_free_slot o' = find (\<lambda>k. \<not> as_in_use (op_subs o' ! k)) [0..<SSO_AUDIO_MAX_SUBS]"

definition status_event :: "string \<Rightarrow> string \<Rightarrow> string \<Rightarrow> int \<Rightarrow> int \<Rightarrow> ipc_event" where
  "status_event now st reason sr ch =
     (event_init now SSO_EVT_AUDIO_STATUS)
       \<lparr>ev_audio_state := snprintf 16 st, ev_reason := snprintf 32 reason, ev_audio_sr := sr, ev_audio_ch := ch\<rparr>"

definition send_status :: "int \<Rightarrow> string \<Rightarrow> string \<Rightarrow> int \<Rightarrow> int \<Rightarrow> op_server \<Rightarrow> op_server" where
  "send_status i st reason sr ch srv =
     (case sso_event_encode (status_event (op_now (op srv)) st reason sr ch) SSO_IPC_LINE_MAX of None \<Rightarrow> srv
      | Some line \<Rightarrow> snd (sso_ipc_server_send i line srv))"

text \<open>The pieces a block is sent in; an empty block is sent as one empty piece.\<close>

function sink_chunks :: "u8 list \<Rightarrow> u8 list list" where
  "sink_chunks bs = (if length bs \<le> SSO_AUDIO_RAW_MAX then [bs] else take SSO_AUDIO_RAW_MAX bs # sink_chunks (drop SSO_AUDIO_RAW_MAX bs))"
  by pat_completeness auto
termination
  by (relation "measure length") (auto simp: SSO_AUDIO_RAW_MAX_def)

declare sink_chunks.simps [simp del]

definition audio_event :: "string \<Rightarrow> audio_sub \<Rightarrow> u8 list \<Rightarrow> ipc_event" where
  "audio_event now s chunk =
     (let e = (event_init now SSO_EVT_AUDIO)\<lparr>ev_audio_seq := as_seq s\<rparr>;
          e1 = (if as_started s then e else e\<lparr>ev_audio_start := True, ev_audio_sr := as_sr s, ev_audio_ch := as_ch s\<rparr>)
      in e1\<lparr>ev_audio_b64 := (case sso_base64_encode chunk SSO_AUDIO_B64_MAX of None \<Rightarrow> [] | Some t \<Rightarrow> t)\<rparr>)"

definition sub_sent :: "audio_sub \<Rightarrow> audio_sub" where
  "sub_sent s = s\<lparr>as_seq := as_seq s + 1, as_started := True\<rparr>"

definition send_chunk :: "nat \<Rightarrow> u8 list \<Rightarrow> op_server \<Rightarrow> op_server" where
  "send_chunk k chunk srv =
     (let s = op_subs (op srv) ! k; e = audio_event (op_now (op srv)) s chunk; srv1 = upd_op (put_sub k (sub_sent s)) srv
      in case sso_event_encode e SSO_IPC_LINE_MAX of None \<Rightarrow> srv1
         | Some line \<Rightarrow> snd ((if ev_audio_start e then sso_ipc_server_send else sso_ipc_server_send_lossy) (as_id s) line srv1))"

definition audio_sub_sink :: "nat \<Rightarrow> u8 list \<Rightarrow> op_server \<Rightarrow> op_server" where
  "audio_sub_sink k bytes srv = fold (send_chunk k) (sink_chunks bytes) srv"

definition sink_blocks :: "nat \<Rightarrow> u8 list list \<Rightarrow> op_server \<Rightarrow> op_server" where
  "sink_blocks k blocks srv = fold (audio_sub_sink k) blocks srv"

section \<open>Subscribing and unsubscribing\<close>

definition drop_slot :: "nat \<Rightarrow> op_server \<Rightarrow> op_server" where
  "drop_slot k srv =
     (let s = op_subs (op srv) ! k
      in if \<not> as_in_use s then srv
         else let srv1 = (if as_enc s then sink_blocks k (op_ogg_flush (op srv) k) srv else srv)
              in upd_op (\<lambda>o'. (put_sub k zero_sub o')\<lparr>op_n := op_n o' - 1\<rparr>) srv1)"

definition update_tap :: "op_server \<Rightarrow> op_server" where
  "update_tap srv = (if op_bandwidth (op srv) \<noteq> None then upd_op (\<lambda>o'. o'\<lparr>op_tap := op_n o' > 0\<rparr>) srv else srv)"

text \<open>The restart of the stream in a slot, and what follows an encoder that could or could not be opened.\<close>

definition restart_sub :: "nat \<Rightarrow> int \<Rightarrow> int \<Rightarrow> op_server \<Rightarrow> op_server" where
  "restart_sub k i sr srv =
     (let s = op_subs (op srv) ! k;
          srv1 = (if as_enc s then sink_blocks k (op_ogg_flush (op srv) k) srv else srv);
          s1 = op_subs (op srv1) ! k
      in upd_op (put_sub k (s1\<lparr>as_id := i, as_sr := sr, as_ch := 1, as_seq := 0, as_started := False, as_enc := False\<rparr>)) srv1)"

definition sub_opened :: "bool \<Rightarrow> nat \<Rightarrow> u8 list list \<Rightarrow> op_server \<Rightarrow> op_server" where
  "sub_opened is_new k blocks srv =
     (let srv1 = sink_blocks k blocks srv;
          srv2 = upd_op (\<lambda>o'. put_sub k ((op_subs o' ! k)\<lparr>as_enc := True\<rparr>) o') srv1
      in if is_new then upd_op (\<lambda>o'. (put_sub k ((op_subs o' ! k)\<lparr>as_in_use := True\<rparr>) o')\<lparr>op_n := op_n o' + 1\<rparr>) srv2 else srv2)"

definition sub_failed :: "bool \<Rightarrow> nat \<Rightarrow> op_server \<Rightarrow> op_server" where
  "sub_failed is_new k srv =
     (if is_new then srv
      else upd_op (\<lambda>o'. (put_sub k ((op_subs o' ! k)\<lparr>as_in_use := False\<rparr>) o')\<lparr>op_n := op_n o' - 1\<rparr>) srv)"

definition operator_audio_handle_ctl :: "int \<Rightarrow> ipc_event \<Rightarrow> op_server \<Rightarrow> op_server" where
  "operator_audio_handle_ctl i evt srv =
     (if \<not> ev_audio_enable evt then
        let srv1 = (case find_slot i (op srv) of None \<Rightarrow> srv | Some k \<Rightarrow> drop_slot k srv)
        in send_status i ''off'' [] 0 0 (update_tap srv1)
      else if op_no_audio (op srv) then send_status i ''unavailable'' ''audio disabled'' 0 0 srv
      else case op_bandwidth (op srv) of None \<Rightarrow> send_status i ''unavailable'' ''no receiver'' 0 0 srv
        | Some bw \<Rightarrow>
            let sr = (if bw \<le> 0 then 96000 else bw);
                q = (if ev_audio_quality evt > 0 then ev_audio_quality evt else AUDIO_DEFAULT_QUALITY);
                is_new = (find_slot i (op srv) = None)
            in case (case find_slot i (op srv) of Some k \<Rightarrow> Some k | None \<Rightarrow> find_free_slot (op srv)) of
                 None \<Rightarrow> send_status i ''unavailable'' ''too many listeners'' 0 0 srv
               | Some k \<Rightarrow>
                   let srv1 = restart_sub k i sr srv
                   in case op_ogg_open (op srv) sr 1 q of
                        None \<Rightarrow> send_status i ''unavailable'' ''no audio support in this build'' 0 0 (update_tap (sub_failed is_new k srv1))
                      | Some blocks \<Rightarrow> send_status i ''on'' [] sr 1 (update_tap (sub_opened is_new k blocks srv1)))"

section \<open>The main loop's part\<close>

text \<open>
  One batch of samples makes the encoder of each subscriber hand over some blocks; the pump goes
  through the batches in the ring.
\<close>

definition pump_batch :: "(nat \<Rightarrow> u8 list list) \<Rightarrow> op_server \<Rightarrow> op_server" where
  "pump_batch blocks srv =
     fold (\<lambda>k srv. if as_in_use (op_subs (op srv) ! k) then sink_blocks k (blocks k) srv else srv) [0..<SSO_AUDIO_MAX_SUBS] srv"

definition operator_audio_pump :: "(nat \<Rightarrow> u8 list list) list \<Rightarrow> op_server \<Rightarrow> op_server" where
  "operator_audio_pump batches srv =
     (if op_n (op srv) = 0 \<or> op_bandwidth (op srv) = None then srv else fold pump_batch batches srv)"

text \<open>The walk over the connected clients with \<^verbatim>\<open>sso_ipc_server_next_client\<close>.\<close>

lemma next_client_cursor: "sso_ipc_server_next_client srv cursor = Some (c, x) \<Longrightarrow> cursor < c \<and> c \<le> SSO_IPC_MAX_CLIENTS"
  by (auto simp: sso_ipc_server_next_client_def Let_def dest: find_upt)

function clients_from :: "'u ipc_server \<Rightarrow> nat \<Rightarrow> (int \<times> string \<times> string \<times> string) list" where
  "clients_from srv cursor =
     (case sso_ipc_server_next_client srv cursor of None \<Rightarrow> [] | Some (c, x) \<Rightarrow> x # clients_from srv c)"
  by pat_completeness auto
termination
  by (relation "measure (\<lambda>(_, c). SSO_IPC_MAX_CLIENTS - c)") (auto dest!: next_client_cursor)

declare clients_from.simps [simp del]

definition alive_subs :: "op_server \<Rightarrow> nat list" where
  "alive_subs srv = List.map_filter (\<lambda>(i, _). find_slot i (op srv)) (clients_from srv 0)"

definition drop_gone :: "nat list \<Rightarrow> nat \<Rightarrow> op_server \<Rightarrow> op_server" where
  "drop_gone alive k srv = (if as_in_use (op_subs (op srv) ! k) \<and> k \<notin> set alive then drop_slot k srv else srv)"

definition operator_audio_prune :: "op_server \<Rightarrow> op_server" where
  "operator_audio_prune srv =
     (if op_n (op srv) = 0 then srv
      else let alive = alive_subs srv;
               dropped = list_ex (\<lambda>k. as_in_use (op_subs (op srv) ! k) \<and> k \<notin> set alive) [0..<SSO_AUDIO_MAX_SUBS];
               srv1 = fold (drop_gone alive) [0..<SSO_AUDIO_MAX_SUBS] srv
           in if dropped then update_tap srv1 else srv1)"

definition operator_audio_active :: "operator \<Rightarrow> bool" where
  "operator_audio_active a \<longleftrightarrow> op_n a > 0"

definition operator_audio_shutdown :: "op_server \<Rightarrow> op_server" where
  "operator_audio_shutdown srv =
     update_tap (upd_op (\<lambda>o'. o'\<lparr>op_n := 0\<rparr>) (fold drop_slot [0..<SSO_AUDIO_MAX_SUBS] srv))"

section \<open>The server is kept\<close>

text \<open>Everything here reaches the server only through its sends: connections and their invariant are kept.\<close>

definition keeps :: "('u ipc_server \<Rightarrow> 'u ipc_server) \<Rightarrow> bool" where
  "keeps f \<longleftrightarrow> (\<forall>srv. server_ok srv \<longrightarrow> server_ok (f srv) \<and> conns (f srv) = conns srv)"

lemma keepsD: "keeps f \<Longrightarrow> server_ok srv \<Longrightarrow> server_ok (f srv) \<and> conns (f srv) = conns srv"
  by (simp add: keeps_def)

lemma keeps_fold: "(\<And>x. keeps (f x)) \<Longrightarrow> keeps (fold f xs)"
  by (induction xs) (auto simp: keeps_def)

lemma op_upd_conns [simp]: "server_ok (srv\<lparr>on_event_user := u\<rparr>) = server_ok srv" "conns (srv\<lparr>on_event_user := u\<rparr>) = conns srv"
  by (simp_all add: server_ok_def conns_def open_ids_def)

lemma init_roster [simp]: "ev_roster_json (event_init now ty) = []"
  by (simp add: event_init_def zero_ipc_event_def)

lemmas sends_ok = send_keeps [THEN conjunct1] send_keeps [THEN conjunct2] lossy_keeps [THEN conjunct1] lossy_keeps [THEN conjunct2]

lemma status_event_text: "sso_event_encode (status_event now st reason sr ch) SSO_IPC_LINE_MAX = Some line \<Longrightarrow> wire_text line"
  by (erule encode_text [rotated]) (simp add: status_event_def)

lemma audio_event_text: "sso_event_encode (audio_event now s chunk) SSO_IPC_LINE_MAX = Some line \<Longrightarrow> wire_text line"
  by (erule encode_text [rotated]) (simp add: audio_event_def Let_def)

lemma send_status_keeps: "keeps (send_status i st reason sr ch)"
  by (auto simp: keeps_def send_status_def sends_ok split: option.split dest: status_event_text)

lemma send_chunk_keeps: "keeps (send_chunk k chunk)"
  by (auto simp: keeps_def send_chunk_def Let_def sends_ok split: option.split dest: audio_event_text)

lemma sink_keeps: "keeps (sink_blocks k blocks)"
  unfolding sink_blocks_def audio_sub_sink_def by (intro keeps_fold send_chunk_keeps)

lemma drop_slot_keeps: "keeps (drop_slot k)"
  using keepsD [OF sink_keeps] by (simp add: keeps_def drop_slot_def Let_def)

lemma update_tap_keeps: "keeps update_tap"
  by (simp add: keeps_def update_tap_def)

lemma restart_sub_keeps: "keeps (restart_sub k i sr)"
  using keepsD [OF sink_keeps] by (simp add: keeps_def restart_sub_def Let_def)

lemma sub_opened_keeps: "keeps (sub_opened is_new k blocks)"
  using keepsD [OF sink_keeps] by (simp add: keeps_def sub_opened_def Let_def)

lemma sub_failed_keeps: "keeps (sub_failed is_new k)"
  by (simp add: keeps_def sub_failed_def)

lemma handle_ctl_keeps: "keeps (operator_audio_handle_ctl i evt)"
  using keepsD [OF send_status_keeps] keepsD [OF drop_slot_keeps] keepsD [OF update_tap_keeps] keepsD [OF restart_sub_keeps]
    keepsD [OF sub_opened_keeps] keepsD [OF sub_failed_keeps]
  by (simp add: keeps_def operator_audio_handle_ctl_def Let_def split: option.split)

section \<open>The subscribers\<close>

text \<open>
  Sending to a subscriber changes nothing of the operator but how far its stream is; the table is
  compared up to that.
\<close>

definition sub_key :: "audio_sub \<Rightarrow> bool \<times> int \<times> bool" where
  "sub_key s = (as_in_use s, as_id s, as_enc s)"

definition same_subs :: "operator \<Rightarrow> operator \<Rightarrow> bool" where
  "same_subs a b \<longleftrightarrow> b = a\<lparr>op_subs := op_subs b\<rparr> \<and> map sub_key (op_subs b) = map sub_key (op_subs a)"

lemma same_subs_refl: "same_subs a a"
  by (simp add: same_subs_def)

lemma same_subs_trans: "same_subs a b \<Longrightarrow> same_subs b c \<Longrightarrow> same_subs a c"
proof -
  assume ab: "same_subs a b" and bc: "same_subs b c"
  have "c = b\<lparr>op_subs := op_subs c\<rparr>" "b = a\<lparr>op_subs := op_subs b\<rparr>" using ab bc by (auto simp: same_subs_def)
  then have "c = a\<lparr>op_subs := op_subs c\<rparr>" by (metis operator.surjective operator.update_convs(9) operator.simps(9))
  then show ?thesis using ab bc by (simp add: same_subs_def)
qed

lemma send_op [simp]: "op (snd (sso_ipc_server_send i line srv)) = op srv" "op (snd (sso_ipc_server_send_lossy i line srv)) = op srv"
  by (simp_all add: sso_ipc_server_send_def sso_ipc_server_send_lossy_def upd_slot_def split: option.split prod.split)

lemma status_op [simp]: "op (send_status i st reason sr ch srv) = op srv"
  by (simp add: send_status_def split: option.split)

lemma put_sub_same: "sub_key s = sub_key (op_subs a ! k) \<Longrightarrow> same_subs a (put_sub k s a)"
  using list_update_id [of "map sub_key (op_subs a)" k]
  by (cases "k < length (op_subs a)") (auto simp: same_subs_def put_sub_def map_update list_update_beyond)

lemma send_chunk_op: "same_subs (op srv) (op (send_chunk k chunk srv))"
  using put_sub_same [of "sub_sent (op_subs (op srv) ! k)" "op srv" k]
  by (auto simp: send_chunk_def Let_def sub_sent_def sub_key_def split: option.split)

lemma fold_same: "(\<And>x srv. same_subs (op srv) (op (f x srv))) \<Longrightarrow> same_subs (op srv) (op (fold f xs srv))"
  by (induction xs arbitrary: srv) (auto simp: same_subs_refl intro: same_subs_trans)

lemma sink_op: "same_subs (op srv) (op (sink_blocks k blocks srv))"
  unfolding sink_blocks_def audio_sub_sink_def by (intro fold_same send_chunk_op)

text \<open>
  The table is consistent: the count is the number of slots in use, a slot in use has an encoder,
  and no client has two.
\<close>

definition audio_ok :: "operator \<Rightarrow> bool" where
  "audio_ok a \<longleftrightarrow>
     length (op_subs a) = SSO_AUDIO_MAX_SUBS \<and> op_n a = length (filter as_in_use (op_subs a)) \<and>
     distinct (map as_id (filter as_in_use (op_subs a))) \<and> list_all (\<lambda>s. as_in_use s \<longrightarrow> as_enc s) (op_subs a)"

definition tap_ok :: "operator \<Rightarrow> bool" where
  "tap_ok a \<longleftrightarrow> (op_bandwidth a \<noteq> None \<longrightarrow> op_tap a = (op_n a > 0))"

text \<open>The same on the keys of the table, where one entry is replaced at a time.\<close>

definition keys_ok :: "(bool \<times> int \<times> bool) list \<Rightarrow> nat \<Rightarrow> bool" where
  "keys_ok ks n \<longleftrightarrow>
     length ks = SSO_AUDIO_MAX_SUBS \<and> n = length (filter fst ks) \<and> distinct (map (fst \<circ> snd) (filter fst ks)) \<and>
     list_all (\<lambda>(u, i, e). u \<longrightarrow> e) ks"

lemma audio_ok_keys: "audio_ok a \<longleftrightarrow> keys_ok (map sub_key (op_subs a)) (op_n a)"
proof -
  have "filter fst (map sub_key ss) = map sub_key (filter as_in_use ss)" for ss by (induction ss) (simp_all add: sub_key_def)
  then show ?thesis by (auto simp: audio_ok_def keys_ok_def comp_def sub_key_def list_all_iff)
qed

lemma keys_put:
  assumes "keys_ok ks n" "k < SSO_AUDIO_MAX_SUBS"
  shows "\<not> fst (ks ! k) \<Longrightarrow> i \<notin> (fst \<circ> snd) ` set (filter fst ks) \<Longrightarrow> keys_ok (ks[k := (True, i, True)]) (n + 1)"
    and "fst (ks ! k) \<Longrightarrow> fst (snd (ks ! k)) = i \<Longrightarrow> keys_ok (ks[k := (True, i, True)]) n"
    and "fst (ks ! k) \<Longrightarrow> keys_ok (ks[k := (False, i, e)]) (n - 1)"
    and "\<not> fst (ks ! k) \<Longrightarrow> keys_ok (ks[k := (False, i, e)]) n"
proof -
  have len: "k < length ks" using assms by (simp add: keys_ok_def)
  obtain pre x post where ks: "ks = pre @ x # post" "length pre = k" using id_take_nth_drop [OF len] len by (metis length_take min.absorb4)
  have upd: "ks[k := y] = pre @ y # post" "ks ! k = x" for y by (simp_all add: ks list_update_append nth_append)
  show "\<not> fst (ks ! k) \<Longrightarrow> i \<notin> (fst \<circ> snd) ` set (filter fst ks) \<Longrightarrow> keys_ok (ks[k := (True, i, True)]) (n + 1)"
    "fst (ks ! k) \<Longrightarrow> fst (snd (ks ! k)) = i \<Longrightarrow> keys_ok (ks[k := (True, i, True)]) n"
    "fst (ks ! k) \<Longrightarrow> keys_ok (ks[k := (False, i, e)]) (n - 1)"
    "\<not> fst (ks ! k) \<Longrightarrow> keys_ok (ks[k := (False, i, e)]) n"
    unfolding upd using assms(1) by (auto simp: keys_ok_def ks(1))
qed

lemma same_subs_ok: "same_subs a b \<Longrightarrow> audio_ok b = audio_ok a \<and> op_n b = op_n a \<and> op_bandwidth b = op_bandwidth a \<and> op_tap b = op_tap a"
proof -
  assume ab: "same_subs a b"
  then have "b = a\<lparr>op_subs := op_subs b\<rparr>" by (simp add: same_subs_def)
  then have "op_n b = op_n a" "op_bandwidth b = op_bandwidth a" "op_tap b = op_tap a" by (metis operator.select_convs operator.surjective operator.update_convs(9))+
  then show ?thesis using ab by (simp add: audio_ok_keys same_subs_def)
qed

text \<open>What each operation makes of the keys; \<open>rest\<close> collects the other fields that matter.\<close>

definition table :: "operator \<Rightarrow> (bool \<times> int \<times> bool) list \<times> nat \<times> int option \<times> bool" where
  "table a = (map sub_key (op_subs a), op_n a, op_bandwidth a, op_tap a)"

lemma same_subs_table: "same_subs a b \<Longrightarrow> table b = table a"
  using same_subs_ok [of a b] by (auto simp: table_def same_subs_def)

lemma sink_table: "table (op (sink_blocks k blocks srv)) = table (op srv)"
  by (rule same_subs_table) (rule sink_op)

lemma put_table: "table (put_sub k s a) = ((map sub_key (op_subs a))[k := sub_key s], op_n a, op_bandwidth a, op_tap a)"
  by (simp add: table_def put_sub_def map_update)

lemma table_eqD:
  "table a = (ks, n, bw, tap) \<Longrightarrow> map sub_key (op_subs a) = ks \<and> op_n a = n \<and> op_bandwidth a = bw \<and> op_tap a = tap"
  by (simp add: table_def)

lemma sub_key_nth: "map sub_key (op_subs a) = ks \<Longrightarrow> k < length ks \<Longrightarrow> sub_key (op_subs a ! k) = ks ! k"
  by auto

lemma drop_slot_table:
  assumes "table (op srv) = (ks, n, bw, tap)" "k < length ks"
  shows "table (op (drop_slot k srv)) = (if fst (ks ! k) then (ks[k := (False, 0, False)], n - 1, bw, tap) else (ks, n, bw, tap))"
proof -
  have key: "sub_key (op_subs (op srv) ! k) = ks ! k" using assms by (intro sub_key_nth) (simp_all add: table_def)
  then have use: "as_in_use (op_subs (op srv) ! k) = fst (ks ! k)" by (metis sub_key_def fst_conv)
  define srv1 where "srv1 = (if as_enc (op_subs (op srv) ! k) then sink_blocks k (op_ogg_flush (op srv) k) srv else srv)"
  have "table (op srv1) = (ks, n, bw, tap)" using sink_table assms(1) by (simp add: srv1_def)
  then show ?thesis
    using use assms(1) by (simp add: drop_slot_def Let_def srv1_def [symmetric] table_def put_sub_def map_update) (simp add: sub_key_def zero_sub_def)
qed

lemma restart_table:
  assumes "table (op srv) = (ks, n, bw, tap)" "k < length ks"
  shows "table (op (restart_sub k i sr srv)) = (ks[k := (fst (ks ! k), i, False)], n, bw, tap)"
proof -
  define srv1 where "srv1 = (if as_enc (op_subs (op srv) ! k) then sink_blocks k (op_ogg_flush (op srv) k) srv else srv)"
  have t: "table (op srv1) = (ks, n, bw, tap)" using sink_table assms(1) by (simp add: srv1_def)
  then have "sub_key (op_subs (op srv1) ! k) = ks ! k" using assms(2) by (intro sub_key_nth) (simp_all add: table_def)
  then have "as_in_use (op_subs (op srv1) ! k) = fst (ks ! k)" by (metis sub_key_def fst_conv)
  then show ?thesis using t by (simp add: restart_sub_def Let_def srv1_def [symmetric] table_def put_sub_def map_update) (simp add: sub_key_def)
qed

lemma opened_table:
  assumes "table (op srv) = (ks, n, bw, tap)" "k < length ks"
  shows "table (op (sub_opened is_new k blocks srv)) =
    (ks[k := (is_new \<or> fst (ks ! k), fst (snd (ks ! k)), True)], if is_new then n + 1 else n, bw, tap)"
proof -
  define srv1 where "srv1 = sink_blocks k blocks srv"
  have t: "table (op srv1) = (ks, n, bw, tap)" using sink_table assms(1) by (simp add: srv1_def)
  then have key: "sub_key (op_subs (op srv1) ! k) = ks ! k" using assms(2) by (intro sub_key_nth) (simp_all add: table_def)
  then have "as_in_use (op_subs (op srv1) ! k) = fst (ks ! k)" "as_id (op_subs (op srv1) ! k) = fst (snd (ks ! k))"
    by (metis sub_key_def fst_conv snd_conv)+
  moreover have "k < length (op_subs (op srv1))" using t assms(2) by (auto simp: table_def)
  ultimately show ?thesis
    using t by (simp add: sub_opened_def Let_def srv1_def [symmetric] table_def put_sub_def map_update) (simp add: sub_key_def)
qed

lemma failed_table:
  assumes "table (op srv) = (ks, n, bw, tap)" "k < length ks"
  shows "table (op (sub_failed is_new k srv)) =
    (if is_new then (ks, n, bw, tap) else (ks[k := (False, snd (ks ! k))], n - 1, bw, tap))"
proof -
  have "sub_key (op_subs (op srv) ! k) = ks ! k" using assms by (intro sub_key_nth) (simp_all add: table_def)
  then have "snd (ks ! k) = (as_id (op_subs (op srv) ! k), as_enc (op_subs (op srv) ! k))" by (metis sub_key_def snd_conv)
  then show ?thesis using assms(1) by (simp add: sub_failed_def table_def put_sub_def map_update) (simp add: sub_key_def)
qed

lemma tap_table: "table (op (update_tap srv)) = (case table (op srv) of (ks, n, bw, tap) \<Rightarrow> (ks, n, bw, if bw \<noteq> None then n > 0 else tap))"
  by (simp add: update_tap_def table_def)

definition table_ok :: "(bool \<times> int \<times> bool) list \<times> nat \<times> int option \<times> bool \<Rightarrow> bool" where
  "table_ok t = (case t of (ks, n, bw, tap) \<Rightarrow> keys_ok ks n \<and> (bw \<noteq> None \<longrightarrow> tap = (n > 0)))"

lemma table_ok_iff: "table_ok (table a) \<longleftrightarrow> audio_ok a \<and> tap_ok a"
  by (simp add: table_ok_def table_def audio_ok_keys tap_ok_def)

lemma find_slot_key:
  assumes "table a = (ks, n, bw, tap)" "keys_ok ks n"
  shows "find_slot i a = Some k \<Longrightarrow> k < length ks \<and> ks ! k = (True, i, True)"
    and "find_slot i a = None \<Longrightarrow> i \<notin> (fst \<circ> snd) ` set (filter fst ks)"
    and "find_free_slot a = Some k \<Longrightarrow> k < length ks \<and> \<not> fst (ks ! k)"
proof -
  have ks: "ks = map sub_key (op_subs a)" "length (op_subs a) = SSO_AUDIO_MAX_SUBS" "length ks = SSO_AUDIO_MAX_SUBS"
    using assms by (auto simp: table_def keys_ok_def)
  have e: "as_enc (op_subs a ! k)" if "k < SSO_AUDIO_MAX_SUBS" "as_in_use (op_subs a ! k)" for k
    using assms(2) that ks by (auto simp: keys_ok_def list_all_length sub_key_def)
  show "find_slot i a = Some k \<Longrightarrow> k < length ks \<and> ks ! k = (True, i, True)"
    using e by (auto simp: find_slot_def ks sub_key_def dest!: find_upt)
  show "find_free_slot a = Some k \<Longrightarrow> k < length ks \<and> \<not> fst (ks ! k)"
    by (auto simp: find_free_slot_def ks sub_key_def dest!: find_upt)
  show "find_slot i a = None \<Longrightarrow> i \<notin> (fst \<circ> snd) ` set (filter fst ks)"
    by (auto simp: find_slot_def find_None_iff ks sub_key_def in_set_conv_nth)
qed

lemma drop_slot_ok:
  assumes "keys_ok ks n" "table (op srv) = (ks, n, bw, tap)" "k < SSO_AUDIO_MAX_SUBS"
  shows "\<exists>ks' n'. keys_ok ks' n' \<and> table (op (drop_slot k srv)) = (ks', n', bw, tap)"
  using drop_slot_table [OF assms(2), of k] keys_put(3) [OF assms(1,3)] assms by (auto simp: keys_ok_def)

lemma table_tap: "keys_ok ks n \<Longrightarrow> table (op srv) = (ks, n, bw, tap) \<Longrightarrow> table_ok (table (op (update_tap srv)))"
  by (simp add: tap_table table_ok_def)

lemma handle_ctl_table:
  assumes "table_ok (table (op srv))"
  shows "table_ok (table (op (operator_audio_handle_ctl i evt srv)))"
proof -
  obtain ks n bw tap where t: "table (op srv) = (ks, n, bw, tap)" by (metis prod_cases4)
  then have ok: "keys_ok ks n" using assms by (simp add: table_ok_def)
  have len: "length ks = SSO_AUDIO_MAX_SUBS" using ok by (simp add: keys_ok_def)
  note slots = find_slot_key [OF t ok]
  show ?thesis
  proof (cases "ev_audio_enable evt \<and> \<not> op_no_audio (op srv) \<and> op_bandwidth (op srv) \<noteq> None")
    case False
    have "table_ok (table (op (update_tap (case find_slot i (op srv) of None \<Rightarrow> srv | Some k \<Rightarrow> drop_slot k srv))))"
    proof (cases "find_slot i (op srv)")
      case (Some k)
      then obtain ks' n' where "keys_ok ks' n'" "table (op (drop_slot k srv)) = (ks', n', bw, tap)"
        using drop_slot_ok [OF ok t, of k] slots(1) len by auto
      then show ?thesis using table_tap Some by simp
    qed (simp add: table_tap [OF ok t])
    then show ?thesis
      using assms False by (auto simp: operator_audio_handle_ctl_def Let_def split: option.split)
  next
    case True
    then obtain rate where bw: "op_bandwidth (op srv) = Some rate" by auto
    define is_new where "is_new = (find_slot i (op srv) = None)"
    show ?thesis
    proof (cases "(case find_slot i (op srv) of Some k \<Rightarrow> Some k | None \<Rightarrow> find_free_slot (op srv))")
      case None
      then show ?thesis using True assms by (simp add: operator_audio_handle_ctl_def Let_def bw)
    next
      case (Some k)
      define sr where "sr = (if rate \<le> 0 then 96000 else rate)"
      define srv1 where "srv1 = restart_sub k i sr srv"
      have k: "k < length ks" and new: "is_new \<Longrightarrow> \<not> fst (ks ! k) \<and> i \<notin> (fst \<circ> snd) ` set (filter fst ks)"
        and old: "\<not> is_new \<Longrightarrow> ks ! k = (True, i, True)"
        using Some slots by (auto simp: is_new_def split: option.splits)
      have t1: "table (op srv1) = (ks[k := (fst (ks ! k), i, False)], n, bw, tap)" unfolding srv1_def by (rule restart_table [OF t k])
      have "keys_ok (ks[k := (True, i, True)]) (if is_new then n + 1 else n)"
        using keys_put(1,2) [OF ok, of k i] new old k len by auto
      then have "table_ok (table (op (update_tap (sub_opened is_new k blocks srv1))))" for blocks
        using opened_table [OF t1, of k is_new blocks] k new old by (auto simp: tap_table table_ok_def)
      moreover have "keys_ok (ks[k := (False, i, False)]) (if is_new then n else n - 1)"
        using keys_put(3,4) [OF ok, of k i False] new old k len by auto
      then have "table_ok (table (op (update_tap (sub_failed is_new k srv1))))"
        using failed_table [OF t1, of k is_new] k new old by (auto simp: tap_table table_ok_def)
      ultimately show ?thesis
        using True Some by (simp add: operator_audio_handle_ctl_def Let_def bw sr_def [symmetric] srv1_def [symmetric] is_new_def [symmetric] split: option.split)
    qed
  qed
qed

lemma pump_table: "table (op (operator_audio_pump batches srv)) = table (op srv)"
proof -
  have one: "same_subs (op srv) (op (pump_batch blocks srv))" for blocks srv
    unfolding pump_batch_def by (rule fold_same) (simp add: sink_op same_subs_refl)
  have "same_subs (op srv) (op (fold pump_batch batches srv))" by (rule fold_same) (rule one)
  then show ?thesis by (simp add: operator_audio_pump_def same_subs_table)
qed

lemma fold_drop_ok:
  assumes "\<And>k srv. f k srv = drop_slot k srv \<or> f k srv = srv" "keys_ok ks n" "table (op srv) = (ks, n, bw, tap)" "list_all (\<lambda>k. k < SSO_AUDIO_MAX_SUBS) js"
  shows "\<exists>ks' n'. keys_ok ks' n' \<and> table (op (fold f js srv)) = (ks', n', bw, tap)"
  using assms(2-4)
proof (induction js arbitrary: ks n srv)
  case (Cons j js)
  then have "\<exists>ks' n'. keys_ok ks' n' \<and> table (op (f j srv)) = (ks', n', bw, tap)"
    using assms(1) [of j srv] drop_slot_ok [OF Cons.prems(1,2), of j] by auto
  then show ?case using Cons by auto
qed auto

lemma prune_table: "table_ok (table (op srv)) \<Longrightarrow> table_ok (table (op (operator_audio_prune srv)))"
proof -
  assume t: "table_ok (table (op srv))"
  obtain ks n bw tap where k: "table (op srv) = (ks, n, bw, tap)" by (metis prod_cases4)
  then have ok: "keys_ok ks n" using t by (simp add: table_ok_def)
  define srv1 where "srv1 = fold (drop_gone (alive_subs srv)) [0..<SSO_AUDIO_MAX_SUBS] srv"
  have one: "drop_gone (alive_subs srv) k s = drop_slot k s \<or> drop_gone (alive_subs srv) k s = s" for k s by (simp add: drop_gone_def)
  obtain ks' n' where "keys_ok ks' n'" "table (op srv1) = (ks', n', bw, tap)"
    using fold_drop_ok [OF one ok k, of "[0..<SSO_AUDIO_MAX_SUBS]"] by (auto simp: srv1_def list_all_iff)
  then have tap1: "table_ok (table (op (update_tap srv1)))" by (rule table_tap)
  have "srv1 = srv" if none: "\<not> list_ex (\<lambda>k. as_in_use (op_subs (op srv) ! k) \<and> k \<notin> set (alive_subs srv)) [0..<SSO_AUDIO_MAX_SUBS]"
  proof -
    have "fold (drop_gone (alive_subs srv)) js srv = srv" if "set js \<subseteq> {0..<SSO_AUDIO_MAX_SUBS}" for js
      using that none by (induction js) (auto simp: drop_gone_def list_ex_iff)
    then show ?thesis by (simp add: srv1_def)
  qed
  then show ?thesis using t tap1 by (simp add: operator_audio_prune_def Let_def srv1_def [symmetric])
qed

lemma fold_drop_all:
  assumes "keys_ok ks n" "table (op srv) = (ks, n, bw, tap)" "list_all (\<lambda>k. k < SSO_AUDIO_MAX_SUBS) js"
  shows "\<exists>ks' n'. keys_ok ks' n' \<and> table (op (fold drop_slot js srv)) = (ks', n', bw, tap) \<and>
    (\<forall>j < SSO_AUDIO_MAX_SUBS. j \<in> set js \<or> \<not> fst (ks ! j) \<longrightarrow> \<not> fst (ks' ! j))"
  using assms
proof (induction js arbitrary: ks n srv)
  case (Cons j js)
  have len: "length ks = SSO_AUDIO_MAX_SUBS" using Cons.prems(1) by (simp add: keys_ok_def)
  define ks1 where "ks1 = (if fst (ks ! j) then ks[j := (False, 0, False)] else ks)"
  define n1 where "n1 = (if fst (ks ! j) then n - 1 else n)"
  have "keys_ok ks1 n1" using keys_put(3) [OF Cons.prems(1), of j] Cons.prems by (simp add: ks1_def n1_def)
  moreover have "table (op (drop_slot j srv)) = (ks1, n1, bw, tap)"
    using drop_slot_table [OF Cons.prems(2), of j] Cons.prems(3) len by (simp add: ks1_def n1_def)
  ultimately obtain ks' n' where "keys_ok ks' n'" "table (op (fold drop_slot js (drop_slot j srv))) = (ks', n', bw, tap)"
    and none: "\<forall>i < SSO_AUDIO_MAX_SUBS. i \<in> set js \<or> \<not> fst (ks1 ! i) \<longrightarrow> \<not> fst (ks' ! i)" using Cons.IH Cons.prems(3) by fastforce
  moreover have "\<not> fst (ks1 ! j)" "\<not> fst (ks ! i) \<Longrightarrow> \<not> fst (ks1 ! i)" for i
    using len Cons.prems(3) by (auto simp: ks1_def nth_list_update)
  ultimately show ?case by auto
qed auto

lemma shutdown_table:
  assumes "table_ok (table (op srv))"
  shows "table_ok (table (op (operator_audio_shutdown srv))) \<and> op_n (op (operator_audio_shutdown srv)) = 0"
proof -
  obtain ks n bw tap where k: "table (op srv) = (ks, n, bw, tap)" by (metis prod_cases4)
  then have ok: "keys_ok ks n" using assms by (simp add: table_ok_def)
  define srv1 where "srv1 = fold drop_slot [0..<SSO_AUDIO_MAX_SUBS] srv"
  obtain ks' n' where t: "keys_ok ks' n'" "table (op srv1) = (ks', n', bw, tap)" "\<forall>j < SSO_AUDIO_MAX_SUBS. \<not> fst (ks' ! j)"
    using fold_drop_all [OF ok k, of "[0..<SSO_AUDIO_MAX_SUBS]"] by (auto simp: srv1_def list_all_iff)
  have "\<not> fst x" if "x \<in> set ks'" for x using that t(1,3) by (auto simp: in_set_conv_nth keys_ok_def)
  then have "n' = 0" using t(1) by (auto simp: keys_ok_def filter_empty_conv)
  then have "table (op (upd_op (\<lambda>a. a\<lparr>op_n := 0\<rparr>) srv1)) = (ks', 0, bw, tap)" using t(2) by (simp add: table_def)
  then show ?thesis
    using t(1) \<open>n' = 0\<close> tap_table [of "upd_op (\<lambda>a. a\<lparr>op_n := 0\<rparr>) srv1"] unfolding operator_audio_shutdown_def srv1_def [symmetric]
    by (simp add: table_ok_def) (simp add: table_def)
qed

section \<open>Frames\<close>

text \<open>What a block becomes on the wire: its pieces, one event each, numbered on, the first one marked on a fresh stream.\<close>

fun frames :: "string \<Rightarrow> audio_sub \<Rightarrow> u8 list list \<Rightarrow> ipc_event list" where
  "frames now s [] = []"
| "frames now s (c # cs) = audio_event now s c # frames now (sub_sent s) cs"

lemma sink_chunks_concat: "concat (sink_chunks bs) = bs \<and> list_all (\<lambda>c. length c \<le> SSO_AUDIO_RAW_MAX) (sink_chunks bs)"
proof (induction bs rule: sink_chunks.induct)
  case (1 bs)
  then show ?case by (subst (1 2) sink_chunks.simps) auto
qed

text \<open>A frame holds its piece as base64, is well-formed and fits a line.\<close>

lemma frame_b64: "length c \<le> SSO_AUDIO_RAW_MAX \<Longrightarrow> ev_audio_b64 (audio_event now s c) = base64_text c"
proof -
  assume "length c \<le> SSO_AUDIO_RAW_MAX"
  then have "(length c + 2) div 3 \<le> 1366" by (simp add: SSO_AUDIO_RAW_MAX_def)
  then have "sso_base64_encoded_len (length c) + 1 \<le> SSO_AUDIO_B64_MAX" by (simp add: sso_base64_encoded_len_def SSO_AUDIO_B64_MAX_def)
  then show ?thesis by (simp add: audio_event_def Let_def sso_base64_encode_def)
qed

lemma b64_length: "length c \<le> SSO_AUDIO_RAW_MAX \<Longrightarrow> length (base64_text c) \<le> 5464"
proof -
  assume "length c \<le> SSO_AUDIO_RAW_MAX"
  then have "(length c + 2) div 3 \<le> 1366" by (simp add: SSO_AUDIO_RAW_MAX_def)
  then show ?thesis by (simp add: base64_text_length sso_base64_encoded_len_def)
qed

definition sub_ok :: "audio_sub \<Rightarrow> bool" where
  "sub_ok s \<longleftrightarrow> int32_ok (as_seq s) \<and> int32_ok (as_sr s) \<and> int32_ok (as_ch s)"

lemma zero_event_ok: "event_ok zero_ipc_event"
  by code_simp

lemma frame_ok: "sub_ok s \<Longrightarrow> length c \<le> SSO_AUDIO_RAW_MAX \<Longrightarrow> event_ok (audio_event now s c)"
proof -
  assume a: "sub_ok s" "length c \<le> SSO_AUDIO_RAW_MAX"
  have b: "audio_event now s c = (if as_started s then zero_ipc_event\<lparr>ev_type := SSO_EVT_AUDIO, ev_ts := snprintf 40 now, ev_audio_seq := as_seq s, ev_audio_b64 := base64_text c\<rparr>
    else zero_ipc_event\<lparr>ev_type := SSO_EVT_AUDIO, ev_ts := snprintf 40 now, ev_audio_seq := as_seq s, ev_audio_start := True, ev_audio_sr := as_sr s,
      ev_audio_ch := as_ch s, ev_audio_b64 := base64_text c\<rparr>)"
    using frame_b64 [OF a(2), of now s] by (simp add: audio_event_def Let_def event_init_def)
  show ?thesis
    using a b64_length [OF a(2)] zero_event_ok length_snprintf [of 40 now] unfolding b by (simp add: event_ok_def sub_ok_def)
qed

lemma escape_length: "length (json_escape c) \<le> 6"
  by (simp add: json_escape_def)

lemma escaped_length: "length (escaped s) \<le> 6 * length s"
  by (induction s) (use escape_length in \<open>auto simp: escaped_def intro: add_mono order_trans\<close>)

lemma escaped_plain: "(\<And>c. c \<in> set s \<Longrightarrow> c \<notin> {CHR 0x22, CHR 0x5C} \<and> 32 \<le> chr_code c) \<Longrightarrow> escaped s = s"
proof (induction s)
  case (Cons c s)
  have "c \<notin> {CHR 0x22, CHR 0x5C} \<and> 32 \<le> chr_code c" using Cons.prems by simp
  then have "json_escape c = [c]" by (auto simp: json_escape_def chr_code_def)
  then show ?case using Cons by (simp add: escaped_def)
qed (simp add: escaped_def)

definition frame_fields :: "ipc_event \<Rightarrow> (string \<times> jval) list" where
  "frame_fields e =
     [(''t'', JStr ''audio''), (''ts'', JStr (ev_ts e)), (''seq'', JInt (ev_audio_seq e)), (''start'', JBool True),
      (''sr'', JInt (ev_audio_sr e)), (''ch'', JInt (ev_audio_ch e)), (''data'', JStr (ev_audio_b64 e))]"

lemma zero_header:
  assumes "e = zero_ipc_event\<lparr>ev_type := SSO_EVT_AUDIO, ev_ts := ts, ev_audio_seq := q, ev_audio_start := st, ev_audio_sr := sr, ev_audio_ch := ch, ev_audio_b64 := b\<rparr>"
  shows "subseq (visible (event_fields e)) (frame_fields e)"
proof -
  have "event_fields e = header_fields e @ audio_fields e"
    by (simp add: assms event_fields_def zero_ipc_event_def stats_fields_def carries_tx_def cmd_fields_def)
  moreover have "subseq (visible (header_fields e)) [(''t'', JStr ''audio''), (''ts'', JStr (ev_ts e))]"
    by (simp add: assms zero_ipc_event_def header_fields_def visible_def sso_event_type_name_def g_event_types_def)
  moreover have "subseq (visible (audio_fields e)) [(''seq'', JInt (ev_audio_seq e)), (''start'', JBool True),
      (''sr'', JInt (ev_audio_sr e)), (''ch'', JInt (ev_audio_ch e)), (''data'', JStr (ev_audio_b64 e))]"
    by (simp add: assms zero_ipc_event_def audio_fields_def rate_fields_def visible_def)
  ultimately have "subseq (visible (event_fields e)) ([(''t'', JStr ''audio''), (''ts'', JStr (ev_ts e))] @
      [(''seq'', JInt (ev_audio_seq e)), (''start'', JBool True), (''sr'', JInt (ev_audio_sr e)), (''ch'', JInt (ev_audio_ch e)), (''data'', JStr (ev_audio_b64 e))])"
    unfolding visible_def by (simp only: filter_append list_emb_append_mono)
  then show ?thesis by (simp only: frame_fields_def append.simps)
qed

lemma subseq_sum: "subseq xs ys \<Longrightarrow> sum_list (map f xs) \<le> (sum_list (map f ys) :: nat)"
  by (induction rule: list_emb.induct) auto

lemma frame_zero:
  "\<exists>st sr ch. audio_event now s c = zero_ipc_event\<lparr>ev_type := SSO_EVT_AUDIO, ev_ts := snprintf 40 now, ev_audio_seq := as_seq s, ev_audio_start := st,
     ev_audio_sr := sr, ev_audio_ch := ch, ev_audio_b64 := ev_audio_b64 (audio_event now s c)\<rparr>"
proof (cases "as_started s")
  case True
  then show ?thesis
    by (intro exI [of _ False] exI [of _ 0] exI [of _ 0]) (simp add: audio_event_def Let_def event_init_def zero_ipc_event_def)
next
  case False
  then show ?thesis
    by (intro exI [of _ True] exI [of _ "as_sr s"] exI [of _ "as_ch s"]) (simp add: audio_event_def Let_def event_init_def zero_ipc_event_def)
qed

lemma frame_fits:
  assumes "length c \<le> SSO_AUDIO_RAW_MAX"
  shows "length (object_text (event_fields (audio_event now s c))) \<le> SSO_IPC_LINE_MAX"
proof -
  let ?e = "audio_event now s c"
  let ?n = "\<lambda>fs. sum_list (map (\<lambda>f. length (field_text f) + 1) fs)"
  obtain st sr ch where e: "?e = zero_ipc_event\<lparr>ev_type := SSO_EVT_AUDIO, ev_ts := snprintf 40 now, ev_audio_seq := as_seq s, ev_audio_start := st,
     ev_audio_sr := sr, ev_audio_ch := ch, ev_audio_b64 := ev_audio_b64 ?e\<rparr>" using frame_zero by blast
  have data: "escaped (ev_audio_b64 ?e) = ev_audio_b64 ?e" "length (ev_audio_b64 ?e) \<le> 5464"
    using escaped_plain base64_plain b64_length [OF assms] by (auto simp: frame_b64 [OF assms])
  have "ev_ts ?e = snprintf 40 now" by (subst e) simp
  then have "length (ev_ts ?e) < 40" using length_snprintf [of 40 now] by simp
  then have ts: "length (escaped (ev_ts ?e)) \<le> 234" using escaped_length [of "ev_ts ?e"] by simp
  have int: "length (jtext (JInt i)) \<le> 31" for i using length_snprintf [of 32 "show_int i"] by simp
  have "?n (visible (event_fields ?e)) \<le> ?n (frame_fields ?e)" by (rule subseq_sum) (rule zero_header [OF e])
  also have "\<dots> \<le> 6000"
    using data ts int [of "ev_audio_seq ?e"] int [of "ev_audio_sr ?e"] int [of "ev_audio_ch ?e"] by (simp add: frame_fields_def field_text_def escaped_def [of "''audio''"] json_escape_def chr_code_def del: jtext.simps(2))
  finally show ?thesis
    using render_length [of "visible (event_fields ?e)"] by (simp add: object_text_def SSO_IPC_LINE_MAX_def)
qed

lemma frame_wire:
  assumes "sub_ok s" "length c \<le> SSO_AUDIO_RAW_MAX"
  shows "\<exists>line. wire_line (audio_event now s c) line"
  using frame_ok [OF assms] frame_fits [OF assms(2), of now s]
  by (auto simp: wire_line_def encode_Some SSO_IPC_LINE_MAX_def) (simp add: audio_event_def Let_def)

section \<open>What a subscriber gets\<close>

definition stream :: "ipc_slot \<Rightarrow> string" where
  "stream s = sl_out s @ sl_write_buf s"

lemma stream_drain [simp]: "stream (slot_drain_write s) = stream s"
  using slot_drain_write_stream by (simp add: stream_def)

lemma send_stream:
  assumes "server_ok srv" "find_client i srv = Some c"
  shows "stream (clients (snd (sso_ipc_server_send i line srv)) ! c) \<in> {stream (clients srv ! c) @ line, stream (clients srv ! c)}"
proof -
  have "c < length (clients srv)" using assms find_client_slot [OF assms(2)] by (simp add: server_ok_def)
  then show ?thesis by (simp add: sso_ipc_server_send_def assms(2) upd_slot_def) (simp add: slot_queue_def stream_def)
qed

lemma lossy_stream:
  assumes "server_ok srv" "find_client i srv = Some c"
  shows "stream (clients (snd (sso_ipc_server_send_lossy i line srv)) ! c) \<in> {stream (clients srv ! c) @ line, stream (clients srv ! c)}"
proof -
  have "c < length (clients srv)" using assms find_client_slot [OF assms(2)] by (simp add: server_ok_def)
  moreover have "stream (snd (slot_queue_lossy line s)) \<in> {stream s @ line, stream s}" for s by (simp add: slot_queue_lossy_def stream_def)
  ultimately show ?thesis
    by (simp add: sso_ipc_server_send_lossy_def assms(2) upd_slot_def case_prod_beta) (metis stream_drain)
qed

lemma find_client_conns: "conns srv' = conns srv \<Longrightarrow> server_ok srv \<Longrightarrow> find_client i srv' = find_client i srv"
proof -
  assume a: "conns srv' = conns srv" "server_ok srv"
  then have "find (\<lambda>k. sl_fd (clients srv' ! k) \<ge> 0 \<and> sl_id (clients srv' ! k) = i) ks = find (\<lambda>k. sl_fd (clients srv ! k) \<ge> 0 \<and> sl_id (clients srv ! k) = i) ks"
    if "list_all (\<lambda>k. k < SSO_IPC_MAX_CLIENTS) ks" for ks
    using that conns_fd [OF a(1)] by (induction ks) (auto simp: server_ok_def)
  then show ?thesis by (simp add: find_client_def list_all_iff)
qed

lemma send_chunk_stream:
  assumes "server_ok srv" "find_client (as_id (op_subs (op srv) ! k)) srv = Some c"
    "wire_line (audio_event (op_now (op srv)) (op_subs (op srv) ! k) chunk) line"
  shows "stream (clients (send_chunk k chunk srv) ! c) \<in> {stream (clients srv ! c) @ line, stream (clients srv ! c)}"
proof -
  let ?s = "op_subs (op srv) ! k"
  let ?srv = "upd_op (put_sub k (sub_sent ?s)) srv"
  have f: "find_client (as_id ?s) ?srv = Some c" using assms(2) by (simp add: find_client_def)
  have ok: "server_ok ?srv" using assms(1) by simp
  show ?thesis
    using send_stream [OF ok f, of line] lossy_stream [OF ok f, of line] assms(3)
    by (simp add: send_chunk_def Let_def wire_line_def)
qed

lemma send_chunk_op_eq:
  "op (send_chunk k chunk srv) = put_sub k (sub_sent (op_subs (op srv) ! k)) (op srv)"
  by (simp add: send_chunk_def Let_def split: option.split)

lemma relay_chunks:
  assumes "server_ok srv" "k < length (op_subs (op srv))" "find_client (as_id (op_subs (op srv) ! k)) srv = Some c" "sub_ok (op_subs (op srv) ! k)"
    "as_seq (op_subs (op srv) ! k) + int (length cs) \<le> 2147483647" "list_all (\<lambda>c. length c \<le> SSO_AUDIO_RAW_MAX) cs"
  shows "\<exists>ls ms. list_all2 wire_line (frames (op_now (op srv)) (op_subs (op srv) ! k) cs) ls \<and> subseq ms ls \<and>
    stream (clients (fold (send_chunk k) cs srv) ! c) = stream (clients srv ! c) @ concat ms"
  using assms
proof (induction cs arbitrary: srv)
  case (Cons d cs)
  let ?s = "op_subs (op srv) ! k"
  let ?srv = "send_chunk k d srv"
  obtain line where line: "wire_line (audio_event (op_now (op srv)) ?s d) line" using frame_wire [of ?s d] Cons.prems by auto
  have o': "op_subs (op ?srv) ! k = sub_sent ?s" "k < length (op_subs (op ?srv))" "op_now (op ?srv) = op_now (op srv)"
    using Cons.prems(2) by (simp_all add: send_chunk_op_eq put_sub_def)
  have ok: "server_ok ?srv" "conns ?srv = conns srv" using keepsD [OF send_chunk_keeps Cons.prems(1)] by auto
  have f: "find_client (as_id (op_subs (op ?srv) ! k)) ?srv = Some c"
    using find_client_conns [OF ok(2) Cons.prems(1)] Cons.prems(3) by (simp add: o' sub_sent_def)
  have "sub_ok (sub_sent ?s)" using Cons.prems(4,5) by (auto simp: sub_ok_def sub_sent_def int32_ok_def)
  then obtain ls ms where IH: "list_all2 wire_line (frames (op_now (op srv)) (sub_sent ?s) cs) ls" "subseq ms ls"
    "stream (clients (fold (send_chunk k) cs ?srv) ! c) = stream (clients ?srv ! c) @ concat ms"
    using Cons.IH [OF ok(1) o'(2) f] Cons.prems(5,6) by (auto simp: o') (auto simp: sub_sent_def)
  define ms' where "ms' = (if stream (clients ?srv ! c) = stream (clients srv ! c) @ line then line # ms else ms)"
  have "subseq ms' (line # ls)" using IH(2) by (auto simp: ms'_def)
  moreover have "stream (clients ?srv ! c) @ concat ms = stream (clients srv ! c) @ concat ms'"
    using send_chunk_stream [OF Cons.prems(1,3) line] by (auto simp: ms'_def)
  ultimately show ?case
    using IH line by (intro exI [of _ "line # ls"] exI [of _ ms']) simp
qed auto

lemma shown_b64: "map demote (base64_text c) = base64_text c"
  using base64_plain [of _ c] by (intro map_idI) (fastforce simp: demote_def)

lemma received_frame:
  "length c \<le> SSO_AUDIO_RAW_MAX \<Longrightarrow> ev_audio_b64 (received (audio_event now s c)) = base64_text c"
  "ev_audio_seq (received (audio_event now s c)) = as_seq s"
proof -
  have ty: "ev_type (audio_event now s c) = SSO_EVT_AUDIO" "ev_audio_seq (audio_event now s c) = as_seq s"
    by (simp_all add: audio_event_def Let_def event_init_def)
  then show "length c \<le> SSO_AUDIO_RAW_MAX \<Longrightarrow> ev_audio_b64 (received (audio_event now s c)) = base64_text c"
    "ev_audio_seq (received (audio_event now s c)) = as_seq s"
    by (simp_all add: received_def Let_def frame_b64 shown_b64)
qed

lemma frames_data:
  "list_all (\<lambda>c. length c \<le> SSO_AUDIO_RAW_MAX) cs \<Longrightarrow>
   map (\<lambda>e. sso_base64_decode (ev_audio_b64 (received e)) SSO_AUDIO_RAW_MAX) (frames now s cs) = map Some cs"
proof (induction cs arbitrary: s)
  case (Cons c cs)
  have "sso_base64_encode c SSO_AUDIO_B64_MAX = Some (base64_text c)"
    using b64_length [of c] Cons.prems by (auto simp: sso_base64_encode_def base64_text_length SSO_AUDIO_B64_MAX_def)
  then have "sso_base64_decode (base64_text c) SSO_AUDIO_RAW_MAX = Some c" using base64_roundtrip Cons.prems by auto
  then show ?case using Cons by (simp add: received_frame)
qed simp

lemma frames_seq: "map (\<lambda>e. ev_audio_seq (received e)) (frames now s cs) = map (\<lambda>n. as_seq s + int n) [0..<length cs]"
proof (induction cs arbitrary: s)
  case (Cons c cs)
  then show ?case by (simp add: received_frame sub_sent_def map_upt_Suc del: upt_Suc)
qed simp

section \<open>Properties\<close>


text \<open>An operator with one listener, connected under id 1.\<close>

definition quiet_panel :: rx_panel_data where
  "quiet_panel = \<lparr>rp_have_session = False, rp_rec_active = False, rp_rx_freq_hz = 0, rp_peak_dbfs = 0, rp_rms_dbfs = 0, rp_frames_total = 0,
     rp_last_frame_summary = [], rp_age_s = -1, rp_pt_count = replicate 6 0, rp_pt_payload_len = replicate 6 0,
     rp_pt_payload = replicate 6 (replicate 64 0), rp_pt_summary = replicate 6 [], rp_ribbon_n = 0, rp_ribbon = [], rp_ribbon_peak = replicate 60 0,
     rp_frames_pcm = 0, rp_frames_vit = 0, rp_warning = []\<rparr>"

definition no_state :: last_state where
  "no_state = \<lparr>ls_valid = False, ls_sat = [], ls_az = 0, ls_el = 0, ls_freq_hz = 0, ls_doppler = 0, ls_tle = [], ls_tgt_az = 0, ls_tgt_el = 0,
     ls_flip = False, ls_in_pass = False, ls_tracking = False, ls_has_rot = False, ls_jul = 0, ls_idesg = [], ls_epoch_min = 0, ls_min_visible = 0,
     ls_min_above_0 = 0, ls_min_above_30 = 0, ls_max_el = 0, ls_pred_az = 0, ls_pred_el = 0, ls_alt_km = 0, ls_lat_deg = 0, ls_lon_deg = 0,
     ls_speed_kms = 0, ls_range_km = 0, ls_rrate_kms = 0\<rparr>"

definition demo_operator :: operator where
  "demo_operator = \<lparr>op_st = demo_state, op_now = ''2026-01-02T03:04:05.678Z'', op_rx = quiet_panel, op_last = no_state, op_no_audio = False,
     op_bandwidth = Some 96000, op_ogg_open = (\<lambda>sr ch q. Some [[1, 2, 3]]), op_ogg_flush = (\<lambda>k. []),
     op_subs = \<lparr>as_in_use = True, as_id = 1, as_enc = True, as_seq = 0, as_started = False, as_sr = 96000, as_ch = 1\<rparr> # replicate 3 zero_sub,
     op_n = 1, op_tap = True\<rparr>"

definition demo_listener :: op_server where
  "demo_listener = accept_loop [Accepted 7 (Some 1000) ''2026-01-02T03:04:05.678Z''] (sso_ipc_server_open 3 demo_operator)"

lemma demo_listener_ok: "server_ok demo_listener" "op demo_listener = demo_operator" "find_client 1 demo_listener = Some 0"
proof -
  show "server_ok demo_listener" unfolding demo_listener_def by (rule accept_loop_keeps [OF open_ok, THEN conjunct1])
  show "op demo_listener = demo_operator" "find_client 1 demo_listener = Some 0"
    by (simp_all add: demo_listener_def sso_ipc_server_open_def server_alloc_slot_def upd_slot_def accept_slot_def closed_slot_def find_client_def
        SSO_IPC_MAX_CLIENTS_def upt_rec numeral_eq_Suc)
qed


text \<open>
  C22: The table of listeners stays consistent under every control event, pump, prune and shutdown:
  the count is the number of slots in use and at most four, a slot in use has an encoder, no
  client has two streams, and the receiver's audio tap is on exactly when somebody listens.
\<close>

theorem audio_table_ok:
  assumes "audio_ok (op srv) \<and> tap_ok (op srv)"
  shows "audio_ok (op (operator_audio_handle_ctl i evt srv)) \<and> tap_ok (op (operator_audio_handle_ctl i evt srv)) \<and>
    audio_ok (op (operator_audio_pump batches srv)) \<and> tap_ok (op (operator_audio_pump batches srv)) \<and>
    audio_ok (op (operator_audio_prune srv)) \<and> tap_ok (op (operator_audio_prune srv)) \<and>
    audio_ok (op (operator_audio_shutdown srv)) \<and> tap_ok (op (operator_audio_shutdown srv)) \<and> \<not> operator_audio_active (op (operator_audio_shutdown srv))"
  using assms handle_ctl_table [of srv i evt] pump_table [of batches srv] prune_table [of srv] shutdown_table [of srv]
  by (simp add: table_ok_iff [symmetric] operator_audio_active_def)

theorem audio_table_ok_witness:
  "audio_ok demo_operator \<and> tap_ok demo_operator \<and> audio_ok (op (operator_audio_shutdown demo_listener)) \<and> op_n (op (operator_audio_shutdown demo_listener)) = 0"
proof -
  have "audio_ok demo_operator \<and> tap_ok demo_operator"
    by (simp add: audio_ok_def tap_ok_def demo_operator_def zero_sub_def SSO_AUDIO_MAX_SUBS_def list_all_iff)
  then show ?thesis using audio_table_ok [of demo_listener] demo_listener_ok by (simp add: operator_audio_active_def)
qed

end
