(* ===== verification/Operator_IPC.thy ===== *)
theory Operator_IPC
  imports Operator_Audio
begin

text \<open>
  \<^verbatim>\<open>src/src/control/operator_ipc.c\<close> and \<^verbatim>\<open>src/src/ipc/ipc_fill.c\<close>: the state the operator broadcasts, the
  snapshot it keeps of it, and the event callback of its server, which answers a viewer's hello
  with that snapshot. The callback is an instance of \<open>ipc_handler\<close>.
\<close>

section \<open>Filling an event\<close>

definition to_long :: "u64 \<Rightarrow> int" where
  "to_long x = sint x"

definition long_of_double :: "rat \<Rightarrow> int" where
  "long_of_double x = (if x \<ge> 0 then \<lfloor>x\<rfloor> else \<lceil>x\<rceil>)"

definition wire_pt :: "rx_panel_data \<Rightarrow> nat \<Rightarrow> rx_pt" where
  "wire_pt d s =
     (let pl = max 0 (rp_pt_payload_len d ! s); n = min (nat pl) SSO_RX_PT_PAYLOAD_MAX
      in \<lparr>pt_count = to_long (rp_pt_count d ! s), pt_payload_len = pl,
          pt_payload = take n (rp_pt_payload d ! s) @ replicate (SSO_RX_PT_PAYLOAD_MAX - n) 0,
          pt_summary = snprintf SSO_RX_PT_SUMMARY_MAX (rp_pt_summary d ! s)\<rparr>)"

definition ipc_fill_rx_panel :: "rx_panel_data \<Rightarrow> ipc_event \<Rightarrow> ipc_event" where
  "ipc_fill_rx_panel d e =
     (let e1 = e\<lparr>ev_rx_have_session := rp_have_session d, ev_rx_warning := snprintf 80 (rp_warning d)\<rparr>;
          rn = min (rp_ribbon_n d) SSO_RIBBON_MAX
      in if \<not> rp_have_session d then e1
         else e1\<lparr>ev_rx_rec_active := rp_rec_active d, ev_rx_freq_hz := rp_rx_freq_hz d, ev_rx_peak_dbfs := rp_peak_dbfs d,
               ev_rx_rms_dbfs := rp_rms_dbfs d, ev_rx_frames_total := to_long (rp_frames_total d),
               ev_rx_frames_pcm := to_long (rp_frames_pcm d), ev_rx_frames_vit := to_long (rp_frames_vit d),
               ev_rx_last_frame_summary := snprintf 80 (rp_last_frame_summary d), ev_rx_age_s := rp_age_s d,
               ev_rx_pt := map (wire_pt d) [0..<SSO_RX_PT_SLOTS], ev_rx_ribbon_n := int rn, ev_rx_ribbon := take rn (rp_ribbon d),
               ev_rx_ribbon_peak := take rn (rp_ribbon_peak d) @ replicate (SSO_RIBBON_MAX - rn) 0\<rparr>)"

record prediction =
  pr_name :: "string option"
  pr_idesg :: string
  pr_minutes_since_epoch :: rat
  pr_until_visible :: rat
  pr_above_0 :: rat
  pr_above_30 :: rat
  pr_max_elevation :: rat
  pr_azimuth :: rat
  pr_elevation :: rat
  pr_altitude_km :: rat
  pr_latitude :: rat
  pr_longitude :: rat
  pr_speed_km_s :: rat
  pr_range_km :: rat
  pr_range_rate_km_s :: rat

definition ipc_fill_state_prediction :: "prediction \<Rightarrow> ipc_event \<Rightarrow> ipc_event" where
  "ipc_fill_state_prediction p e =
     (let e1 = (case pr_name p of None \<Rightarrow> e | Some name \<Rightarrow> e\<lparr>ev_satellite := snprintf 64 name\<rparr>)
      in e1\<lparr>ev_idesg := snprintf 9 (pr_idesg p), ev_epoch_min := pr_minutes_since_epoch p, ev_min_visible := pr_until_visible p,
            ev_min_above_0 := pr_above_0 p, ev_min_above_30 := pr_above_30 p, ev_max_el := pr_max_elevation p,
            ev_pred_az := pr_azimuth p, ev_pred_el := pr_elevation p, ev_alt_km := pr_altitude_km p, ev_lat_deg := pr_latitude p,
            ev_lon_deg := pr_longitude p, ev_speed_kms := pr_speed_km_s p, ev_range_km := pr_range_km p,
            ev_range_rate_kms := pr_range_rate_km_s p\<rparr>)"

definition op_name :: "operator \<Rightarrow> string" where
  "op_name a = (case st_operator_user (op_st a) of None \<Rightarrow> ''?'' | Some u \<Rightarrow> u)"

definition fill_identity :: "operator \<Rightarrow> ipc_event \<Rightarrow> ipc_event" where
  "fill_identity a e = e\<lparr>ev_from := snprintf 64 (op_name a), ev_operator_user := snprintf 64 (op_name a)\<rparr>"

definition fill_folder :: "operator \<Rightarrow> ipc_event \<Rightarrow> ipc_event" where
  "fill_folder a e = (if st_pass_folder (op_st a) \<noteq> [] then e\<lparr>ev_pass_folder := snprintf 256 (st_pass_folder (op_st a))\<rparr> else e)"

definition fill_auto :: "operator \<Rightarrow> ipc_event \<Rightarrow> ipc_event" where
  "fill_auto a e =
     (case auto_tcmd_progress (op_st a) of None \<Rightarrow> e
      | Some (sent, tot, label) \<Rightarrow>
          e\<lparr>ev_auto_tcmd_on := True, ev_auto_tcmd_sent := to_int32 (int sent), ev_auto_tcmd_total := to_int32 (int tot),
            ev_auto_tcmd_state := snprintf 12 label\<rparr>)"

section \<open>The roster\<close>

definition SSO_IPC_MAX_CLIENTS_FOR_ROSTER :: nat where "SSO_IPC_MAX_CLIENTS_FOR_ROSTER = 16"

definition roster_client :: "int \<times> string \<times> string \<times> string \<Rightarrow> sso_roster_entry" where
  "roster_client c =
     (case c of (i, user, role, since) \<Rightarrow>
        \<lparr>re_user = snprintf 64 user, re_role = snprintf 16 (if role \<noteq> [] then role else ''viewer''), re_since = snprintf 40 since\<rparr>)"

text \<open>The operator first, then the clients that said who they are, while there is room.\<close>

definition op_roster :: "op_server \<Rightarrow> sso_roster_entry list" where
  "op_roster srv =
     take SSO_IPC_MAX_CLIENTS_FOR_ROSTER
       (\<lparr>re_user = snprintf 64 (op_name (op srv)), re_role = ''operator'', re_since = []\<rparr> #
        map roster_client (filter (\<lambda>(i, user, role, since). user \<noteq> []) (clients_from srv 0)))"

section \<open>Broadcasting the state\<close>

record track_state =
  tk_az :: rat
  tk_el :: rat
  tk_downlink_freq :: rat
  tk_doppler_delta :: rat
  tk_jul_utc :: rat
  tk_prediction :: prediction
  tk_tles_filename :: "string option"
  tk_target_azimuth :: rat
  tk_target_elevation :: rat
  tk_flip_mode_pass :: bool
  tk_in_pass :: bool
  tk_tracking :: bool
  tk_have_rotator :: bool

definition track_event :: "operator \<Rightarrow> track_state \<Rightarrow> ipc_event" where
  "track_event a t =
     (let e = fill_identity a (event_init (op_now a) SSO_EVT_STATE);
          e1 = fill_folder a (e\<lparr>ev_has_state := True, ev_az := tk_az t, ev_el := tk_el t,
                 ev_freq_hz := long_of_double (tk_downlink_freq t), ev_doppler_hz := tk_doppler_delta t\<rparr>);
          e2 = (case tk_tles_filename t of None \<Rightarrow> e1 | Some f \<Rightarrow> e1\<lparr>ev_tle_path := snprintf 256 f\<rparr>);
          e3 = e2\<lparr>ev_target_az := tk_target_azimuth t, ev_target_el := tk_target_elevation t, ev_flip := tk_flip_mode_pass t,
                 ev_in_pass := tk_in_pass t, ev_tracking := tk_tracking t, ev_has_rotator := tk_have_rotator t, ev_jul_utc := tk_jul_utc t\<rparr>
      in ipc_fill_state_prediction (tk_prediction t) e3)"

definition state_event :: "operator \<Rightarrow> sso_roster_entry list \<Rightarrow> track_state \<Rightarrow> ipc_event" where
  "state_event a entries t =
     ipc_fill_rx_panel (op_rx a) (snd (sso_event_set_roster (fill_auto a (track_event a t)) entries))"

definition remember :: "ipc_event \<Rightarrow> last_state" where
  "remember e =
     \<lparr>ls_valid = True, ls_sat = snprintf 64 (ev_satellite e), ls_az = ev_az e, ls_el = ev_el e, ls_freq_hz = ev_freq_hz e, ls_doppler = ev_doppler_hz e,
      ls_tle = snprintf 256 (ev_tle_path e), ls_tgt_az = ev_target_az e, ls_tgt_el = ev_target_el e, ls_flip = ev_flip e, ls_in_pass = ev_in_pass e,
      ls_tracking = ev_tracking e, ls_has_rot = ev_has_rotator e, ls_jul = ev_jul_utc e, ls_idesg = snprintf 9 (ev_idesg e),
      ls_epoch_min = ev_epoch_min e, ls_min_visible = ev_min_visible e, ls_min_above_0 = ev_min_above_0 e, ls_min_above_30 = ev_min_above_30 e,
      ls_max_el = ev_max_el e, ls_pred_az = ev_pred_az e, ls_pred_el = ev_pred_el e, ls_alt_km = ev_alt_km e, ls_lat_deg = ev_lat_deg e,
      ls_lon_deg = ev_lon_deg e, ls_speed_kms = ev_speed_kms e, ls_range_km = ev_range_km e, ls_rrate_kms = ev_range_rate_kms e\<rparr>"

definition ipc_broadcast_state :: "track_state \<Rightarrow> op_server \<Rightarrow> op_server" where
  "ipc_broadcast_state t srv =
     (let e = state_event (op srv) (op_roster srv) t;
          srv1 = (case sso_event_encode e SSO_IPC_LINE_MAX of None \<Rightarrow> srv | Some line \<Rightarrow> sso_ipc_server_broadcast line srv)
      in upd_op (\<lambda>a. a\<lparr>op_last := remember e\<rparr>) srv1)"

section \<open>Answering a hello\<close>

definition fill_last :: "last_state \<Rightarrow> ipc_event \<Rightarrow> ipc_event" where
  "fill_last l e =
     e\<lparr>ev_has_state := True, ev_satellite := snprintf 64 (ls_sat l), ev_tle_path := snprintf 256 (ls_tle l), ev_az := ls_az l, ev_el := ls_el l,
       ev_freq_hz := ls_freq_hz l, ev_doppler_hz := ls_doppler l, ev_target_az := ls_tgt_az l, ev_target_el := ls_tgt_el l, ev_flip := ls_flip l,
       ev_in_pass := ls_in_pass l, ev_tracking := ls_tracking l, ev_has_rotator := ls_has_rot l, ev_jul_utc := ls_jul l,
       ev_idesg := snprintf 9 (ls_idesg l), ev_epoch_min := ls_epoch_min l, ev_min_visible := ls_min_visible l, ev_min_above_0 := ls_min_above_0 l,
       ev_min_above_30 := ls_min_above_30 l, ev_max_el := ls_max_el l, ev_pred_az := ls_pred_az l, ev_pred_el := ls_pred_el l, ev_alt_km := ls_alt_km l,
       ev_lat_deg := ls_lat_deg l, ev_lon_deg := ls_lon_deg l, ev_speed_kms := ls_speed_kms l, ev_range_km := ls_range_km l,
       ev_range_rate_kms := ls_rrate_kms l\<rparr>"

definition welcome_event :: "operator \<Rightarrow> sso_roster_entry list \<Rightarrow> ipc_event" where
  "welcome_event a entries =
     (let e = fill_folder a (fill_identity a (event_init (op_now a) SSO_EVT_WELCOME))
      in if \<not> ls_valid (op_last a) then e
         else ipc_fill_rx_panel (op_rx a) (snd (sso_event_set_roster (fill_auto a (fill_last (op_last a) e)) entries)))"

definition ipc_on_event :: "operator ipc_handler_fn" where
  "ipc_on_event srv i evt =
     (if ev_type evt = SSO_EVT_AUDIO_CTL then operator_audio_handle_ctl i evt srv
      else if ev_type evt \<noteq> SSO_EVT_HELLO then srv
      else case sso_event_encode (welcome_event (op srv) (op_roster srv)) SSO_IPC_LINE_MAX of None \<Rightarrow> srv
        | Some line \<Rightarrow> snd (sso_ipc_server_send i line srv))"

section \<open>The callback keeps the server\<close>

lemma roster_clean: "clean (ev_roster_json (snd (sso_event_set_roster e entries)))"
proof -
  have esc: "clean (json_escape c)" for c using clean_escaped [of "[c]"] by (simp add: escaped_def)
  have "clean (concat (string_pieces s))" for s by (simp add: concat_string_pieces clean_escaped)
  then have "clean (concat (entry_pieces r))" for r by (simp add: entry_pieces_def roster_key_def)
  then have "clean (concat (entries_pieces first rs))" for first rs by (induction first rs rule: entries_pieces.induct) simp_all
  then have all: "clean (concat (''['' # entries_pieces True entries @ ['']'']))" by simp
  obtain t where "snd (append_pieces 1023 [] (''['' # entries_pieces True entries @ ['']''])) = t" "set t \<subseteq> set (concat (''['' # entries_pieces True entries @ ['']'']))"
    using append_pieces_prefix [of 1023 "[]" "''['' # entries_pieces True entries @ ['']'']"] by auto
  then have "clean t" using all by (auto simp: clean_def list_all_iff)
  then show ?thesis using \<open>snd _ = t\<close> by (simp add: sso_event_set_roster_def case_prod_beta del: append_pieces.simps)
qed

lemma fill_roster [simp]:
  "ev_roster_json (ipc_fill_rx_panel d e) = ev_roster_json e" "ev_roster_json (fill_folder a e) = ev_roster_json e"
  "ev_roster_json (fill_identity a e) = ev_roster_json e"
  by (simp_all add: ipc_fill_rx_panel_def fill_folder_def fill_identity_def Let_def)

lemma welcome_text: "sso_event_encode (welcome_event a entries) SSO_IPC_LINE_MAX = Some line \<Longrightarrow> wire_text line"
  by (erule encode_text [rotated]) (simp add: welcome_event_def Let_def roster_clean)

lemma state_text: "sso_event_encode (state_event a entries t) SSO_IPC_LINE_MAX = Some line \<Longrightarrow> wire_text line"
  by (erule encode_text [rotated]) (simp add: state_event_def Let_def roster_clean)

interpretation operator: ipc_handler ipc_on_event
proof
  fix srv :: op_server and i e
  assume "server_ok srv"
  then show "server_ok (ipc_on_event srv i e) \<and> conns (ipc_on_event srv i e) = conns srv"
    using keepsD [OF handle_ctl_keeps] by (auto simp: ipc_on_event_def sends_ok split: option.split dest: welcome_text)
qed

section \<open>The operator's server at work\<close>

lemma pump_keeps: "keeps (operator_audio_pump batches)"
proof -
  have "keeps (\<lambda>srv. if as_in_use (op_subs (op srv) ! k) then sink_blocks k (blocks k) srv else srv)" for k and blocks :: "nat \<Rightarrow> u8 list list"
    using keepsD [OF sink_keeps] by (simp add: keeps_def)
  from keeps_fold [of "\<lambda>k srv. if as_in_use (op_subs (op srv) ! k) then sink_blocks k (_ k) srv else srv", OF this]
  have "keeps (pump_batch blocks)" for blocks by (simp add: keeps_def pump_batch_def)
  from keepsD [OF keeps_fold [of pump_batch, OF this]] show ?thesis by (simp add: keeps_def operator_audio_pump_def)
qed

lemma audio_prune_keeps: "keeps operator_audio_prune"
proof -
  have "keeps (drop_gone alive k)" for alive k using keepsD [OF drop_slot_keeps] by (simp add: keeps_def drop_gone_def)
  from keepsD [OF keeps_fold [of "drop_gone _", OF this]] show ?thesis
    using keepsD [OF update_tap_keeps] by (simp add: keeps_def operator_audio_prune_def Let_def)
qed

lemma audio_shutdown_keeps: "keeps operator_audio_shutdown"
proof -
  have "server_ok (fold drop_slot ks srv) \<and> conns (fold drop_slot ks srv) = conns srv" if "server_ok srv" for ks srv
    using keepsD [OF keeps_fold [of drop_slot, OF drop_slot_keeps]] that by simp
  then show ?thesis using keepsD [OF update_tap_keeps] by (simp add: keeps_def operator_audio_shutdown_def)
qed

lemma broadcast_state_keeps: "keeps (ipc_broadcast_state t)"
  using broadcast_keeps by (auto simp: keeps_def ipc_broadcast_state_def Let_def split: option.split dest: state_text)

text \<open>
  Everything the operator program does to its server, and everything the kernel and the rest of
  the program do in between.
\<close>

inductive op_step :: "op_server \<Rightarrow> op_server \<Rightarrow> bool" where
  Serve: "op_step srv (snd (sso_ipc_server_step ipc_on_event pr srv))"
| State: "op_step srv (ipc_broadcast_state t srv)"
| Pump: "op_step srv (operator_audio_pump batches srv)"
| Prune: "op_step srv (operator_audio_prune srv)"
| Shutdown: "op_step srv (operator_audio_shutdown srv)"
| Kernel: "k < SSO_IPC_MAX_CLIENTS \<Longrightarrow> op_step srv (upd_slot k (\<lambda>s. s\<lparr>sl_in := rs, sl_wr := ws\<rparr>) srv)"
| Incoming: "op_step srv (srv\<lparr>srv_accepts := as\<rparr>)"
| Program: "op_step srv (upd_op f srv)"

abbreviation op_run :: "op_server \<Rightarrow> op_server \<Rightarrow> bool" where
  "op_run \<equiv> op_step\<^sup>*\<^sup>*"

lemma keeps_later: "keeps f \<Longrightarrow> server_ok srv \<Longrightarrow> later srv (f srv)"
  using keepsD later_conns by blast

lemma op_step_later: "op_step srv srv' \<Longrightarrow> server_ok srv \<Longrightarrow> later srv srv'"
proof (induction rule: op_step.induct)
  case (Kernel k srv ws rs)
  then show ?case by (intro operator.one_step srv_step.Kernel)
qed (auto intro: operator.one_step srv_step.intros keeps_later broadcast_state_keeps pump_keeps audio_prune_keeps audio_shutdown_keeps)

lemma op_run_later: "op_run srv srv' \<Longrightarrow> server_ok srv \<Longrightarrow> later srv srv'"
proof (induction rule: rtranclp_induct)
  case base
  then show ?case by (simp add: later_def)
next
  case (step b c)
  then show ?case using op_step_later [OF step(2)] later_trans later_def by blast
qed



text \<open>A viewer that is connected and has read nothing yet.\<close>

definition demo_viewer :: "string list \<Rightarrow> ipc_client" where
  "demo_viewer ds = (sso_ipc_client_connect 5)\<lparr>cli_in := map RData ds\<rparr>"

lemma accept_loop_queue: "accept_loop as (srv\<lparr>srv_accepts := bs\<rparr>) = accept_loop as srv"
proof (induction as arbitrary: srv bs)
  case (Cons x as)
  show ?case
  proof (cases x)
    case (Accepted fd uid now)
    have "upd_slot k f (srv\<lparr>srv_accepts := bs\<rparr>)\<lparr>next_id := n\<rparr> = (upd_slot k f srv\<lparr>next_id := n\<rparr>)\<lparr>srv_accepts := bs\<rparr>" for k f n
      by (simp add: upd_slot_def)
    then show ?thesis using Cons by (simp add: Accepted server_alloc_slot_def split: option.split)
  qed (simp_all add: Cons)
qed simp

lemma demo_listener_step: "op_run (sso_ipc_server_open 3 demo_operator) (prune demo_listener)"
proof -
  let ?s = "(sso_ipc_server_open 3 demo_operator)\<lparr>srv_accepts := [Accepted 7 (Some 1000) ''2026-01-02T03:04:05.678Z'']\<rparr>"
  have none: "filter (\<lambda>i. sl_fd (clients ?s ! i) \<ge> 0) [0..<SSO_IPC_MAX_CLIENTS] = []"
    by (simp add: filter_empty_conv sso_ipc_server_open_def closed_slot_def)
  have "op_step ?s (snd (sso_ipc_server_step ipc_on_event (PollReady (True, \<lambda>_. \<lparr>rv_err = False, rv_in = False, rv_out = False\<rparr>)) ?s))" by (rule op_step.Serve)
  moreover have "op_step (sso_ipc_server_open 3 demo_operator) ?s" by (rule op_step.Incoming)
  moreover have "snd (sso_ipc_server_step ipc_on_event (PollReady (True, \<lambda>_. \<lparr>rv_err = False, rv_in = False, rv_out = False\<rparr>)) ?s) = prune demo_listener"
    unfolding sso_ipc_server_step_def Let_def none
    by (simp add: server_accept_def demo_listener_def accept_loop_queue del: accept_loop.simps) (simp add: sso_ipc_server_open_def)
  ultimately show ?thesis by (metis (no_types, lifting) converse_rtranclp_into_rtranclp rtranclp.rtrancl_refl)
qed

definition demo_track :: track_state where
  "demo_track = \<lparr>tk_az = 0, tk_el = 0, tk_downlink_freq = 436150000, tk_doppler_delta = 0, tk_jul_utc = 0,
     tk_prediction = \<lparr>pr_name = Some ''CTS-SAT-1'', pr_idesg = ''25001A'', pr_minutes_since_epoch = 0, pr_until_visible = 0, pr_above_0 = 0, pr_above_30 = 0,
       pr_max_elevation = 0, pr_azimuth = 0, pr_elevation = 0, pr_altitude_km = 0, pr_latitude = 0, pr_longitude = 0, pr_speed_km_s = 0, pr_range_km = 0,
       pr_range_rate_km_s = 0\<rparr>, tk_tles_filename = None, tk_target_azimuth = 0, tk_target_elevation = 0, tk_flip_mode_pass = False, tk_in_pass = True,
     tk_tracking = True, tk_have_rotator = True\<rparr>"

definition demo_ready :: op_server where
  "demo_ready = upd_slot 0 (\<lambda>s. s\<lparr>sl_in := [], sl_wr := [WBytes 100]\<rparr>) (prune demo_listener)"

lemma demo_ready_run: "op_run (sso_ipc_server_open 3 demo_operator) demo_ready"
proof -
  have "op_step (prune demo_listener) demo_ready" unfolding demo_ready_def by (rule op_step.Kernel) (simp add: SSO_IPC_MAX_CLIENTS_def)
  then show ?thesis using demo_listener_step by (rule rtranclp.rtrancl_into_rtrancl [rotated])
qed

lemma demo_state_line:
  "wire_line (state_event (op demo_ready) (op_roster demo_ready) demo_track) (object_text (event_fields (state_event (op demo_ready) (op_roster demo_ready) demo_track)))"
proof -
  let ?e = "state_event (op demo_ready) (op_roster demo_ready) demo_track"
  have "event_ok ?e" "clean (ev_roster_json ?e)" "length (object_text (event_fields ?e)) \<le> 1000" by code_simp+
  then show ?thesis by (simp add: wire_line_def encode_Some SSO_IPC_LINE_MAX_def)
qed

lemma demo_slot:
  "live (clients demo_ready ! 0)" "live (clients (ipc_broadcast_state demo_track demo_ready) ! 0)"
  "sl_out (clients (ipc_broadcast_state demo_track demo_ready) ! 0) \<noteq> []"
proof -
  let ?line = "object_text (event_fields (state_event (op demo_ready) (op_roster demo_ready) demo_track))"
  have s: "sl_fd (clients demo_ready ! 0) = 7 \<and> \<not> sl_dead (clients demo_ready ! 0) \<and> sl_write_buf (clients demo_ready ! 0) = [] \<and>
    sl_out (clients demo_ready ! 0) = [] \<and> sl_wr (clients demo_ready ! 0) = [WBytes 100] \<and> length (clients demo_ready) = 32" by code_simp
  have line: "sso_event_encode (state_event (op demo_ready) (op_roster demo_ready) demo_track) SSO_IPC_LINE_MAX = Some ?line" "length ?line \<le> SSO_IPC_LINE_MAX"
    using demo_state_line by (auto simp: wire_line_def encode_Some)
  have "clients (ipc_broadcast_state demo_track demo_ready) ! 0 = slot_drain_write (slot_queue ?line (clients demo_ready ! 0))"
    using s line by (simp add: ipc_broadcast_state_def Let_def sso_ipc_server_broadcast_def)
  moreover have "slot_queue ?line (clients demo_ready ! 0) = (clients demo_ready ! 0)\<lparr>sl_write_buf := ?line\<rparr>"
    using s line(2) by (simp add: slot_queue_def SSO_IPC_LINE_MAX_def SSO_IPC_WRITE_BUF_def)
  moreover obtain rest where "?line = CHR ''{'' # rest" by (simp add: object_text_def)
  moreover have "drain_write [] buf taken = (False, [], buf, taken)" for buf taken by (cases buf) simp_all
  ultimately show "live (clients demo_ready ! 0)" "live (clients (ipc_broadcast_state demo_track demo_ready) ! 0)"
    "sl_out (clients (ipc_broadcast_state demo_track demo_ready) ! 0) \<noteq> []"
    using s by (simp_all add: live_def slot_drain_write_def)
qed



lemma wire_text_rest: "list_all wire_text ls \<Longrightarrow> newline \<notin> set (concat ls) \<Longrightarrow> ls = []"
  by (cases ls) (auto simp: wire_text_def)




text \<open>The listener of \<open>demo_ready\<close> hangs up.\<close>

definition demo_gone :: op_server where
  "demo_gone = snd (sso_ipc_server_step ipc_on_event (PollReady (False, \<lambda>_. \<lparr>rv_err = True, rv_in = False, rv_out = False\<rparr>)) demo_ready)"


section \<open>A newcomer sees what everybody sees\<close>

lemma snprintf_again [simp]: "snprintf n (snprintf n s) = snprintf n s"
  by (simp add: snprintf_def)

lemma snprintf_Nil [simp]: "snprintf n [] = []"
  by (simp add: snprintf_def)

lemma remember_simps [simp]:
  "remember (ipc_fill_rx_panel d e) = remember e" "remember (snd (sso_event_set_roster e entries)) = remember e" "remember (fill_auto a e) = remember e"
  by (simp_all add: remember_def ipc_fill_rx_panel_def sso_event_set_roster_def fill_auto_def Let_def case_prod_beta split: option.split)

lemma type_simps [simp]:
  "ipc_fill_rx_panel d (e\<lparr>ev_type := ty\<rparr>) = (ipc_fill_rx_panel d e)\<lparr>ev_type := ty\<rparr>"
  "snd (sso_event_set_roster (e\<lparr>ev_type := ty\<rparr>) entries) = (snd (sso_event_set_roster e entries))\<lparr>ev_type := ty\<rparr>"
  "fill_auto a (e\<lparr>ev_type := ty\<rparr>) = (fill_auto a e)\<lparr>ev_type := ty\<rparr>"
  by (simp_all add: ipc_fill_rx_panel_def sso_event_set_roster_def fill_auto_def Let_def case_prod_beta split: option.split)

lemma fill_last_track:
  assumes "b = a\<lparr>op_last := remember (track_event a t), op_now := now\<rparr>"
  shows "fill_last (op_last b) (fill_folder b (fill_identity b (event_init now SSO_EVT_WELCOME))) = (track_event (a\<lparr>op_now := now\<rparr>) t)\<lparr>ev_type := SSO_EVT_WELCOME\<rparr>"
  unfolding assms
  by (cases "tk_tles_filename t"; cases "pr_name (tk_prediction t)"; cases "st_pass_folder (op_st a) = []")
    (simp_all add: track_event_def fill_last_def remember_def fill_folder_def fill_identity_def op_name_def event_init_def ipc_fill_state_prediction_def zero_ipc_event_def)

text \<open>
  C40: The welcome that answers a hello after a broadcast is the broadcast state under the name of
  a welcome: what the operator remembers of the state is everything a later viewer needs, and
  the rest is filled from the same sources.
\<close>

theorem welcome_matches_state:
  "welcome_event ((op (ipc_broadcast_state t srv))\<lparr>op_now := now\<rparr>) entries = (state_event ((op srv)\<lparr>op_now := now\<rparr>) entries t)\<lparr>ev_type := SSO_EVT_WELCOME\<rparr>"
proof -
  have op: "op (ipc_broadcast_state t srv) = (op srv)\<lparr>op_last := remember (state_event (op srv) (op_roster srv) t)\<rparr>"
    by (simp add: ipc_broadcast_state_def Let_def sso_ipc_server_broadcast_def split: option.split)
  let ?b = "(op srv)\<lparr>op_last := remember (track_event (op srv) t), op_now := now\<rparr>"
  have "welcome_event ?b entries = ipc_fill_rx_panel (op_rx (op srv)) (snd (sso_event_set_roster (fill_auto ?b
      (fill_last (op_last ?b) (fill_folder ?b (fill_identity ?b (event_init now SSO_EVT_WELCOME))))) entries))"
    by (simp add: welcome_event_def remember_def Let_def)
  moreover have "fill_auto ?b = fill_auto ((op srv)\<lparr>op_now := now\<rparr>)" by (simp add: fun_eq_iff fill_auto_def)
  ultimately have "welcome_event ?b entries = (state_event ((op srv)\<lparr>op_now := now\<rparr>) entries t)\<lparr>ev_type := SSO_EVT_WELCOME\<rparr>"
    unfolding fill_last_track [OF refl] by (simp add: state_event_def)
  then show ?thesis by (simp add: op state_event_def)
qed

end
