(* ===== verification/Spec2Isabelle.thy ===== *)
theory Spec2Isabelle
  imports Uplink Operator_IPC
begin

text \<open>
  Simple Satellite Operations is the ground-station program of a small satellite. An operator
  session (\<^verbatim>\<open>src/apps/main.c\<close>) tracks the satellite, receives its packets, lets the operator
  compose telecommands or run them from a file, and transmits them through a software-defined
  radio; viewers on the same machine follow the session over a local socket. This development
  models two of its paths from end to end, from the C sources under \<^verbatim>\<open>src/src/\<close>:

  \<^item> the \<^emph>\<open>uplink\<close>, from a key press or a line of a command file to the bytes on the air and the
    line in the log;
  \<^item> the \<^emph>\<open>session channel\<close>, from the state of the operator to the event a viewer gets.

  \<^bold>\<open>Link layer.\<close> \<open>Golay24\<close> (\<^verbatim>\<open>proto/golay24.c\<close>): encoder and exhaustive decoder; three errors are
  corrected and four detected. \<open>Reed_Solomon\<close> (\<^verbatim>\<open>proto/rs.c\<close>): tables, systematic encoder and the
  whole decoder, syndromes to Forney; a code word decodes to itself, and a successful decoding
  stays within its report. \<open>CSP\<close> (\<^verbatim>\<open>proto/csp.c\<close>): header packing, parsing and CRC-32C. \<open>AX100\<close>
  (\<^verbatim>\<open>proto/ax100.c\<close>): HMAC trailer, Reed-Solomon stage, scrambler, Golay length header, framing,
  deframing with the search for a length; round trip, authenticity, and rescue of a damaged
  length. The stages are instances of the locale \<open>codec\<close> of \<open>SSO_Prelude\<close> and are stacked by its
  \<open>codec_chain\<close>. SHA-1 is OpenSSL's and a parameter.

  \<^bold>\<open>Commands.\<close> \<open>C_String\<close>: the part of the C library the text code uses. \<open>Agenda_Line\<close>
  (\<^verbatim>\<open>proto/agenda_line.c\<close>), \<open>SSO_Pseudo\<close> (\<^verbatim>\<open>proto/sso_pseudo.c\<close>), \<open>Tcmd_Spec\<close>
  (\<^verbatim>\<open>proto/tcmd_spec.c\<close>, all 242 telecommands) and \<open>Tcmd_Lint\<close> (\<^verbatim>\<open>proto/tcmd_lint.c\<close>): comments,
  expansion, table and linter; the linter is equal to an independent statement of the firmware's
  grammar and the ground's policy, and its gate lets nothing dangerous or malformed through.

  \<^bold>\<open>Operator windows.\<close> \<open>UI_Textfield\<close> (\<^verbatim>\<open>ui/ui_textfield.c\<close>), \<open>Tx_State\<close> (\<^verbatim>\<open>tx_state.h\<close>,
  \<^verbatim>\<open>ui/tx_log.c\<close>), \<open>Tx_Compose\<close> (\<^verbatim>\<open>ui/tx_compose.c\<close>), \<open>Auto_Load\<close> and \<open>Auto_Tcmd\<close>
  (\<^verbatim>\<open>ui/auto_tcmd.c\<close>): every key handler and tick. The locale \<open>preserved\<close> carries the invariants
  over runs. A staged burst was allowed, is in range and can be framed; a run sends the commands of
  its file in order, each as often as asked, survives pausing, and completes.

  \<^bold>\<open>Transmission.\<close> \<open>Tx_Burst\<close> (\<^verbatim>\<open>pipeline/tx_burst.c\<close>): frame building and \<^verbatim>\<open>tx_burst_run\<close>, refined
  down to the receiver's deframing. \<open>Burst_Handoff\<close> (the burst slot of \<^verbatim>\<open>pipeline/rx_session.c\<close>):
  the critical sections of the main loop and the TX thread as steps of an interleaving, against
  the locale \<open>burst_mailbox\<close>; first in, first out, once, and never stranded. \<open>Tx_Service\<close>: the main
  loop's servicing of a request, with its one outcome. \<open>Uplink\<close>: all of these interleaved; every
  burst on the air is signed with the station's key, and the log says sent exactly for those.

  \<^bold>\<open>Session channel.\<close> \<open>IPC_Json\<close>, \<open>IPC_Event\<close> and \<open>IPC_Wire\<close> (\<^verbatim>\<open>ipc/sso_ipc_codec.c\<close>): the
  bounded JSON writer, the scanner, the event with all its fields, encoder, decoder and roster;
  what is decoded is what was encoded, up to the precision of \<^verbatim>\<open>%.6g\<close> and the control characters
  the reader replaces. \<open>Sso_Base64\<close> (\<^verbatim>\<open>ipc/sso_base64.c\<close>). \<open>IPC_Socket\<close>
  (\<^verbatim>\<open>ipc/sso_ipc_client.c\<close> and the loops it shares with the server) and \<open>IPC_Server\<close>
  (\<^verbatim>\<open>ipc/sso_ipc_server.c\<close>): what the kernel answers to accept, poll, read and write is data, so a
  statement about all states holds for every fragmentation, refusal and hang-up. The server's
  relying on its event callback is the locale \<open>ipc_handler\<close>. \<open>Operator_Audio\<close>
  (\<^verbatim>\<open>control/operator_audio.c\<close>): the live-audio listeners; the Ogg encoder is libsndfile's and a
  parameter. \<open>Operator_IPC\<close> (\<^verbatim>\<open>control/operator_ipc.c\<close>, \<^verbatim>\<open>ipc/ipc_fill.c\<close>): the state event, its
  broadcast, the welcome and the callback, which is the interpretation of \<open>ipc_handler\<close>. In every
  run the server stays well-formed, a viewer gets whole events in order, a broadcast reaches every
  viewer that stays, a newcomer's welcome is the last broadcast state, and an id is never reused.

  \<^bold>\<open>Conventions.\<close> Bytes and fixed-width integers are words; sizes and counters that the code
  bounds are \<open>nat\<close> or \<open>int\<close>. Strings are character lists without the terminator, cut by
  \<open>snprintf\<close> where the code cuts them. Doubles (seconds, decibels, degrees) are exact rationals:
  rounding, infinities and NaN are outside the model. The counters of \<^verbatim>\<open>int\<close> width for client ids
  and audio frames are unbounded here, which agrees with the code for the first 2147483647 of them.
  Loops are recursive functions with a termination proof; no function has fuel. Clocks, files and
  the kernel are read through arguments or through lists of answers in the state.

  \<^bold>\<open>Not modelled.\<close> The modem, filters and other floating-point signal processing (\<^verbatim>\<open>dsp/\<close>), the
  receive worker and decode loop (\<^verbatim>\<open>pipeline/\<close>), SDR, rotator and relay drivers (\<^verbatim>\<open>hw/\<close>), orbit
  prediction (\<^verbatim>\<open>orbit/\<close>, \<^verbatim>\<open>sgp4sdp4/\<close>), tracking and hardware start-up (\<^verbatim>\<open>control/\<close>), drawing
  (\<^verbatim>\<open>ui/\<close>), the SQLite packet store (\<^verbatim>\<open>db/\<close>), telemetry decoders (\<^verbatim>\<open>beacon/\<close>, the rest of
  \<^verbatim>\<open>proto/\<close>), paths, audit log and start-up probe (\<^verbatim>\<open>ipc/\<close>), the command-line programs and
  utilities, and the vendored audio library. They are numerical, drive devices, or draw; where the
  modelled paths meet them, they are inputs.
\<close>

end
